(* ===== verification/Prelude.thy ===== *)
theory Prelude
  imports Complex_Main "HOL-Library.Word"
begin

text \<open>
  Shared vocabulary of the development: machine integers, the three outcomes of a Rust
  function returning a \<^verbatim>\<open>Result\<close> (a value, an error, a panic), slice indexing that panics
  out of range, the little- and big-endian integer codecs of the standard library, decimal
  formatting for error messages, and the fact collections the component proofs use.

  \<^verbatim>\<open>usize\<close> is \<open>nat\<close>: every length and cursor of the modelled code is bounded by the length
  of a buffer plus a small constant, far below \<open>2 ^ 32\<close>, so its additions cannot wrap.
  \<^verbatim>\<open>iN\<close> is the \<open>N word\<close> with the same bits, read by \<open>sint\<close>.
\<close>

type_synonym byte = "8 word"
type_synonym u16 = "16 word"
type_synonym u32 = "32 word"
type_synonym u64 = "64 word"
type_synonym i8 = "8 word"
type_synonym i16 = "16 word"
type_synonym i32 = "32 word"

named_theorems reads \<open>evaluation of in-range reads and slices\<close>
named_theorems codec \<open>integer codecs and their inverses\<close>
named_theorems parsers \<open>definitions unfolded when a parser is analysed\<close>
named_theorems encoders \<open>definitions unfolded when a command constructor is analysed\<close>

section \<open>Results\<close>

datatype ('e, 'a) result = Ok 'a | Err 'e | Panic

fun rbind :: "('e, 'a) result \<Rightarrow> ('a \<Rightarrow> ('e, 'b) result) \<Rightarrow> ('e, 'b) result" where
  "rbind (Ok a) k = k a"
| "rbind (Err e) k = Err e"
| "rbind Panic k = Panic"

fun map_err :: "('e \<Rightarrow> 'f) \<Rightarrow> ('e, 'a) result \<Rightarrow> ('f, 'a) result" where
  "map_err f (Ok a) = Ok a"
| "map_err f (Err e) = Err (f e)"
| "map_err f Panic = Panic"

fun map_ok :: "('a \<Rightarrow> 'b) \<Rightarrow> ('e, 'a) result \<Rightarrow> ('e, 'b) result" where
  "map_ok f (Ok a) = Ok (f a)"
| "map_ok f (Err e) = Err e"
| "map_ok f Panic = Panic"

fun ok_or :: "'a option \<Rightarrow> 'e \<Rightarrow> ('e, 'a) result" where
  "ok_or None e = Err e"
| "ok_or (Some a) e = Ok a"

lemma rbind_eq_Ok: "rbind r k = Ok b \<longleftrightarrow> (\<exists>a. r = Ok a \<and> k a = Ok b)"
  by (cases r) auto

lemma rbind_eq_Err: "rbind r k = Err e \<longleftrightarrow> r = Err e \<or> (\<exists>a. r = Ok a \<and> k a = Err e)"
  by (cases r) auto

lemma rbind_eq_Panic: "rbind r k = Panic \<longleftrightarrow> r = Panic \<or> (\<exists>a. r = Ok a \<and> k a = Panic)"
  by (cases r) auto

lemma map_err_eq_Ok [simp]: "map_err f r = Ok a \<longleftrightarrow> r = Ok a"
  by (cases r) auto

lemma map_err_eq_Panic [simp]: "map_err f r = Panic \<longleftrightarrow> r = Panic"
  by (cases r) auto

lemma map_ok_eq_Ok [simp]: "map_ok f r = Ok b \<longleftrightarrow> (\<exists>a. r = Ok a \<and> b = f a)"
  by (cases r) auto

lemma map_ok_eq_Panic [simp]: "map_ok f r = Panic \<longleftrightarrow> r = Panic"
  by (cases r) auto

lemma ok_or_eq_Ok [simp]: "ok_or x e = Ok a \<longleftrightarrow> x = Some a"
  by (cases x) auto

lemma ok_or_neq_Panic [simp]: "ok_or x e \<noteq> Panic"
  by (cases x) auto

section \<open>Indexing and slicing\<close>

text \<open>
  \<^verbatim>\<open>raw[i]\<close> and \<^verbatim>\<open>raw[a..b]\<close> panic out of range. They are written in continuation style, so
  that a sequence of reads is a sequence of bindings.
\<close>

definition idx :: "'a list \<Rightarrow> nat \<Rightarrow> ('a \<Rightarrow> ('e, 'b) result) \<Rightarrow> ('e, 'b) result" where
  "idx xs i k = (if i < length xs then k (xs ! i) else Panic)"

definition slice :: "'a list \<Rightarrow> nat \<Rightarrow> nat \<Rightarrow> ('a list \<Rightarrow> ('e, 'b) result) \<Rightarrow> ('e, 'b) result" where
  "slice xs a b k = (if a \<le> b \<and> b \<le> length xs then k (take (b - a) (drop a xs)) else Panic)"

text \<open>\<^verbatim>\<open>raw.get(i)\<close> and \<^verbatim>\<open>raw.get(a..b)\<close> answer with an option instead.\<close>

definition get :: "'a list \<Rightarrow> nat \<Rightarrow> 'a option" where
  "get xs i = (if i < length xs then Some (xs ! i) else None)"

definition get_range :: "'a list \<Rightarrow> nat \<Rightarrow> nat \<Rightarrow> 'a list option" where
  "get_range xs a b = (if a \<le> b \<and> b \<le> length xs then Some (take (b - a) (drop a xs)) else None)"

lemma idx_in [simp, reads]: "i < length xs \<Longrightarrow> idx xs i k = k (xs ! i)"
  by (simp add: idx_def)

lemma slice_in [simp, reads]:
  "a \<le> b \<Longrightarrow> b \<le> length xs \<Longrightarrow> slice xs a b k = k (take (b - a) (drop a xs))"
  by (simp add: slice_def)

lemma idx_eq_Ok: "idx xs i k = Ok r \<longleftrightarrow> i < length xs \<and> k (xs ! i) = Ok r"
  by (simp add: idx_def)

lemma slice_eq_Ok:
  "slice xs a b k = Ok r \<longleftrightarrow> a \<le> b \<and> b \<le> length xs \<and> k (take (b - a) (drop a xs)) = Ok r"
  by (auto simp: slice_def)

lemma get_eq_Some [simp]: "get xs i = Some x \<longleftrightarrow> i < length xs \<and> x = xs ! i"
  by (auto simp: get_def)

lemma get_eq_None [simp]: "get xs i = None \<longleftrightarrow> length xs \<le> i"
  by (auto simp: get_def)

lemma get_range_eq_Some:
  "get_range xs a b = Some ys \<longleftrightarrow> a \<le> b \<and> b \<le> length xs \<and> ys = take (b - a) (drop a xs)"
  by (auto simp: get_range_def)

text \<open>\<^verbatim>\<open>iter().position(..)\<close> for a byte value.\<close>

fun position :: "'a \<Rightarrow> 'a list \<Rightarrow> nat option" where
  "position c [] = None"
| "position c (x # xs) = (if x = c then Some 0 else map_option Suc (position c xs))"

lemma position_eq_None [simp]: "position c xs = None \<longleftrightarrow> c \<notin> set xs"
  by (induction xs) auto

lemma position_absent: "c \<notin> set xs \<Longrightarrow> position c xs = None"
  by simp

lemma position_present: "position c xs = Some i \<Longrightarrow> c \<in> set xs"
  using position_absent [of c xs] by fastforce

lemma position_eq_Some:
  "position c xs = Some i \<longleftrightarrow> i < length xs \<and> xs ! i = c \<and> c \<notin> set (take i xs)"
proof (induction xs arbitrary: i)
  case Nil
  then show ?case by simp
next
  case (Cons x xs)
  then show ?case by (cases i) auto
qed

lemma position_append:
  "c \<notin> set xs \<Longrightarrow> position c (xs @ ys) = map_option (\<lambda>i. length xs + i) (position c ys)"
proof (induction xs)
  case Nil
  then show ?case by (cases "position c ys") (simp_all add: position_absent)
next
  case (Cons x xs)
  then show ?case by (cases "position c ys") (auto simp: position_absent)
qed

text \<open>
  \<^verbatim>\<open>chunks(n)\<close> cuts a slice into pieces of \<open>n\<close> elements, the last one possibly shorter;
  \<^verbatim>\<open>chunks_exact(n)\<close> leaves such a remainder out. Every caller passes a positive constant.
\<close>

function chunks :: "nat \<Rightarrow> 'a list \<Rightarrow> 'a list list" where
  "chunks n xs = (if n = 0 \<or> xs = [] then [] else take n xs # chunks n (drop n xs))"
  by auto
termination by (relation "measure (\<lambda>(n, xs). length xs)") auto

function chunks_exact :: "nat \<Rightarrow> 'a list \<Rightarrow> 'a list list" where
  "chunks_exact n xs = (if n = 0 \<or> length xs < n then [] else take n xs # chunks_exact n (drop n xs))"
  by auto
termination by (relation "measure (\<lambda>(n, xs). length xs)") auto

declare chunks.simps [simp del] chunks_exact.simps [simp del]

lemma concat_chunks: "0 < n \<Longrightarrow> concat (chunks n xs) = xs"
  by (induction n xs rule: chunks.induct) (subst chunks.simps, simp)

lemma length_chunk: "c \<in> set (chunks n xs) \<Longrightarrow> 0 < length c \<and> length c \<le> n"
proof (induction n xs rule: chunks.induct)
  case (1 n xs)
  show ?case
  proof (cases "n = 0 \<or> xs = []")
    case True
    with 1 show ?thesis by (simp add: chunks.simps)
  next
    case False
    with 1 have "c = take n xs \<or> c \<in> set (chunks n (drop n xs))"
      by (subst (asm) chunks.simps) simp
    with 1 False show ?thesis by auto
  qed
qed

lemma chunks_exact_concat:
  "0 < n \<Longrightarrow> (\<And>c. c \<in> set cs \<Longrightarrow> length c = n) \<Longrightarrow> chunks_exact n (concat cs) = cs"
  by (induction cs) (subst chunks_exact.simps, simp)+

lemma length_chunk_exact: "c \<in> set (chunks_exact n xs) \<Longrightarrow> length c = n"
proof (induction n xs rule: chunks_exact.induct)
  case (1 n xs)
  show ?case
  proof (cases "n = 0 \<or> length xs < n")
    case True
    with 1 show ?thesis by (simp add: chunks_exact.simps)
  next
    case False
    with 1 have "c = take n xs \<or> c \<in> set (chunks_exact n (drop n xs))"
      by (subst (asm) chunks_exact.simps) simp
    with 1 False show ?thesis by auto
  qed
qed

lemma concat_chunks_exact: "0 < n \<Longrightarrow> n dvd length xs \<Longrightarrow> concat (chunks_exact n xs) = xs"
proof (induction n xs rule: chunks_exact.induct)
  case (1 n xs)
  show ?case
  proof (cases "length xs < n")
    case True
    with "1.prems" have "xs = []" by (auto dest: dvd_imp_le)
    with 1 show ?thesis by (simp add: chunks_exact.simps)
  next
    case False
    with 1 have "concat (chunks_exact n (drop n xs)) = drop n xs" by (simp add: dvd_diff_nat)
    with 1 False show ?thesis by (subst chunks_exact.simps) simp
  qed
qed

lemma length_concat_const:
  "(\<And>x. x \<in> set xs \<Longrightarrow> length (f x) = n) \<Longrightarrow> length (concat (map f xs)) = length xs * n"
  by (induction xs) auto

section \<open>Integer codecs\<close>

unbundle bit_operations_syntax

definition u16_from_le_bytes :: "byte \<Rightarrow> byte \<Rightarrow> u16" where
  "u16_from_le_bytes b0 b1 = ucast b0 OR push_bit 8 (ucast b1)"

definition u32_from_le_bytes :: "byte \<Rightarrow> byte \<Rightarrow> byte \<Rightarrow> byte \<Rightarrow> u32" where
  "u32_from_le_bytes b0 b1 b2 b3 =
     ucast b0 OR push_bit 8 (ucast b1) OR push_bit 16 (ucast b2) OR push_bit 24 (ucast b3)"

definition u16_from_be_bytes :: "byte \<Rightarrow> byte \<Rightarrow> u16" where
  "u16_from_be_bytes b0 b1 = u16_from_le_bytes b1 b0"

definition u32_from_be_bytes :: "byte \<Rightarrow> byte \<Rightarrow> byte \<Rightarrow> byte \<Rightarrow> u32" where
  "u32_from_be_bytes b0 b1 b2 b3 = u32_from_le_bytes b3 b2 b1 b0"

definition u16_to_le_bytes :: "u16 \<Rightarrow> byte list" where
  "u16_to_le_bytes w = [ucast w, ucast (drop_bit 8 w)]"

definition u32_to_le_bytes :: "u32 \<Rightarrow> byte list" where
  "u32_to_le_bytes w =
     [ucast w, ucast (drop_bit 8 w), ucast (drop_bit 16 w), ucast (drop_bit 24 w)]"

lemma length_u16_to_le_bytes [simp, codec]: "length (u16_to_le_bytes w) = 2"
  by (simp add: u16_to_le_bytes_def)

lemma length_u32_to_le_bytes [simp, codec]: "length (u32_to_le_bytes w) = 4"
  by (simp add: u32_to_le_bytes_def)

lemma u16_le_roundtrip [codec]:
  "u16_from_le_bytes (u16_to_le_bytes w ! 0) (u16_to_le_bytes w ! 1) = w"
  unfolding u16_from_le_bytes_def u16_to_le_bytes_def
  by (rule bit_word_eqI) (auto simp: bit_simps)

lemma u32_le_roundtrip [codec]:
  "u32_from_le_bytes (u32_to_le_bytes w ! 0) (u32_to_le_bytes w ! 1)
     (u32_to_le_bytes w ! 2) (u32_to_le_bytes w ! 3) = w"
proof (rule bit_word_eqI)
  fix n assume "n < LENGTH(32)"
  then consider "n < 8" | "8 \<le> n" "n < 16" | "16 \<le> n" "n < 24" | "24 \<le> n" "n < 32"
    by fastforce
  then show "bit (u32_from_le_bytes (u32_to_le_bytes w ! 0) (u32_to_le_bytes w ! 1)
     (u32_to_le_bytes w ! 2) (u32_to_le_bytes w ! 3)) n = bit w n"
    by cases (auto simp: u32_from_le_bytes_def u32_to_le_bytes_def bit_simps)
qed

lemma byte_bit_high: "8 \<le> m \<Longrightarrow> \<not> bit (b :: byte) m"
  using bit_imp_le_length [of b m] by auto

lemma u16_le_inverse [codec]: "u16_to_le_bytes (u16_from_le_bytes b0 b1) = [b0, b1]"
  unfolding u16_from_le_bytes_def u16_to_le_bytes_def
  by (auto intro!: bit_word_eqI simp: bit_simps byte_bit_high)

lemma u32_le_inverse [codec]:
  "u32_to_le_bytes (u32_from_le_bytes b0 b1 b2 b3) = [b0, b1, b2, b3]"
  unfolding u32_from_le_bytes_def u32_to_le_bytes_def
  by (auto intro!: bit_word_eqI simp: bit_simps byte_bit_high)

section \<open>Windows of the most recent elements\<close>

definition lastn :: "nat \<Rightarrow> 'a list \<Rightarrow> 'a list" where
  "lastn n xs = drop (length xs - n) xs"

lemma lastn_snoc: "0 < n \<Longrightarrow> lastn n (xs @ [x]) = lastn (n - 1) xs @ [x]"
  by (cases n) (auto simp: lastn_def Suc_diff_le)

lemma lastn_append: "length ys = n \<Longrightarrow> lastn n (xs @ ys) = ys"
  by (simp add: lastn_def)

lemma remdups_snoc: "remdups (xs @ [x]) = filter (\<lambda>y. y \<noteq> x) (remdups xs) @ [x]"
  by (induction xs) auto

lemma filter_neq_absent: "x \<notin> set xs \<Longrightarrow> filter (\<lambda>y. y \<noteq> x) xs = xs"
  by (induction xs) auto

lemma length_filter_neq:
  "distinct xs \<Longrightarrow> x \<in> set xs \<Longrightarrow> length (filter (\<lambda>y. y \<noteq> x) xs) = length xs - 1"
  by (induction xs) (auto simp: filter_neq_absent neq_Nil_conv dest: split_list)

text \<open>Moving a key to the end of a window of the most recent keys commutes with the window.\<close>

lemma lastn_move_to_end:
  assumes "distinct xs" and "0 < n"
  shows "lastn (n - 1) (filter (\<lambda>y. y \<noteq> x) (lastn n xs)) = lastn (n - 1) (filter (\<lambda>y. y \<noteq> x) xs)"
proof -
  define a where "a = take (length xs - n) xs"
  define b where "b = lastn n xs"
  have xs: "xs = a @ b" by (simp add: a_def b_def lastn_def)
  show ?thesis
  proof (cases "a = []")
    case True
    then have "lastn n xs = xs" using xs by (simp add: b_def)
    then show ?thesis by simp
  next
    case False
    then have lb: "length b = n" by (auto simp: a_def b_def lastn_def)
    show ?thesis
    proof (cases "x \<in> set b")
      case True
      with assms xs have "x \<notin> set a" and "distinct b" by auto
      with True lb assms(2) have "length (filter (\<lambda>y. y \<noteq> x) b) = n - 1"
        by (simp add: length_filter_neq)
      then show ?thesis by (simp add: b_def [symmetric]) (simp add: xs lastn_def)
    next
      case False
      then have "filter (\<lambda>y. y \<noteq> x) b = b" by (rule filter_neq_absent)
      with lb show ?thesis by (simp add: b_def [symmetric]) (simp add: xs lastn_def)
    qed
  qed
qed

end
