(* ===== verification/Text.thy ===== *)
theory Text
  imports Prelude
begin

text \<open>
  Rust strings. A \<^verbatim>\<open>String\<close> is the list of its UTF-8 bytes, so \<^verbatim>\<open>len()\<close> is \<open>length\<close> and
  \<^verbatim>\<open>String::from_utf8\<close> is the test \<open>utf8\<close>, the well-formedness table the standard library
  implements (no overlong forms, no surrogates, nothing above U+10FFFF). The separators the
  code splits at are ASCII, so splitting characters and splitting bytes agree on valid text;
  \<open>utf8_split_ascii\<close> is the fact behind that. Diagnostic messages are \<open>string\<close>s.
\<close>

type_synonym rstr = "byte list"

definition bytes_of :: "string \<Rightarrow> rstr" where
  "bytes_of s = map of_char s"

section \<open>UTF-8 validity\<close>

definition cont :: "byte \<Rightarrow> bool" where
  "cont b \<longleftrightarrow> 0x80 \<le> b \<and> b \<le> 0xBF"

text \<open>What may follow a lead byte: the number of continuation bytes and the range of the first.\<close>

definition lead :: "byte \<Rightarrow> (nat \<times> byte \<times> byte) option" where
  "lead b =
     (if 0xC2 \<le> b \<and> b \<le> 0xDF then Some (1, 0x80, 0xBF)
      else if b = 0xE0 then Some (2, 0xA0, 0xBF)
      else if b = 0xED then Some (2, 0x80, 0x9F)
      else if 0xE1 \<le> b \<and> b \<le> 0xEF then Some (2, 0x80, 0xBF)
      else if b = 0xF0 then Some (3, 0x90, 0xBF)
      else if 0xF1 \<le> b \<and> b \<le> 0xF3 then Some (3, 0x80, 0xBF)
      else if b = 0xF4 then Some (3, 0x80, 0x8F)
      else None)"

fun utf8 :: "byte list \<Rightarrow> bool" where
  "utf8 [] = True"
| "utf8 (b # r) =
     (if b \<le> 0x7F then utf8 r
      else case lead b of
        None \<Rightarrow> False
      | Some (n, lo, hi) \<Rightarrow>
          n \<le> length r \<and> lo \<le> r ! 0 \<and> r ! 0 \<le> hi \<and> list_all cont (take n r) \<and> utf8 (drop n r))"

lemma lead_pos: "lead b = Some (n, lo, hi) \<Longrightarrow> 0 < n"
  by (auto simp: lead_def split: if_splits)

lemma utf8_append: "utf8 xs \<Longrightarrow> utf8 ys \<Longrightarrow> utf8 (xs @ ys)"
proof (induction xs rule: utf8.induct)
  case 1
  then show ?case by simp
next
  case (2 b r)
  then show ?case
    by (auto simp: nth_append dest: lead_pos split: if_splits option.splits)
qed

lemma utf8_ascii: "list_all (\<lambda>b. b \<le> 0x7F) xs \<Longrightarrow> utf8 xs"
  by (induction xs) auto

text \<open>Cutting valid text at an ASCII byte leaves valid text on both sides.\<close>

lemma cont_not_ascii: "c \<le> 0x7F \<Longrightarrow> \<not> cont c"
  by (auto simp: cont_def word_le_nat_alt)

lemma utf8_split_ascii:
  "utf8 (xs @ c # ys) \<Longrightarrow> c \<le> 0x7F \<Longrightarrow> utf8 xs \<and> utf8 ys"
proof (induction xs rule: utf8.induct)
  case 1
  then show ?case by simp
next
  case (2 b r)
  show ?case
  proof (cases "b \<le> 0x7F")
    case True
    with 2 show ?thesis by simp
  next
    case False
    with "2.prems"(1) obtain n lo hi where ld: "lead b = Some (n, lo, hi)"
      and c: "list_all cont (take n (r @ c # ys))" and u: "utf8 (drop n (r @ c # ys))"
      and f: "lo \<le> (r @ c # ys) ! 0" "(r @ c # ys) ! 0 \<le> hi"
      by (auto split: option.splits)
    have n: "n \<le> length r"
    proof (rule ccontr)
      assume "\<not> n \<le> length r"
      then obtain m where "n - length r = Suc m"
        by (cases "n - length r") auto
      then have "c \<in> set (take n (r @ c # ys))"
        by simp
      with c have "cont c" by (simp add: list_all_iff)
      with "2.prems"(2) cont_not_ascii show False by blast
    qed
    with u have "utf8 (drop n r @ c # ys)" by simp
    with False ld "2.prems"(2) "2.IH"(2) have "utf8 (drop n r) \<and> utf8 ys" by simp
    moreover from c n have "list_all cont (take n r)" by simp
    moreover from f n lead_pos [OF ld] have "lo \<le> r ! 0" "r ! 0 \<le> hi"
      by (cases r; simp)+
    ultimately show ?thesis using False ld n by simp
  qed
qed

section \<open>Searching and splitting\<close>

text \<open>
  \<^verbatim>\<open>s.split(c)\<close> yields at least one (possibly empty) piece; \<^verbatim>\<open>s.split_once(c)\<close> cuts at the first
  occurrence; \<^verbatim>\<open>s.splitn(n, c)\<close> yields at most \<open>n\<close> pieces, the last one uncut.
\<close>

fun split_on :: "'a \<Rightarrow> 'a list \<Rightarrow> 'a list list" where
  "split_on c [] = [[]]"
| "split_on c (x # xs) =
     (if x = c then [] # split_on c xs
      else case split_on c xs of [] \<Rightarrow> [[x]] | p # ps \<Rightarrow> (x # p) # ps)"

definition split_once :: "'a \<Rightarrow> 'a list \<Rightarrow> ('a list \<times> 'a list) option" where
  "split_once c xs =
     (case position c xs of None \<Rightarrow> None | Some i \<Rightarrow> Some (take i xs, drop (Suc i) xs))"

fun splitn :: "nat \<Rightarrow> 'a \<Rightarrow> 'a list \<Rightarrow> 'a list list" where
  "splitn 0 c xs = []"
| "splitn (Suc 0) c xs = [xs]"
| "splitn (Suc (Suc n)) c xs =
     (case split_once c xs of None \<Rightarrow> [xs] | Some (a, b) \<Rightarrow> a # splitn (Suc n) c b)"

fun join :: "'a \<Rightarrow> 'a list list \<Rightarrow> 'a list" where
  "join c [] = []"
| "join c [p] = p"
| "join c (p # q # ps) = p @ c # join c (q # ps)"

lemma split_on_ne [simp]: "split_on c xs \<noteq> []"
  by (induction xs) (auto split: list.splits)

lemma join_split_on: "join c (split_on c xs) = xs"
proof (induction xs)
  case (Cons x xs)
  obtain p ps where "split_on c xs = p # ps"
    by (cases "split_on c xs") auto
  with Cons show ?case by (cases ps) auto
qed simp

lemma split_on_no_sep: "p \<in> set (split_on c xs) \<Longrightarrow> c \<notin> set p"
proof (induction xs arbitrary: p)
  case (Cons x xs)
  then show ?case
    by (cases "split_on c xs") (auto split: if_splits)
qed simp

lemma split_on_absent: "c \<notin> set xs \<Longrightarrow> split_on c xs = [xs]"
  by (induction xs) auto

lemma split_on_append: "c \<notin> set p \<Longrightarrow> split_on c (p @ c # xs) = p # split_on c xs"
  by (induction p) auto

lemma split_on_join:
  "ps \<noteq> [] \<Longrightarrow> (\<And>p. p \<in> set ps \<Longrightarrow> c \<notin> set p) \<Longrightarrow> split_on c (join c ps) = ps"
  by (induction c ps rule: join.induct) (auto simp: split_on_absent split_on_append)

lemma split_once_eq_None [simp]: "split_once c xs = None \<longleftrightarrow> c \<notin> set xs"
  by (auto simp: split_once_def dest: position_present split: option.splits)

lemma split_once_append: "c \<notin> set a \<Longrightarrow> split_once c (a @ c # b) = Some (a, b)"
  by (simp add: split_once_def position_append)

lemma split_once_eq_Some:
  "split_once c xs = Some (a, b) \<longleftrightarrow> xs = a @ c # b \<and> c \<notin> set a"
proof
  assume "split_once c xs = Some (a, b)"
  then obtain i where "position c xs = Some i" "a = take i xs" "b = drop (Suc i) xs"
    by (auto simp: split_once_def split: option.splits)
  then show "xs = a @ c # b \<and> c \<notin> set a"
    by (auto simp: position_eq_Some id_take_nth_drop)
next
  assume "xs = a @ c # b \<and> c \<notin> set a"
  then show "split_once c xs = Some (a, b)"
    by (auto simp: split_once_append)
qed

lemma utf8_split_on: "utf8 xs \<Longrightarrow> c \<le> 0x7F \<Longrightarrow> p \<in> set (split_on c xs) \<Longrightarrow> utf8 p"
proof (induction "length xs" arbitrary: xs p rule: less_induct)
  case less
  show ?case
  proof (cases "split_once c xs")
    case None
    with less.prems show ?thesis by (simp add: split_on_absent)
  next
    case (Some ab)
    then obtain a b where ab: "xs = a @ c # b" "c \<notin> set a"
      by (cases ab) (auto simp: split_once_eq_Some)
    with less.prems have "utf8 a" "utf8 b" "p = a \<or> p \<in> set (split_on c b)"
      by (auto simp: split_on_append dest: utf8_split_ascii)
    with less.hyps [of b p] less.prems(2) ab show ?thesis by auto
  qed
qed

lemma join_eq_Nil: "(\<And>p. p \<in> set ps \<Longrightarrow> p \<noteq> []) \<Longrightarrow> join c ps = [] \<longleftrightarrow> ps = []"
  by (cases "(c, ps)" rule: join.cases) auto

lemma utf8_join: "c \<le> 0x7F \<Longrightarrow> (\<And>p. p \<in> set ps \<Longrightarrow> utf8 p) \<Longrightarrow> utf8 (join c ps)"
  by (induction c ps rule: join.induct) (auto intro!: utf8_append)

lemma set_join: "set (join c ps) \<subseteq> insert c (\<Union> (set ` set ps))"
  by (induction c ps rule: join.induct) auto

section \<open>Padded fields\<close>

text \<open>A fixed-width text field holds its text, then at least one NUL when it is not full.\<close>

definition pad_to :: "nat \<Rightarrow> byte list \<Rightarrow> byte list" where
  "pad_to n xs = xs @ replicate (n - length xs) 0"

definition until_nul :: "byte list \<Rightarrow> byte list" where
  "until_nul xs = (case position 0 xs of None \<Rightarrow> xs | Some i \<Rightarrow> take i xs)"

lemma length_pad_to [simp]: "length xs \<le> n \<Longrightarrow> length (pad_to n xs) = n"
  by (simp add: pad_to_def)

lemma until_nul_takeWhile: "until_nul xs = takeWhile (\<lambda>b. b \<noteq> 0) xs"
proof (induction xs)
  case (Cons x xs)
  then show ?case
    by (cases "position 0 xs") (auto simp: until_nul_def position_absent dest: position_present)
qed (simp add: until_nul_def)

lemma until_nul_pad [simp]: "0 \<notin> set xs \<Longrightarrow> until_nul (pad_to n xs) = xs"
  by (auto simp: until_nul_takeWhile pad_to_def takeWhile_append takeWhile_replicate
      takeWhile_eq_all_conv)

lemma length_until_nul: "length (until_nul f) \<le> length f"
  by (simp add: until_nul_takeWhile length_takeWhile_le)

lemma until_nul_no_nul [simp]: "0 \<notin> set (until_nul f)"
  by (auto simp: until_nul_takeWhile dest: set_takeWhileD)

section \<open>Decimal numbers in messages\<close>

fun show_nat :: "nat \<Rightarrow> string" where
  "show_nat n =
     (if n < 10 then [char_of (48 + n)] else show_nat (n div 10) @ [char_of (48 + n mod 10)])"

declare show_nat.simps [simp del]

definition show_int :: "int \<Rightarrow> string" where
  "show_int i = (if i < 0 then ''-'' @ show_nat (nat (- i)) else show_nat (nat i))"

end
