(* ===== verification/Floats.thy ===== *)
theory Floats
  imports Prelude "HOL-Library.Log_Nat"
begin

text \<open>
  The floating-point operations of the source: conversion from integers, division and
  multiplication rounded to nearest-even at 53 (\<^verbatim>\<open>f64\<close>) or 24 (\<^verbatim>\<open>f32\<close>) significant bits, and
  the saturating cast \<^verbatim>\<open>as i32\<close>. A finite value is the rational it denotes. The exponent range
  is not bounded: every quotient and product formed from wire integers is far inside the normal
  range, and a coordinate given by a caller is range-checked before it is scaled, where a
  subnormal product truncates to 0 in either reading.
\<close>

datatype flt = Finite rat | Infinite bool \<comment> \<open>negative?\<close> | NaN

type_synonym f64 = flt
type_synonym f32 = flt

definition is_finite :: "flt \<Rightarrow> bool" where
  "is_finite x = (case x of Finite _ \<Rightarrow> True | _ \<Rightarrow> False)"

section \<open>Rounding\<close>

definition pow2 :: "int \<Rightarrow> rat" where
  "pow2 e = (if 0 \<le> e then 2 ^ nat e else 1 / 2 ^ nat (- e))"

text \<open>The exponent of a positive rational: \<open>pow2 e \<le> x < pow2 (e + 1)\<close>.\<close>

definition ilog2 :: "rat \<Rightarrow> int" where
  "ilog2 x =
     (let (n, d) = quotient_of x; e = bitlen n - bitlen d
      in if pow2 e \<le> x then e else e - 1)"

definition round_half_even :: "rat \<Rightarrow> int" where
  "round_half_even x =
     (let f = \<lfloor>x\<rfloor>; r = x - of_int f
      in if r < 1 / 2 then f else if 1 / 2 < r then f + 1 else if even f then f else f + 1)"

definition round_to :: "nat \<Rightarrow> rat \<Rightarrow> rat" where
  "round_to p x =
     (if x = 0 then 0
      else let u = pow2 (ilog2 \<bar>x\<bar> + 1 - int p)
           in sgn x * (of_int (round_half_even (\<bar>x\<bar> / u)) * u))"

definition flt_of_int :: "nat \<Rightarrow> int \<Rightarrow> flt" where
  "flt_of_int p n = Finite (round_to p (of_int n))"

fun flt_div :: "nat \<Rightarrow> flt \<Rightarrow> flt \<Rightarrow> flt" where
  "flt_div p (Finite a) (Finite b) =
     (if b \<noteq> 0 then Finite (round_to p (a / b))
      else if a = 0 then NaN else Infinite (a < 0))"
| "flt_div p (Infinite s) (Finite b) = Infinite (s \<noteq> (b < 0))"
| "flt_div p (Finite a) (Infinite s) = Finite 0"
| "flt_div p _ _ = NaN"

fun flt_mul :: "nat \<Rightarrow> flt \<Rightarrow> flt \<Rightarrow> flt" where
  "flt_mul p (Finite a) (Finite b) = Finite (round_to p (a * b))"
| "flt_mul p (Infinite s) (Finite b) = (if b = 0 then NaN else Infinite (s \<noteq> (b < 0)))"
| "flt_mul p (Finite a) (Infinite s) = (if a = 0 then NaN else Infinite (s \<noteq> (a < 0)))"
| "flt_mul p (Infinite s) (Infinite t) = Infinite (s \<noteq> t)"
| "flt_mul p _ _ = NaN"

fun flt_less :: "flt \<Rightarrow> flt \<Rightarrow> bool" where
  "flt_less (Finite a) (Finite b) = (a < b)"
| "flt_less (Finite a) (Infinite s) = (\<not> s)"
| "flt_less (Infinite s) (Finite b) = s"
| "flt_less (Infinite s) (Infinite t) = (s \<and> \<not> t)"
| "flt_less _ _ = False"

text \<open>\<^verbatim>\<open>x as i32\<close>: towards zero, saturating, NaN to zero.\<close>

definition trunc :: "rat \<Rightarrow> int" where
  "trunc x = (if 0 \<le> x then \<lfloor>x\<rfloor> else \<lceil>x\<rceil>)"

fun as_i32 :: "flt \<Rightarrow> i32" where
  "as_i32 (Finite x) = word_of_int (max (- (2 ^ 31)) (min (2 ^ 31 - 1) (trunc x)))"
| "as_i32 (Infinite s) = word_of_int (if s then - (2 ^ 31) else 2 ^ 31 - 1)"
| "as_i32 NaN = 0"

section \<open>Facts about rounding\<close>

lemma pow2_pos [simp]: "0 < pow2 e"
  by (simp add: pow2_def)

lemma pow2_ne_0 [simp]: "pow2 e \<noteq> 0"
  using pow2_pos [of e] by linarith

lemma pow2_powi: "pow2 e = 2 powi e"
  by (simp add: pow2_def power_int_def field_simps)

lemma pow2_add: "pow2 (a + b) = pow2 a * pow2 b"
  by (simp add: pow2_powi power_int_add)

lemma pow2_mono: "a \<le> b \<Longrightarrow> pow2 a \<le> pow2 b"
  by (simp add: pow2_powi power_int_increasing)

lemma pow2_nat: "pow2 (int n) = 2 ^ n"
  by (simp add: pow2_def)

text \<open>The unit in the last place is at most \<open>2 ^ (1 - p)\<close> of the value.\<close>

lemma bitlen_pow2_bounds:
  assumes "0 < n"
  shows "pow2 (bitlen n - 1) \<le> of_int n" and "of_int n < pow2 (bitlen n)"
proof -
  have pos: "0 < bitlen n" using assms bitlen_eq_zero_iff [of n] bitlen_nonneg [of n] by linarith
  have "(2::int) ^ nat (bitlen n - 1) \<le> n" "n < 2 ^ nat (bitlen n)"
    using bitlen_bounds [OF assms] by auto
  then have "of_int ((2::int) ^ nat (bitlen n - 1)) \<le> (of_int n :: rat)"
    "(of_int n :: rat) < of_int (2 ^ nat (bitlen n))"
    by (simp_all only: of_int_le_iff of_int_less_iff)
  then show "pow2 (bitlen n - 1) \<le> of_int n" and "of_int n < pow2 (bitlen n)"
    using pos by (simp_all add: pow2_def)
qed

lemma ilog2_bounds:
  assumes "0 < x"
  shows "pow2 (ilog2 x) \<le> x" and "x < pow2 (ilog2 x + 1)"
proof -
  obtain n d where q: "quotient_of x = (n, d)" by (cases "quotient_of x") auto
  have d: "0 < d" using q by (rule quotient_of_denom_pos)
  have x: "x = of_int n / of_int d" using q by (rule quotient_of_div)
  have n: "0 < n" using assms d by (simp add: x zero_less_divide_iff)
  note bn = bitlen_pow2_bounds [OF n] and bd = bitlen_pow2_bounds [OF d]
  have dpos: "0 < (of_int d :: rat)" using d by simp
  have "of_int n < pow2 (bitlen n - bitlen d + 1) * of_int d"
  proof -
    have "pow2 (bitlen n) = pow2 (bitlen n - bitlen d + 1) * pow2 (bitlen d - 1)"
      by (simp flip: pow2_add)
    then show ?thesis
      using bn(2) mult_left_mono [OF bd(1) less_imp_le [OF pow2_pos], of "bitlen n - bitlen d + 1"]
      by linarith
  qed
  then have hi: "x < pow2 (bitlen n - bitlen d + 1)"
    using dpos by (simp add: x divide_less_eq)
  have "pow2 (bitlen n - bitlen d - 1) * of_int d \<le> of_int n"
  proof -
    have "pow2 (bitlen n - 1) = pow2 (bitlen n - bitlen d - 1) * pow2 (bitlen d)"
      by (simp flip: pow2_add)
    then show ?thesis
      using bn(1) mult_left_mono [OF less_imp_le [OF bd(2)] less_imp_le [OF pow2_pos],
          of "bitlen n - bitlen d - 1"]
      by linarith
  qed
  then have lo: "pow2 (bitlen n - bitlen d - 1) \<le> x"
    using dpos by (simp add: x le_divide_eq)
  show "pow2 (ilog2 x) \<le> x" and "x < pow2 (ilog2 x + 1)"
    using hi lo by (auto simp: ilog2_def q Let_def)
qed

lemma round_half_even_err: "\<bar>of_int (round_half_even x) - x\<bar> \<le> 1 / 2"
proof -
  have "of_int \<lfloor>x\<rfloor> \<le> x" "x < of_int \<lfloor>x\<rfloor> + 1" by linarith+
  then show ?thesis
    by (simp add: round_half_even_def Let_def abs_le_iff)
qed

lemma round_half_even_int: "round_half_even (of_int n) = n"
  by (simp add: round_half_even_def)

lemma round_half_even_nonneg: "0 \<le> x \<Longrightarrow> 0 \<le> round_half_even x"
  by (auto simp: round_half_even_def Let_def)

lemma round_to_0 [simp]: "round_to p 0 = 0"
  by (simp add: round_to_def)

text \<open>The relative error of one rounding.\<close>

lemma round_to_err: "\<bar>round_to p x - x\<bar> \<le> \<bar>x\<bar> / 2 ^ p"
proof (cases "x = 0")
  case False
  define u where "u = pow2 (ilog2 \<bar>x\<bar> + 1 - int p)"
  have up: "0 < u" by (simp add: u_def)
  have "u * 2 ^ p = pow2 (ilog2 \<bar>x\<bar>) * 2"
    unfolding u_def by (simp flip: pow2_nat pow2_add) (simp add: pow2_add pow2_def [of 1])
  then have uu: "u / 2 \<le> \<bar>x\<bar> / 2 ^ p"
    using ilog2_bounds(1) [of "\<bar>x\<bar>"] False by (simp add: field_simps)
  have "round_to p x - x = sgn x * (of_int (round_half_even (\<bar>x\<bar> / u)) * u - \<bar>x\<bar>)"
    using False by (simp add: round_to_def u_def [symmetric] right_diff_distrib sgn_mult_abs)
  also have "\<dots> = sgn x * ((of_int (round_half_even (\<bar>x\<bar> / u)) - \<bar>x\<bar> / u) * u)"
    using up by (simp add: left_diff_distrib)
  finally have "\<bar>round_to p x - x\<bar> = \<bar>of_int (round_half_even (\<bar>x\<bar> / u)) - \<bar>x\<bar> / u\<bar> * u"
    using False up by (simp add: abs_mult abs_sgn_eq)
  also have "\<dots> \<le> 1 / 2 * u"
    using round_half_even_err up by (intro mult_right_mono) auto
  finally show ?thesis using uu by linarith
qed simp

text \<open>A value with at most \<open>p\<close> significant bits is not changed.\<close>

lemma pow2_less_cancel: "pow2 a < pow2 b \<Longrightarrow> a < b"
  using pow2_mono [of b a] by linarith

lemma round_to_exact:
  assumes m: "\<bar>m\<bar> < 2 ^ p"
  shows "round_to p (of_int m * pow2 e) = of_int m * pow2 e"
proof (cases "m = 0")
  case False
  define x where "x = of_int m * pow2 e"
  have ax: "\<bar>x\<bar> = of_int \<bar>m\<bar> * pow2 e"
    by (simp add: x_def abs_mult less_imp_le)
  have xpos: "0 < \<bar>x\<bar>" using False by (simp add: x_def)
  define j where "j = ilog2 \<bar>x\<bar> + 1 - int p"
  have "(of_int \<bar>m\<bar> :: rat) < of_int (2 ^ p)" using m by (simp only: of_int_less_iff)
  then have "\<bar>x\<bar> < pow2 (int p + e)"
    by (simp add: ax pow2_add pow2_nat)
  with ilog2_bounds(1) [OF xpos] have "pow2 (ilog2 \<bar>x\<bar>) < pow2 (int p + e)" by linarith
  then have je: "j \<le> e" using pow2_less_cancel by (force simp: j_def)
  have "pow2 e = pow2 (e - j) * pow2 j" by (simp flip: pow2_add)
  moreover have "pow2 (e - j) = of_int (2 ^ nat (e - j))" using je by (simp add: pow2_def)
  ultimately have "\<bar>x\<bar> / pow2 j = of_int (\<bar>m\<bar> * 2 ^ nat (e - j))"
    by (simp add: ax)
  then have "round_half_even (\<bar>x\<bar> / pow2 j) = \<bar>m\<bar> * 2 ^ nat (e - j)"
    by (metis round_half_even_int)
  then have "of_int (round_half_even (\<bar>x\<bar> / pow2 j)) * pow2 j = \<bar>x\<bar>"
    using \<open>\<bar>x\<bar> / pow2 j = _\<close> by (metis nonzero_divide_eq_eq pow2_ne_0)
  then have "round_to p x = x"
    using xpos by (simp add: round_to_def j_def [symmetric] sgn_mult_abs)
  then show ?thesis by (simp add: x_def)
qed simp

lemma round_to_int: "\<bar>m\<bar> < 2 ^ p \<Longrightarrow> round_to p (of_int m) = of_int m"
  using round_to_exact [of m p 0] by (simp add: pow2_def)

text \<open>Rounding again changes nothing.\<close>

lemma round_half_even_le: "x < of_int n \<Longrightarrow> round_half_even x \<le> n"
proof -
  assume "x < of_int n"
  then have "\<lfloor>x\<rfloor> < n" by (simp add: floor_less_iff)
  then show ?thesis by (auto simp: round_half_even_def Let_def)
qed

lemma round_to_idem:
  assumes "0 < p"
  shows "round_to p (round_to p x) = round_to p x"
proof (cases "x = 0")
  case False
  define e where "e = ilog2 \<bar>x\<bar> + 1 - int p"
  define m where "m = round_half_even (\<bar>x\<bar> / pow2 e)"
  define s :: int where "s = (if 0 < x then 1 else - 1)"
  have "\<bar>x\<bar> < pow2 (e + int p)" using ilog2_bounds(2) [of "\<bar>x\<bar>"] False by (simp add: e_def)
  then have "\<bar>x\<bar> / pow2 e < of_int (2 ^ p)" by (simp add: pow2_add pow2_nat divide_less_eq mult.commute)
  then have m: "m \<le> 2 ^ p" "0 \<le> m"
    unfolding m_def by (rule round_half_even_le) (intro round_half_even_nonneg divide_nonneg_pos, simp_all)
  have eq: "round_to p x = of_int (s * m) * pow2 e"
    using False by (simp add: round_to_def Let_def e_def m_def s_def sgn_if)
  show ?thesis
  proof (cases "m = 2 ^ p")
    case True
    then have "round_to p x = of_int s * pow2 (e + int p)" by (simp add: eq pow2_add pow2_nat)
    moreover have "\<bar>s\<bar> < 2 ^ p" using one_less_power [of "2 :: int" p] assms by (simp add: s_def)
    ultimately show ?thesis using round_to_exact [of s p "e + int p"] by simp
  next
    case False
    with m have "\<bar>s * m\<bar> < 2 ^ p" by (simp add: s_def abs_mult)
    then show ?thesis using round_to_exact [of "s * m" p e] by (simp add: eq)
  qed
qed simp

text \<open>
  Dividing an integer below \<open>2 ^ 28\<close> by a million and multiplying it back moves it by less than
  one half, so truncation loses at most one unit, towards zero.
\<close>

lemma scale_back_err:
  fixes n :: int
  assumes n: "\<bar>n\<bar> < 2 ^ 28"
  shows "\<bar>round_to 53 (round_to 53 (of_int n / 1000000) * 1000000) - of_int n\<bar> < 1 / 2"
proof -
  define x :: rat where "x = of_int n"
  define y where "y = round_to 53 (x / 1000000)"
  define z where "z = round_to 53 (y * 1000000)"
  have "(of_int \<bar>n\<bar> :: rat) < of_int (2 ^ 28)" using n by (simp only: of_int_less_iff)
  then have x: "\<bar>x\<bar> < 2 ^ 28" by (simp add: x_def)
  have "\<bar>y - x / 1000000\<bar> \<le> \<bar>x / 1000000\<bar> / 2 ^ 53"
    unfolding y_def by (rule round_to_err)
  then have "\<bar>y * 1000000 - x\<bar> \<le> \<bar>x\<bar> / 2 ^ 53" by (simp add: abs_if split: if_splits)
  then have y: "\<bar>y * 1000000 - x\<bar> \<le> 1 / 2 ^ 24" using x by simp
  have "\<bar>z - y * 1000000\<bar> \<le> \<bar>y * 1000000\<bar> / 2 ^ 53"
    unfolding z_def by (rule round_to_err)
  then have z: "\<bar>z - y * 1000000\<bar> \<le> 1 / 2 ^ 24" using x y by (simp add: abs_if split: if_splits)
  from y z have "\<bar>z - x\<bar> < 1 / 2" by (simp add: abs_if split: if_splits)
  then show ?thesis by (simp add: x_def y_def z_def)
qed

lemma trunc_near:
  assumes "\<bar>z - of_int n\<bar> < 1 / 2"
  shows "trunc z = n \<or> n \<noteq> 0 \<and> trunc z = n - sgn n"
proof -
  consider "n = 0" | "0 < n" | "n < 0" by linarith
  then show ?thesis
  proof cases
    case 1
    with assms show ?thesis by (auto simp: trunc_def abs_if floor_unique ceiling_unique split: if_splits)
  next
    case 2
    then have "1 \<le> (of_int n :: rat)" by simp
    with assms have "0 \<le> z" "of_int n - 1 \<le> z" "z < of_int n + 1"
      by (auto simp: abs_if split: if_splits)
    then have "\<lfloor>z\<rfloor> = n \<or> \<lfloor>z\<rfloor> = n - 1" by linarith
    with 2 \<open>0 \<le> z\<close> show ?thesis by (auto simp: trunc_def)
  next
    case 3
    then have "(of_int n :: rat) \<le> - 1" by simp
    with assms have "z < 0" "of_int n - 1 < z" "z \<le> of_int n + 1"
      by (auto simp: abs_if split: if_splits)
    then have "\<lceil>z\<rceil> = n \<or> \<lceil>z\<rceil> = n + 1" by linarith
    with 3 \<open>z < 0\<close> show ?thesis by (auto simp: trunc_def)
  qed
qed

end
