(* ===== verification/Domain.thy ===== *)
theory Domain
  imports Text Floats
begin

text \<open>
  The error types of \<^verbatim>\<open>meshquill-core/src/error.rs\<close> and the domain types of
  \<^verbatim>\<open>meshquill-core/src/domain.rs\<close>, with their validating constructors and decoders. Fixed
  arrays \<^verbatim>\<open>[u8; N]\<close> are byte lists; their length is part of the well-formedness predicates at
  the end of the theory. Field names carry a prefix where two structs share a name. The
  \<^verbatim>\<open>Debug\<close> and \<^verbatim>\<open>serde\<close> implementations and the zeroizing destructors are not modelled.

  The crates \<^verbatim>\<open>hex\<close> and \<^verbatim>\<open>sha2\<close> are third-party code: their functions are the fields of the
  record \<open>externs\<close>, an argument of every definition that calls them.
\<close>

record externs =
  hex_encode :: "byte list \<Rightarrow> rstr"
  hex_decode :: "rstr \<Rightarrow> byte list option"
  sha256 :: "byte list \<Rightarrow> byte list"

section \<open>Errors\<close>

datatype packet_display = Raw byte

datatype parse_error =
    UnknownPacketCode byte
  | InvalidPacketLength packet_display nat nat \<comment> \<open>code, minimum, actual\<close>
  | OversizedPacketPayload nat nat \<comment> \<open>actual, maximum\<close>
  | InvalidUtf8Payload string
  | Malformed string

datatype io_kind =
    ConnectionAborted | ConnectionReset | BrokenPipe | IoNotConnected | UnexpectedEof
  | InvalidData | TimedOut | OtherKind

datatype io_error = IoError (io_kind: io_kind) (io_message: string)

datatype transport_error =
    Io io_error
  | NotConnected
  | ReconnectFailed string
  | ReconnectUnsupported
  | TransportTimeout
  | Backpressure string nat
  | PayloadTooLarge nat nat \<comment> \<open>maximum, actual\<close>
  | Closed

datatype core_error =
    Transport transport_error
  | Parse parse_error
  | Timeout
  | ProtocolInvariant string
  | DeviceRejected string "byte option"
  | FeatureDisabled string
  | AuthenticationFailed
  | InvalidArgument string string \<comment> \<open>field, message\<close>
  | InvalidUtf8 string
  | Disconnected
  | ActorStopped

type_synonym 'a parsed = "(parse_error, 'a) result"
type_synonym 'a outcome = "(core_error, 'a) result"

section \<open>Keys, paths, scopes\<close>

datatype public_key = PublicKey (key_bytes: "byte list")

definition public_key_try_from_bytes :: "byte list \<Rightarrow> public_key outcome" where
  "public_key_try_from_bytes bytes =
     (if length bytes = 32 then Ok (PublicKey bytes)
      else Err (ProtocolInvariant ''public key must be exactly 32 bytes''))"

definition public_key_from_hex :: "externs \<Rightarrow> rstr \<Rightarrow> public_key outcome" where
  "public_key_from_hex x hex =
     rbind (ok_or (hex_decode x hex) (ProtocolInvariant ''invalid public key hex''))
       (\<lambda>bytes. public_key_try_from_bytes bytes)"

definition public_key_to_hex :: "externs \<Rightarrow> public_key \<Rightarrow> rstr" where
  "public_key_to_hex x k = hex_encode x (key_bytes k)"

datatype private_key = PrivateKeyMaterial (expose_secret: "byte list")

definition private_key_try_from_bytes :: "byte list \<Rightarrow> private_key outcome" where
  "private_key_try_from_bytes bytes =
     (if length bytes = 64 then Ok (PrivateKeyMaterial bytes)
      else Err (ProtocolInvariant ''private key must be exactly 64 bytes''))"

datatype path = Path (path_bytes: "byte list")

definition PATH_MAX_BYTES :: nat where
  "PATH_MAX_BYTES = 128"

definition path_try_from_bytes :: "byte list \<Rightarrow> path outcome" where
  "path_try_from_bytes bytes =
     (if length bytes > PATH_MAX_BYTES then Err (ProtocolInvariant ''path exceeds maximum bytes'')
      else Ok (Path bytes))"

record scope =
  scope_name :: "rstr option"
  scope_key :: "byte list"

datatype flood_scope = FS_Default | FS_Unscoped | FS_Key "byte list"

datatype default_flood_scope = Unconfigured | Configured scope

datatype signature = Signature (signature_bytes: "byte list")

definition signature_try_from_bytes :: "byte list \<Rightarrow> signature outcome" where
  "signature_try_from_bytes bytes =
     (if length bytes \<noteq> 64 then Err (ProtocolInvariant ''signature must be exactly 64 bytes'')
      else Ok (Signature bytes))"

section \<open>Device data\<close>

record battery_info =
  bat_level :: u16
  used_kb :: "u32 option"
  total_kb :: "u32 option"

record radio_params =
  frequency_khz :: u32
  bandwidth_hz :: u32
  spreading_factor :: byte
  coding_rate :: byte
  repeat_flag :: "bool option"

record tuning_params =
  rx_delay :: u32
  airtime_factor :: u32

record custom_variable =
  cv_key :: rstr
  cv_value :: rstr

record custom_variables =
  cvs_raw :: "byte list"
  cvs_entries :: "custom_variable list"

datatype contact_route = Flood | RoutePath byte byte \<comment> \<open>hash mode, hop count\<close>

record advert_path =
  received_at :: u32
  ap_route :: contact_route
  ap_path :: path

datatype stats_type = ST_Core | ST_Radio | ST_Packets

record core_stats =
  cs_battery_mv :: u16
  cs_uptime_seconds :: u32
  cs_errors :: u16
  cs_queue_length :: byte

record radio_stats =
  rs_noise_floor :: i16
  rs_last_rssi :: i8
  rs_last_snr :: f32
  rs_tx_airtime_seconds :: u32
  rs_rx_airtime_seconds :: u32

record packet_stats =
  ps_recv :: u32
  ps_sent :: u32
  ps_flood_recv :: u32
  ps_flood_sent :: u32
  ps_direct_recv :: u32
  ps_direct_sent :: u32
  ps_recv_errors :: "u32 option"

datatype device_stats = DS_Core core_stats | DS_Radio radio_stats | DS_Packets packet_stats

record auto_add_config =
  aa_config :: byte
  max_hops :: "byte option"

record frequency_range =
  lower_khz :: u32
  upper_khz :: u32

record contact_uri =
  uri_text :: rstr
  card_bytes :: "byte list"

record channel_info =
  ci_idx :: byte
  ci_name :: rstr
  ci_secret_hash :: "byte option"
  ci_secret :: "byte list option"

definition with_secret :: "externs \<Rightarrow> byte \<Rightarrow> rstr \<Rightarrow> byte list option \<Rightarrow> channel_info" where
  "with_secret x i nm secret =
     \<lparr>ci_idx = i, ci_name = nm,
      ci_secret_hash =
        map_option (\<lambda>v. case get (sha256 x v) 0 of Some h \<Rightarrow> h | None \<Rightarrow> 0) secret,
      ci_secret = secret\<rparr>"

record command_tracking =
  ack_code :: "byte list"
  timeout_ms :: u32

record ack =
  a_code :: "byte list"
  trip_time_ms :: "u32 option"

section \<open>Remote responses\<close>

record login_session =
  permissions :: byte
  ls_pubkey_prefix :: "byte list"
  server_timestamp :: "u32 option"
  acl_permissions :: "byte option"
  firmware_version_level :: "byte option"

definition is_admin :: "login_session \<Rightarrow> bool" where
  "is_admin s \<longleftrightarrow> permissions s AND 1 = 1"

record remote_status =
  rst_pubkey_prefix :: "byte list"
  battery_mv :: u16
  tx_queue_length :: u16
  noise_floor :: i16
  last_rssi :: i16
  packets_received :: u32
  packets_sent :: u32
  tx_airtime_seconds :: u32
  uptime_seconds :: u32
  sent_flood :: u32
  sent_direct :: u32
  received_flood :: u32
  received_direct :: u32
  error_events :: u16
  last_snr :: f32
  direct_duplicates :: u16
  flood_duplicates :: u16
  rx_airtime_seconds :: u32
  receive_errors :: "u32 option"

record telemetry_response =
  tr_pubkey_prefix :: "byte list"
  tr_payload :: "byte list"

record binary_response =
  br_tag :: "byte list"
  br_payload :: "byte list"

record path_discovery =
  pd_pubkey_prefix :: "byte list"
  outbound_route :: contact_route
  outbound_path :: path
  inbound_route :: contact_route
  inbound_path :: path

record node_discovery =
  node_type :: byte
  inbound_snr_qdb :: i8
  nd_tag :: u32
  nd_public_key :: "byte list"

record control_data =
  snr_qdb :: i8
  rssi :: i8
  path_len :: byte
  cd_payload :: "byte list"

definition node_discovery_response :: "control_data \<Rightarrow> node_discovery option parsed" where
  "node_discovery_response d =
     (case get (cd_payload d) 0 of
        None \<Rightarrow> Err (InvalidPacketLength (Raw 0x8e) 1 0)
      | Some control_type \<Rightarrow>
          if control_type AND 0xf0 \<noteq> 0x90 then Ok None
          else if length (cd_payload d) < 14
          then Err (InvalidPacketLength (Raw 0x8e) 14 (length (cd_payload d)))
          else if length (cd_payload d) \<noteq> 14 \<and> length (cd_payload d) \<noteq> 38
          then Err (Malformed ''node-discovery response public key must be exactly 8 or 32 bytes'')
          else
            idx (cd_payload d) 2 (\<lambda>b2. idx (cd_payload d) 3 (\<lambda>b3.
            idx (cd_payload d) 4 (\<lambda>b4. idx (cd_payload d) 5 (\<lambda>b5.
              let tag = u32_from_le_bytes b2 b3 b4 b5 in
              if tag = 0 then Err (Malformed ''node-discovery response tag must be non-zero'')
              else
                idx (cd_payload d) 1 (\<lambda>b1.
                slice (cd_payload d) 6 (length (cd_payload d)) (\<lambda>key.
                  Ok (Some \<lparr>node_type = control_type AND 0x0f, inbound_snr_qdb = b1,
                            nd_tag = tag, nd_public_key = key\<rparr>))))))))"

section \<open>Contacts, sessions, messages\<close>

datatype contact_type = Chat | Repeater | Room | Sensor | UnknownContact byte

definition contact_type_from_u8 :: "byte \<Rightarrow> contact_type" where
  "contact_type_from_u8 b =
     (if b = 0 then Chat else if b = 1 then Repeater else if b = 2 then Room
      else if b = 3 then Sensor else UnknownContact b)"

record contact =
  c_public_key :: public_key
  c_type :: contact_type
  c_flags :: byte
  c_route :: contact_route
  c_out_path :: path
  c_adv_name :: rstr
  c_last_advert :: u32
  c_adv_lat :: f64
  c_adv_lon :: f64
  c_lastmod :: u32

record contact_snapshot =
  snapshot_contacts :: "contact list"
  snapshot_lastmod :: u32

record self_info =
  advertising_type :: byte
  tx_power :: byte
  max_tx_power :: byte
  si_public_key :: public_key
  si_adv_lat :: f64
  si_adv_lon :: f64
  multi_acks :: byte
  advert_loc_policy :: byte
  telemetry_mode_env :: byte
  telemetry_mode_loc :: byte
  telemetry_mode_base :: byte
  manual_add_contacts :: bool
  radio_frequency_mhz :: f64
  radio_bandwidth_khz :: f64
  radio_spreading_factor :: byte
  radio_coding_rate :: byte
  si_name :: rstr

record device_info =
  protocol_version :: byte
  max_contacts :: "u16 option"
  max_channels :: "byte option"
  ble_pin :: "u32 option"
  firmware_build :: "rstr option"
  di_model :: "rstr option"
  firmware_version :: "rstr option"
  repeat_enabled :: "bool option"
  path_hash_mode :: "byte option"

datatype message_status = Received | Queued | Sent "u32 option" | Acked | Failed rstr

datatype message_source = Direct rstr | Channel byte

datatype message_route = MR_Direct | MR_Path byte byte

record message =
  observation_id :: "u64 option"
  msg_source :: message_source
  msg_route :: message_route
  txt_type :: byte
  sender_timestamp :: u32
  msg_signature :: "byte list option"
  msg_text :: rstr
  msg_snr :: "f32 option"
  msg_status :: message_status

text \<open>
  \<^verbatim>\<open>delivery_fingerprint\<close> feeds the hasher in pieces; the digest is that of their concatenation.
\<close>

definition u64_to_le_bytes :: "u64 \<Rightarrow> byte list" where
  "u64_to_le_bytes w = map (\<lambda>i. ucast (drop_bit (8 * i) w)) [0, 1, 2, 3, 4, 5, 6, 7]"

definition fingerprint_input :: "message \<Rightarrow> byte list" where
  "fingerprint_input m =
     bytes_of ''meshquill-message-delivery-v1'' @ [0] @
     (case msg_source m of
        Direct prefix \<Rightarrow>
          [0] @ u64_to_le_bytes (if length prefix < 2 ^ 64 then of_nat (length prefix) else - 1) @ prefix
      | Channel i \<Rightarrow> [1, i]) @
     [txt_type m] @ u32_to_le_bytes (sender_timestamp m) @
     (case msg_signature m of Some sig \<Rightarrow> [1] @ sig | None \<Rightarrow> [0]) @
     msg_text m"

definition delivery_fingerprint :: "externs \<Rightarrow> message \<Rightarrow> byte list" where
  "delivery_fingerprint x m = sha256 x (fingerprint_input m)"

section \<open>Events\<close>

datatype (plugins only: code size) event =
    E_Connected
  | E_Disconnected
  | E_Contacts "contact list" u32
  | E_SelfInfo self_info
  | E_DeviceInfo device_info
  | E_Message message
  | E_ChannelInfo byte rstr "byte option"
  | E_Ack ack
  | E_MessageSent byte "byte list" u32
  | E_CurrentTime u32
  | E_Battery u16 "u32 option" "u32 option"
  | E_ContactUri contact_uri
  | E_TuningParams tuning_params
  | E_CustomVariables custom_variables
  | E_AdvertPath advert_path
  | E_DeviceStats device_stats
  | E_AutoAddConfig auto_add_config
  | E_AllowedRepeatFrequencies "frequency_range list"
  | E_DefaultFloodScope default_flood_scope
  | E_LoginSucceeded login_session
  | E_LoginFailed "byte list"
  | E_RemoteStatus remote_status
  | E_Telemetry telemetry_response
  | E_BinaryResponse binary_response
  | E_ControlData control_data
  | E_PathDiscovery path_discovery
  | E_Signature signature
  | E_InboxEmpty
  | E_MessagesWaiting
  | E_ProtocolError rstr
  | E_UnknownPacket byte "byte list"

section \<open>Well-formed values\<close>

text \<open>
  What the Rust types guarantee (array lengths, UTF-8 strings) together with what the
  constructors check (path length) and what a route descriptor says of the path beside it.
\<close>

definition path_wf :: "path \<Rightarrow> bool" where
  "path_wf p \<longleftrightarrow> length (path_bytes p) \<le> PATH_MAX_BYTES"

definition route_bytes :: "contact_route \<Rightarrow> nat" where
  "route_bytes r = (case r of Flood \<Rightarrow> 0 | RoutePath m h \<Rightarrow> unat h * (unat m + 1))"

definition route_wf :: "contact_route \<Rightarrow> path \<Rightarrow> bool" where
  "route_wf r p \<longleftrightarrow>
     path_wf p \<and> length (path_bytes p) = route_bytes r \<and>
     (case r of Flood \<Rightarrow> True | RoutePath m h \<Rightarrow> m \<le> 3 \<and> h \<le> 63)"

definition public_key_wf :: "public_key \<Rightarrow> bool" where
  "public_key_wf k \<longleftrightarrow> length (key_bytes k) = 32"

definition text_wf :: "nat \<Rightarrow> rstr \<Rightarrow> bool" where
  "text_wf n s \<longleftrightarrow> utf8 s \<and> 0 \<notin> set s \<and> length s \<le> n"

definition contact_wf :: "contact \<Rightarrow> bool" where
  "contact_wf c \<longleftrightarrow>
     public_key_wf (c_public_key c) \<and> route_wf (c_route c) (c_out_path c) \<and>
     text_wf 32 (c_adv_name c)"

definition message_wf :: "message \<Rightarrow> bool" where
  "message_wf m \<longleftrightarrow>
     utf8 (msg_text m) \<and> (\<forall>s. msg_signature m = Some s \<longrightarrow> length s = 4) \<and>
     (case msg_source m of Direct p \<Rightarrow> utf8 p | Channel _ \<Rightarrow> True) \<and> msg_status m = Received"

definition custom_variable_wf :: "custom_variable \<Rightarrow> bool" where
  "custom_variable_wf e \<longleftrightarrow>
     cv_key e \<noteq> [] \<and> cv_value e \<noteq> [] \<and> utf8 (cv_key e) \<and> utf8 (cv_value e) \<and>
     set (cv_key e) \<inter> {0, 0x2c, 0x3a} = {} \<and> set (cv_value e) \<inter> {0, 0x2c, 0x3a} = {}"

definition custom_variables_wf :: "custom_variables \<Rightarrow> bool" where
  "custom_variables_wf v \<longleftrightarrow>
     utf8 (cvs_raw v) \<and> length (cvs_raw v) \<le> 140 \<and> distinct (map cv_key (cvs_entries v)) \<and>
     list_all custom_variable_wf (cvs_entries v)"

end
