(* ===== verification/Codes.thy ===== *)
theory Codes
  imports Domain
begin

text \<open>
  The one-byte selectors of \<^verbatim>\<open>meshquill-core/src/protocol.rs\<close>: \<^verbatim>\<open>CommandCode\<close> and \<^verbatim>\<open>PacketCode\<close>
  with their conversions, and the byte form of \<^verbatim>\<open>ContactType\<close>. What the rest of the protocol
  needs of such an enumeration is the locale \<open>byte_enum\<close>: every byte is decoded, and encoding the
  result gives the byte back. (A value such as \<open>CC_Unknown 1\<close> is representable but is not
  the image of a byte, so the other composition is the identity on images only.)
\<close>

section \<open>The interface\<close>

locale byte_enum =
  fixes to_u8 :: "'c \<Rightarrow> byte" and from_u8 :: "byte \<Rightarrow> 'c"
  assumes to_from: "to_u8 (from_u8 b) = b"
begin

lemma from_inj: "from_u8 a = from_u8 b \<longleftrightarrow> a = b"
  by (metis to_from)

lemma to_surj: "\<exists>c. to_u8 c = b"
  using to_from by blast

lemma from_to_iff: "from_u8 (to_u8 c) = c \<longleftrightarrow> c \<in> range from_u8"
  by (metis rangeE rangeI to_from)

lemma to_inj_on_range: "c \<in> range from_u8 \<Longrightarrow> d \<in> range from_u8 \<Longrightarrow> to_u8 c = to_u8 d \<Longrightarrow> c = d"
  using from_to_iff by metis

end

section \<open>Command codes\<close>

datatype (plugins only: code size) command_code =
    CC_AppStart | CC_SendTxtMsg | CC_SendChannelTxtMsg | CC_GetContacts | CC_GetDeviceTime
    | CC_SetDeviceTime | CC_SendSelfAdvert | CC_SetAdvertName | CC_AddUpdateContact
    | CC_SyncNextMessage | CC_SetRadioParams | CC_SetTxPower | CC_ResetPath
    | CC_SetAdvertLatLon | CC_RemoveContact | CC_ShareContact | CC_ExportContact
    | CC_ImportContact | CC_Reboot | CC_GetBattAndStorage | CC_SetTuningParams | CC_DeviceQuery
    | CC_ExportPrivateKey | CC_ImportPrivateKey | CC_SendRawData | CC_SendLogin
    | CC_SendStatusReq | CC_HasConnection | CC_Logout | CC_GetContactByKey | CC_GetChannel
    | CC_SetChannel | CC_SignStart | CC_SignData | CC_SignFinish | CC_SendTracePath
    | CC_SetDevicePin | CC_SetOtherParams | CC_SendTelemetryReq | CC_GetCustomVars
    | CC_SetCustomVar | CC_GetAdvertPath | CC_GetTuningParams | CC_BinaryReq | CC_FactoryReset
    | CC_PathDiscovery | CC_SetFloodScope | CC_SendControlData | CC_GetStats | CC_SendAnonReq
    | CC_SetAutoAddConfig | CC_GetAutoAddConfig | CC_GetAllowedRepeatFreq | CC_SetPathHashMode
    | CC_SendChannelData | CC_SetDefaultFloodScope | CC_GetDefaultFloodScope | CC_Unknown byte

fun command_code_to_u8 :: "command_code \<Rightarrow> byte" where
  "command_code_to_u8 CC_AppStart = 0x01"
| "command_code_to_u8 CC_SendTxtMsg = 0x02"
| "command_code_to_u8 CC_SendChannelTxtMsg = 0x03"
| "command_code_to_u8 CC_GetContacts = 0x04"
| "command_code_to_u8 CC_GetDeviceTime = 0x05"
| "command_code_to_u8 CC_SetDeviceTime = 0x06"
| "command_code_to_u8 CC_SendSelfAdvert = 0x07"
| "command_code_to_u8 CC_SetAdvertName = 0x08"
| "command_code_to_u8 CC_AddUpdateContact = 0x09"
| "command_code_to_u8 CC_SyncNextMessage = 0x0a"
| "command_code_to_u8 CC_SetRadioParams = 0x0b"
| "command_code_to_u8 CC_SetTxPower = 0x0c"
| "command_code_to_u8 CC_ResetPath = 0x0d"
| "command_code_to_u8 CC_SetAdvertLatLon = 0x0e"
| "command_code_to_u8 CC_RemoveContact = 0x0f"
| "command_code_to_u8 CC_ShareContact = 0x10"
| "command_code_to_u8 CC_ExportContact = 0x11"
| "command_code_to_u8 CC_ImportContact = 0x12"
| "command_code_to_u8 CC_Reboot = 0x13"
| "command_code_to_u8 CC_GetBattAndStorage = 0x14"
| "command_code_to_u8 CC_SetTuningParams = 0x15"
| "command_code_to_u8 CC_DeviceQuery = 0x16"
| "command_code_to_u8 CC_ExportPrivateKey = 0x17"
| "command_code_to_u8 CC_ImportPrivateKey = 0x18"
| "command_code_to_u8 CC_SendRawData = 0x19"
| "command_code_to_u8 CC_SendLogin = 0x1a"
| "command_code_to_u8 CC_SendStatusReq = 0x1b"
| "command_code_to_u8 CC_HasConnection = 0x1c"
| "command_code_to_u8 CC_Logout = 0x1d"
| "command_code_to_u8 CC_GetContactByKey = 0x1e"
| "command_code_to_u8 CC_GetChannel = 0x1f"
| "command_code_to_u8 CC_SetChannel = 0x20"
| "command_code_to_u8 CC_SignStart = 0x21"
| "command_code_to_u8 CC_SignData = 0x22"
| "command_code_to_u8 CC_SignFinish = 0x23"
| "command_code_to_u8 CC_SendTracePath = 0x24"
| "command_code_to_u8 CC_SetDevicePin = 0x25"
| "command_code_to_u8 CC_SetOtherParams = 0x26"
| "command_code_to_u8 CC_SendTelemetryReq = 0x27"
| "command_code_to_u8 CC_GetCustomVars = 0x28"
| "command_code_to_u8 CC_SetCustomVar = 0x29"
| "command_code_to_u8 CC_GetAdvertPath = 0x2a"
| "command_code_to_u8 CC_GetTuningParams = 0x2b"
| "command_code_to_u8 CC_BinaryReq = 0x32"
| "command_code_to_u8 CC_FactoryReset = 0x33"
| "command_code_to_u8 CC_PathDiscovery = 0x34"
| "command_code_to_u8 CC_SetFloodScope = 0x36"
| "command_code_to_u8 CC_SendControlData = 0x37"
| "command_code_to_u8 CC_GetStats = 0x38"
| "command_code_to_u8 CC_SendAnonReq = 0x39"
| "command_code_to_u8 CC_SetAutoAddConfig = 0x3a"
| "command_code_to_u8 CC_GetAutoAddConfig = 0x3b"
| "command_code_to_u8 CC_GetAllowedRepeatFreq = 0x3c"
| "command_code_to_u8 CC_SetPathHashMode = 0x3d"
| "command_code_to_u8 CC_SendChannelData = 0x3e"
| "command_code_to_u8 CC_SetDefaultFloodScope = 0x3f"
| "command_code_to_u8 CC_GetDefaultFloodScope = 0x40"
| "command_code_to_u8 (CC_Unknown b) = b"

definition command_code_from_u8 :: "byte \<Rightarrow> command_code" where
  "command_code_from_u8 b =
     (if b = 0x01 then CC_AppStart
      else if b = 0x02 then CC_SendTxtMsg
      else if b = 0x03 then CC_SendChannelTxtMsg
      else if b = 0x04 then CC_GetContacts
      else if b = 0x05 then CC_GetDeviceTime
      else if b = 0x06 then CC_SetDeviceTime
      else if b = 0x07 then CC_SendSelfAdvert
      else if b = 0x08 then CC_SetAdvertName
      else if b = 0x09 then CC_AddUpdateContact
      else if b = 0x0a then CC_SyncNextMessage
      else if b = 0x0b then CC_SetRadioParams
      else if b = 0x0c then CC_SetTxPower
      else if b = 0x0d then CC_ResetPath
      else if b = 0x0e then CC_SetAdvertLatLon
      else if b = 0x0f then CC_RemoveContact
      else if b = 0x10 then CC_ShareContact
      else if b = 0x11 then CC_ExportContact
      else if b = 0x12 then CC_ImportContact
      else if b = 0x13 then CC_Reboot
      else if b = 0x14 then CC_GetBattAndStorage
      else if b = 0x15 then CC_SetTuningParams
      else if b = 0x16 then CC_DeviceQuery
      else if b = 0x17 then CC_ExportPrivateKey
      else if b = 0x18 then CC_ImportPrivateKey
      else if b = 0x19 then CC_SendRawData
      else if b = 0x1a then CC_SendLogin
      else if b = 0x1b then CC_SendStatusReq
      else if b = 0x1c then CC_HasConnection
      else if b = 0x1d then CC_Logout
      else if b = 0x1e then CC_GetContactByKey
      else if b = 0x1f then CC_GetChannel
      else if b = 0x20 then CC_SetChannel
      else if b = 0x21 then CC_SignStart
      else if b = 0x22 then CC_SignData
      else if b = 0x23 then CC_SignFinish
      else if b = 0x24 then CC_SendTracePath
      else if b = 0x25 then CC_SetDevicePin
      else if b = 0x26 then CC_SetOtherParams
      else if b = 0x27 then CC_SendTelemetryReq
      else if b = 0x28 then CC_GetCustomVars
      else if b = 0x29 then CC_SetCustomVar
      else if b = 0x2a then CC_GetAdvertPath
      else if b = 0x2b then CC_GetTuningParams
      else if b = 0x32 then CC_BinaryReq
      else if b = 0x33 then CC_FactoryReset
      else if b = 0x34 then CC_PathDiscovery
      else if b = 0x36 then CC_SetFloodScope
      else if b = 0x37 then CC_SendControlData
      else if b = 0x38 then CC_GetStats
      else if b = 0x39 then CC_SendAnonReq
      else if b = 0x3a then CC_SetAutoAddConfig
      else if b = 0x3b then CC_GetAutoAddConfig
      else if b = 0x3c then CC_GetAllowedRepeatFreq
      else if b = 0x3d then CC_SetPathHashMode
      else if b = 0x3e then CC_SendChannelData
      else if b = 0x3f then CC_SetDefaultFloodScope
      else if b = 0x40 then CC_GetDefaultFloodScope
      else CC_Unknown b)"

interpretation command_codes: byte_enum command_code_to_u8 command_code_from_u8
  by unfold_locales (simp add: command_code_from_u8_def)

text \<open>\<^verbatim>\<open>TryFrom<u8>\<close> never fails.\<close>

definition command_code_try_from :: "byte \<Rightarrow> command_code parsed" where
  "command_code_try_from b = Ok (command_code_from_u8 b)"

section \<open>Packet codes\<close>

datatype (plugins only: code size) packet_code =
    PC_Ok | PC_Error | PC_ContactStart | PC_Contact | PC_ContactEnd | PC_SelfInfo | PC_MsgSent
    | PC_ContactMsgRecv | PC_ChannelMsgRecv | PC_CurrentTime | PC_NoMoreMsgs | PC_ContactUri
    | PC_Battery | PC_DeviceInfo | PC_PrivateKey | PC_Disabled | PC_ContactMsgRecvV3
    | PC_ChannelMsgRecvV3 | PC_ChannelInfo | PC_SignStart | PC_Signature | PC_CustomVars
    | PC_AdvertPath | PC_TuningParams | PC_Stats | PC_AutoaddConfig | PC_AllowedRepeatFreq
    | PC_ChannelDataRecv | PC_DefaultFloodScope | PC_Advertisement | PC_PathUpdate | PC_Ack
    | PC_MessagesWaiting | PC_RawData | PC_LoginSuccess | PC_LoginFailed | PC_StatusResponse
    | PC_LogData | PC_TraceData | PC_NewAdvert | PC_TelemetryResponse | PC_BinaryResponse
    | PC_PathDiscoveryResponse | PC_ControlData | PC_ContactDeleted | PC_ContactsFull
    | PC_Unknown byte

fun packet_code_to_u8 :: "packet_code \<Rightarrow> byte" where
  "packet_code_to_u8 PC_Ok = 0x00"
| "packet_code_to_u8 PC_Error = 0x01"
| "packet_code_to_u8 PC_ContactStart = 0x02"
| "packet_code_to_u8 PC_Contact = 0x03"
| "packet_code_to_u8 PC_ContactEnd = 0x04"
| "packet_code_to_u8 PC_SelfInfo = 0x05"
| "packet_code_to_u8 PC_MsgSent = 0x06"
| "packet_code_to_u8 PC_ContactMsgRecv = 0x07"
| "packet_code_to_u8 PC_ChannelMsgRecv = 0x08"
| "packet_code_to_u8 PC_CurrentTime = 0x09"
| "packet_code_to_u8 PC_NoMoreMsgs = 0x0a"
| "packet_code_to_u8 PC_ContactUri = 0x0b"
| "packet_code_to_u8 PC_Battery = 0x0c"
| "packet_code_to_u8 PC_DeviceInfo = 0x0d"
| "packet_code_to_u8 PC_PrivateKey = 0x0e"
| "packet_code_to_u8 PC_Disabled = 0x0f"
| "packet_code_to_u8 PC_ContactMsgRecvV3 = 0x10"
| "packet_code_to_u8 PC_ChannelMsgRecvV3 = 0x11"
| "packet_code_to_u8 PC_ChannelInfo = 0x12"
| "packet_code_to_u8 PC_SignStart = 0x13"
| "packet_code_to_u8 PC_Signature = 0x14"
| "packet_code_to_u8 PC_CustomVars = 0x15"
| "packet_code_to_u8 PC_AdvertPath = 0x16"
| "packet_code_to_u8 PC_TuningParams = 0x17"
| "packet_code_to_u8 PC_Stats = 0x18"
| "packet_code_to_u8 PC_AutoaddConfig = 0x19"
| "packet_code_to_u8 PC_AllowedRepeatFreq = 0x1a"
| "packet_code_to_u8 PC_ChannelDataRecv = 0x1b"
| "packet_code_to_u8 PC_DefaultFloodScope = 0x1c"
| "packet_code_to_u8 PC_Advertisement = 0x80"
| "packet_code_to_u8 PC_PathUpdate = 0x81"
| "packet_code_to_u8 PC_Ack = 0x82"
| "packet_code_to_u8 PC_MessagesWaiting = 0x83"
| "packet_code_to_u8 PC_RawData = 0x84"
| "packet_code_to_u8 PC_LoginSuccess = 0x85"
| "packet_code_to_u8 PC_LoginFailed = 0x86"
| "packet_code_to_u8 PC_StatusResponse = 0x87"
| "packet_code_to_u8 PC_LogData = 0x88"
| "packet_code_to_u8 PC_TraceData = 0x89"
| "packet_code_to_u8 PC_NewAdvert = 0x8a"
| "packet_code_to_u8 PC_TelemetryResponse = 0x8b"
| "packet_code_to_u8 PC_BinaryResponse = 0x8c"
| "packet_code_to_u8 PC_PathDiscoveryResponse = 0x8d"
| "packet_code_to_u8 PC_ControlData = 0x8e"
| "packet_code_to_u8 PC_ContactDeleted = 0x8f"
| "packet_code_to_u8 PC_ContactsFull = 0x90"
| "packet_code_to_u8 (PC_Unknown b) = b"

definition packet_code_from_u8 :: "byte \<Rightarrow> packet_code" where
  "packet_code_from_u8 b =
     (if b = 0x00 then PC_Ok
      else if b = 0x01 then PC_Error
      else if b = 0x02 then PC_ContactStart
      else if b = 0x03 then PC_Contact
      else if b = 0x04 then PC_ContactEnd
      else if b = 0x05 then PC_SelfInfo
      else if b = 0x06 then PC_MsgSent
      else if b = 0x07 then PC_ContactMsgRecv
      else if b = 0x08 then PC_ChannelMsgRecv
      else if b = 0x09 then PC_CurrentTime
      else if b = 0x0a then PC_NoMoreMsgs
      else if b = 0x0b then PC_ContactUri
      else if b = 0x0c then PC_Battery
      else if b = 0x0d then PC_DeviceInfo
      else if b = 0x0e then PC_PrivateKey
      else if b = 0x0f then PC_Disabled
      else if b = 0x10 then PC_ContactMsgRecvV3
      else if b = 0x11 then PC_ChannelMsgRecvV3
      else if b = 0x12 then PC_ChannelInfo
      else if b = 0x13 then PC_SignStart
      else if b = 0x14 then PC_Signature
      else if b = 0x15 then PC_CustomVars
      else if b = 0x16 then PC_AdvertPath
      else if b = 0x17 then PC_TuningParams
      else if b = 0x18 then PC_Stats
      else if b = 0x19 then PC_AutoaddConfig
      else if b = 0x1a then PC_AllowedRepeatFreq
      else if b = 0x1b then PC_ChannelDataRecv
      else if b = 0x1c then PC_DefaultFloodScope
      else if b = 0x80 then PC_Advertisement
      else if b = 0x81 then PC_PathUpdate
      else if b = 0x82 then PC_Ack
      else if b = 0x83 then PC_MessagesWaiting
      else if b = 0x84 then PC_RawData
      else if b = 0x85 then PC_LoginSuccess
      else if b = 0x86 then PC_LoginFailed
      else if b = 0x87 then PC_StatusResponse
      else if b = 0x88 then PC_LogData
      else if b = 0x89 then PC_TraceData
      else if b = 0x8a then PC_NewAdvert
      else if b = 0x8b then PC_TelemetryResponse
      else if b = 0x8c then PC_BinaryResponse
      else if b = 0x8d then PC_PathDiscoveryResponse
      else if b = 0x8e then PC_ControlData
      else if b = 0x8f then PC_ContactDeleted
      else if b = 0x90 then PC_ContactsFull
      else PC_Unknown b)"

interpretation packet_codes: byte_enum packet_code_to_u8 packet_code_from_u8
  by unfold_locales (simp add: packet_code_from_u8_def)

section \<open>Contact types\<close>

fun contact_type_to_u8 :: "contact_type \<Rightarrow> byte" where
  "contact_type_to_u8 Chat = 0"
| "contact_type_to_u8 Repeater = 1"
| "contact_type_to_u8 Room = 2"
| "contact_type_to_u8 Sensor = 3"
| "contact_type_to_u8 (UnknownContact b) = b"

interpretation contact_types: byte_enum contact_type_to_u8 contact_type_from_u8
  by unfold_locales (simp add: contact_type_from_u8_def)

end
