(* ===== verification/Command.thy ===== *)
theory Command
  imports Codes
begin

text \<open>
  \<^verbatim>\<open>Command\<close> of \<^verbatim>\<open>meshquill-core/src/protocol.rs\<close>: the outbound packet, its encoding and one
  definition per constructor, in source order (\<open>cmd_x\<close> is \<^verbatim>\<open>Command::x\<close>), with the validation
  helpers they share. The constructors that take a fixed array panic in no other case than an
  array of the wrong length, which the Rust type rules out.
\<close>

section \<open>Packets\<close>

definition MAX_INNER_PAYLOAD :: nat where
  "MAX_INNER_PAYLOAD = 176"

record command =
  cmd_code :: command_code
  cmd_payload :: "byte list"

definition encode :: "command \<Rightarrow> byte list" where
  "encode c = command_code_to_u8 (cmd_code c) # cmd_payload c"

definition into_encoded :: "command \<Rightarrow> byte list" where
  "into_encoded c = [command_code_to_u8 (cmd_code c)] @ cmd_payload c"

section \<open>Helpers\<close>

definition invalid_argument :: "string \<Rightarrow> string \<Rightarrow> core_error" where
  "invalid_argument field message = InvalidArgument field message"

definition without_payload :: "command_code \<Rightarrow> command" where
  "without_payload code = \<lparr>cmd_code = code, cmd_payload = []\<rparr>"

definition checked :: "command_code \<Rightarrow> byte list \<Rightarrow> command outcome" where
  "checked code payload =
     (let total = length payload + 1
      in if total > MAX_INNER_PAYLOAD
         then Err (invalid_argument ''payload''
                (''encoded packet is '' @ show_nat total @ '' bytes; maximum is '' @
                 show_nat MAX_INNER_PAYLOAD))
         else Ok \<lparr>cmd_code = code, cmd_payload = payload\<rparr>)"

definition command_with_key :: "command_code \<Rightarrow> byte list \<Rightarrow> byte list \<Rightarrow> command outcome" where
  "command_with_key code public_key prefix =
     (if length public_key \<noteq> 32
      then Err (invalid_argument ''public_key''
             (''expected exactly 32 bytes, got '' @ show_nat (length public_key)))
      else checked code (prefix @ public_key))"

definition command_with_key_suffix :: "command_code \<Rightarrow> byte list \<Rightarrow> byte list \<Rightarrow> command outcome" where
  "command_with_key_suffix code public_key suffix =
     (if length public_key \<noteq> 32
      then Err (invalid_argument ''public_key''
             (''expected exactly 32 bytes, got '' @ show_nat (length public_key)))
      else checked code (public_key @ suffix))"

definition encode_contact_route :: "contact_route \<Rightarrow> path \<Rightarrow> byte outcome" where
  "encode_contact_route route path =
     (case route of
        Flood \<Rightarrow>
          if path_bytes path \<noteq> []
          then Err (invalid_argument ''path'' ''a flood route must not contain path bytes'')
          else Ok 0xff
      | RoutePath hash_mode hop_count \<Rightarrow>
          if hash_mode > 2 \<or> hop_count > 63
          then Err (invalid_argument ''route'' ''hash mode must be at most 2 and hop count at most 63'')
          else
            let expected = unat hop_count * (unat hash_mode + 1) in
            if length (path_bytes path) \<noteq> expected
            then Err (invalid_argument ''path''
                   (''route descriptor requires '' @ show_nat expected @ '' bytes, got '' @
                    show_nat (length (path_bytes path))))
            else if expected > 64
            then Err (invalid_argument ''path'' ''contact paths are limited to 64 bytes'')
            else Ok (push_bit 6 hash_mode OR hop_count))"

definition validate_text_field :: "rstr \<Rightarrow> nat \<Rightarrow> string \<Rightarrow> unit outcome" where
  "validate_text_field value maximum_bytes field =
     (if value = [] then Err (invalid_argument field ''must not be empty'')
      else if length value > maximum_bytes
      then Err (invalid_argument field
             (''UTF-8 value is '' @ show_nat (length value) @ '' bytes; maximum is '' @
              show_nat maximum_bytes))
      else Ok ())"

definition validate_custom_component :: "rstr \<Rightarrow> string \<Rightarrow> unit outcome" where
  "validate_custom_component value field =
     rbind (validate_text_field value (MAX_INNER_PAYLOAD - 2) field) (\<lambda>_.
       if list_ex (\<lambda>byte. byte = 0 \<or> byte = 0x3a \<or> byte = 0x2c) value
       then Err (invalid_argument field ''must not contain NUL, ':' or ',' wire separators'')
       else Ok ())"

definition validate_range :: "'a::len word \<Rightarrow> 'a word \<Rightarrow> 'a word \<Rightarrow> string \<Rightarrow> unit outcome" where
  "validate_range value minimum maximum field =
     (if value < minimum \<or> value > maximum
      then Err (invalid_argument field
             (''must be between '' @ show_nat (unat minimum) @ '' and '' @
              show_nat (unat maximum) @ '', got '' @ show_nat (unat value)))
      else Ok ())"

text \<open>The bounds passed by the callers are whole degrees, so they are integers here.\<close>

definition scaled_coordinate :: "f64 \<Rightarrow> int \<Rightarrow> int \<Rightarrow> string \<Rightarrow> i32 outcome" where
  "scaled_coordinate value minimum maximum field =
     (if \<not> is_finite value \<or> flt_less value (Finite (of_int minimum)) \<or>
         flt_less (Finite (of_int maximum)) value
      then Err (invalid_argument field
             (''must be finite and between '' @ show_int minimum @ '' and '' @ show_int maximum))
      else Ok (as_i32 (flt_mul 53 value (Finite 1000000))))"

text \<open>
  \<^verbatim>\<open>Vec::resize(n, 0)\<close> and \<^verbatim>\<open>dst[a..b].copy_from_slice(src)\<close>; the latter panics unless the range is
  inside \<open>dst\<close> and as long as \<open>src\<close>.
\<close>

definition resize :: "nat \<Rightarrow> byte list \<Rightarrow> byte list" where
  "resize n xs = take n xs @ replicate (n - length xs) 0"

definition copy_from_slice ::
    "byte list \<Rightarrow> nat \<Rightarrow> nat \<Rightarrow> byte list \<Rightarrow> (byte list \<Rightarrow> ('e, 'b) result) \<Rightarrow> ('e, 'b) result" where
  "copy_from_slice dst a b src k =
     (if a \<le> b \<and> b \<le> length dst \<and> length src = b - a then k (take a dst @ src @ drop b dst) else Panic)"

lemma copy_from_slice_in [simp, reads]:
  "a \<le> b \<Longrightarrow> b \<le> length dst \<Longrightarrow> length src = b - a \<Longrightarrow>
   copy_from_slice dst a b src k = k (take a dst @ src @ drop b dst)"
  by (simp add: copy_from_slice_def)

section \<open>Constructors\<close>

definition cmd_app_start :: command where
  "cmd_app_start = \<lparr>cmd_code = CC_AppStart, cmd_payload = 3 # bytes_of ''      mccli''\<rparr>"

definition cmd_device_query :: command where
  "cmd_device_query = \<lparr>cmd_code = CC_DeviceQuery, cmd_payload = [3]\<rparr>"

definition cmd_get_contacts :: "u32 option \<Rightarrow> command" where
  "cmd_get_contacts lastmod =
     \<lparr>cmd_code = CC_GetContacts,
      cmd_payload = (case lastmod of Some v \<Rightarrow> u32_to_le_bytes v | None \<Rightarrow> [])\<rparr>"

definition cmd_sync_next_message :: command where
  "cmd_sync_next_message = \<lparr>cmd_code = CC_SyncNextMessage, cmd_payload = []\<rparr>"

definition cmd_get_time :: command where
  "cmd_get_time = \<lparr>cmd_code = CC_GetDeviceTime, cmd_payload = []\<rparr>"

definition cmd_set_time :: "u32 \<Rightarrow> command" where
  "cmd_set_time value = \<lparr>cmd_code = CC_SetDeviceTime, cmd_payload = u32_to_le_bytes value\<rparr>"

definition cmd_get_battery :: command where
  "cmd_get_battery = without_payload CC_GetBattAndStorage"

definition cmd_send_self_advert :: "bool \<Rightarrow> command" where
  "cmd_send_self_advert flood =
     \<lparr>cmd_code = CC_SendSelfAdvert, cmd_payload = (if flood then [1] else [])\<rparr>"

definition cmd_set_advert_name :: "rstr \<Rightarrow> command outcome" where
  "cmd_set_advert_name name =
     rbind (validate_text_field name 31 ''name'') (\<lambda>_.
     if 0 \<in> set name then Err (invalid_argument ''name'' ''must not contain a NUL byte'')
     else checked CC_SetAdvertName name)"

definition cmd_set_coordinates :: "f64 \<Rightarrow> f64 \<Rightarrow> command outcome" where
  "cmd_set_coordinates latitude longitude =
     rbind (scaled_coordinate latitude (- 90) 90 ''latitude'') (\<lambda>latitude.
     rbind (scaled_coordinate longitude (- 180) 180 ''longitude'') (\<lambda>longitude.
     checked CC_SetAdvertLatLon
       (u32_to_le_bytes latitude @ u32_to_le_bytes longitude @ u32_to_le_bytes 0)))"

definition cmd_set_tx_power :: "i8 \<Rightarrow> command outcome" where
  "cmd_set_tx_power power_dbm =
     (if sint power_dbm < - 9
      then Err (invalid_argument ''power_dbm'' ''must be at least -9 dBm'')
      else checked CC_SetTxPower [power_dbm])"

definition cmd_set_radio_params :: "radio_params \<Rightarrow> command outcome" where
  "cmd_set_radio_params params =
     rbind (validate_range (frequency_khz params) 150000 2500000 ''frequency_khz'') (\<lambda>_.
     rbind (validate_range (bandwidth_hz params) 7000 500000 ''bandwidth_hz'') (\<lambda>_.
     rbind (validate_range (spreading_factor params) 5 12 ''spreading_factor'') (\<lambda>_.
     rbind (validate_range (coding_rate params) 5 8 ''coding_rate'') (\<lambda>_.
     checked CC_SetRadioParams
       (u32_to_le_bytes (frequency_khz params) @ u32_to_le_bytes (bandwidth_hz params) @
        [spreading_factor params] @ [coding_rate params] @
        (case repeat_flag params of Some r \<Rightarrow> [of_bool r] | None \<Rightarrow> []))))))"

definition cmd_set_tuning :: "tuning_params \<Rightarrow> command" where
  "cmd_set_tuning params =
     \<lparr>cmd_code = CC_SetTuningParams,
      cmd_payload = u32_to_le_bytes (rx_delay params) @ u32_to_le_bytes (airtime_factor params) @ [0, 0]\<rparr>"

definition cmd_get_tuning :: command where
  "cmd_get_tuning = without_payload CC_GetTuningParams"

definition cmd_reset_path :: "byte list \<Rightarrow> command outcome" where
  "cmd_reset_path public_key = command_with_key CC_ResetPath public_key []"

definition cmd_update_contact :: "contact \<Rightarrow> command outcome" where
  "cmd_update_contact contact =
     rbind (validate_text_field (c_adv_name contact) 31 ''name'') (\<lambda>_.
     if 0 \<in> set (c_adv_name contact)
     then Err (invalid_argument ''name'' ''must not contain a NUL byte'')
     else
       rbind (encode_contact_route (c_route contact) (c_out_path contact)) (\<lambda>descriptor.
       rbind (scaled_coordinate (c_adv_lat contact) (- 90) 90 ''latitude'') (\<lambda>latitude.
       rbind (scaled_coordinate (c_adv_lon contact) (- 180) 180 ''longitude'') (\<lambda>longitude.
         let payload = key_bytes (c_public_key contact) @ [contact_type_to_u8 (c_type contact)] @
               [c_flags contact] @ [descriptor] @ path_bytes (c_out_path contact);
             payload = resize (32 + 1 + 1 + 1 + 64) payload;
             payload = payload @ c_adv_name contact;
             payload = resize (32 + 1 + 1 + 1 + 64 + 32) payload
         in checked CC_AddUpdateContact
              (payload @ u32_to_le_bytes (c_last_advert contact) @
               u32_to_le_bytes latitude @ u32_to_le_bytes longitude)))))"

definition cmd_remove_contact :: "byte list \<Rightarrow> command outcome" where
  "cmd_remove_contact public_key = command_with_key CC_RemoveContact public_key []"

definition cmd_share_contact :: "byte list \<Rightarrow> command outcome" where
  "cmd_share_contact public_key = command_with_key CC_ShareContact public_key []"

definition cmd_export_contact :: "byte list option \<Rightarrow> command outcome" where
  "cmd_export_contact public_key =
     (case public_key of
        Some k \<Rightarrow> command_with_key CC_ExportContact k []
      | None \<Rightarrow> Ok (without_payload CC_ExportContact))"

definition cmd_import_contact :: "byte list \<Rightarrow> command outcome" where
  "cmd_import_contact card_data =
     (if length card_data < 98
      then Err (invalid_argument ''card'' (''must contain at least '' @ show_nat 98 @ '' bytes''))
      else checked CC_ImportContact card_data)"

definition cmd_get_contact :: "byte list \<Rightarrow> command outcome" where
  "cmd_get_contact public_key = command_with_key CC_GetContactByKey public_key []"

definition cmd_get_advert_path :: "byte list \<Rightarrow> command outcome" where
  "cmd_get_advert_path public_key = command_with_key CC_GetAdvertPath public_key [0]"

definition cmd_set_auto_add_config :: "auto_add_config \<Rightarrow> command outcome" where
  "cmd_set_auto_add_config config =
     (if (case max_hops config of Some h \<Rightarrow> h > 64 | None \<Rightarrow> False)
      then Err (invalid_argument ''max_hops'' ''must be at most 64'')
      else checked CC_SetAutoAddConfig
             ([aa_config config] @ (case max_hops config of Some h \<Rightarrow> [h] | None \<Rightarrow> [])))"

definition cmd_get_auto_add_config :: command where
  "cmd_get_auto_add_config = without_payload CC_GetAutoAddConfig"

definition cmd_get_custom_vars :: command where
  "cmd_get_custom_vars = without_payload CC_GetCustomVars"

definition cmd_set_custom_var :: "rstr \<Rightarrow> rstr \<Rightarrow> command outcome" where
  "cmd_set_custom_var key value =
     rbind (validate_custom_component key ''key'') (\<lambda>_.
     rbind (validate_custom_component value ''value'') (\<lambda>_.
     checked CC_SetCustomVar (key @ [0x3a] @ value)))"

definition cmd_get_stats :: "stats_type \<Rightarrow> command" where
  "cmd_get_stats stats_type =
     \<lparr>cmd_code = CC_GetStats,
      cmd_payload = [case stats_type of ST_Core \<Rightarrow> 0 | ST_Radio \<Rightarrow> 1 | ST_Packets \<Rightarrow> 2]\<rparr>"

definition cmd_get_allowed_repeat_frequencies :: command where
  "cmd_get_allowed_repeat_frequencies = without_payload CC_GetAllowedRepeatFreq"

definition cmd_set_path_hash_mode :: "byte \<Rightarrow> command outcome" where
  "cmd_set_path_hash_mode mode =
     (if mode > 2 then Err (invalid_argument ''mode'' ''must be 0, 1, or 2'')
      else checked CC_SetPathHashMode [0, mode])"

definition cmd_set_flood_scope :: "flood_scope \<Rightarrow> command" where
  "cmd_set_flood_scope scope =
     \<lparr>cmd_code = CC_SetFloodScope,
      cmd_payload =
        (case scope of FS_Default \<Rightarrow> [0] | FS_Unscoped \<Rightarrow> [1] | FS_Key key \<Rightarrow> [0] @ key)\<rparr>"

definition cmd_set_default_flood_scope :: "rstr \<Rightarrow> byte list \<Rightarrow> command outcome" where
  "cmd_set_default_flood_scope name key =
     rbind (validate_text_field name 30 ''name'') (\<lambda>_.
     if 0 \<in> set name then Err (invalid_argument ''name'' ''must not contain a NUL byte'')
     else
       copy_from_slice (replicate (31 + 16) 0) 0 (length name) name (\<lambda>payload.
       copy_from_slice payload 31 (length payload) key (\<lambda>payload.
       checked CC_SetDefaultFloodScope payload)))"

definition cmd_clear_default_flood_scope :: command where
  "cmd_clear_default_flood_scope = without_payload CC_SetDefaultFloodScope"

definition cmd_get_default_flood_scope :: command where
  "cmd_get_default_flood_scope = without_payload CC_GetDefaultFloodScope"

definition cmd_send_direct_text :: "byte list \<Rightarrow> u32 \<Rightarrow> byte \<Rightarrow> rstr \<Rightarrow> command" where
  "cmd_send_direct_text destination_prefix timestamp attempt text_bytes =
     \<lparr>cmd_code = CC_SendTxtMsg,
      cmd_payload = [0] @ [attempt] @ u32_to_le_bytes timestamp @ destination_prefix @ text_bytes\<rparr>"

definition cmd_send_direct_command :: "byte list \<Rightarrow> u32 \<Rightarrow> byte \<Rightarrow> rstr \<Rightarrow> command" where
  "cmd_send_direct_command destination_prefix timestamp attempt command_bytes =
     \<lparr>cmd_code = CC_SendTxtMsg,
      cmd_payload = [1] @ [attempt] @ u32_to_le_bytes timestamp @ destination_prefix @ command_bytes\<rparr>"

definition cmd_send_channel :: "byte \<Rightarrow> byte \<Rightarrow> u32 \<Rightarrow> rstr \<Rightarrow> command" where
  "cmd_send_channel chan text_type timestamp text_bytes =
     \<lparr>cmd_code = CC_SendChannelTxtMsg,
      cmd_payload = [text_type] @ [chan] @ u32_to_le_bytes timestamp @ text_bytes\<rparr>"

definition cmd_get_channel :: "byte \<Rightarrow> command" where
  "cmd_get_channel i = \<lparr>cmd_code = CC_GetChannel, cmd_payload = [i]\<rparr>"

definition cmd_set_channel :: "byte \<Rightarrow> rstr \<Rightarrow> byte list \<Rightarrow> command outcome" where
  "cmd_set_channel i name secret =
     rbind (validate_text_field name 31 ''name'') (\<lambda>_.
     if 0 \<in> set name then Err (invalid_argument ''name'' ''must not contain a NUL byte'')
     else
       copy_from_slice ((replicate (1 + 32 + 16) 0)[0 := i]) 1 (length name + 1) name (\<lambda>payload.
       copy_from_slice payload 33 (length payload) secret (\<lambda>payload.
       checked CC_SetChannel payload)))"

definition cmd_clear_channel :: "byte \<Rightarrow> command" where
  "cmd_clear_channel i =
     \<lparr>cmd_code = CC_SetChannel, cmd_payload = (replicate (1 + 32 + 16) 0)[0 := i]\<rparr>"

definition cmd_send_login :: "byte list \<Rightarrow> rstr \<Rightarrow> command outcome" where
  "cmd_send_login public_key password =
     (if 0 \<in> set password
      then Err (invalid_argument ''password'' ''must not contain a NUL byte'')
      else command_with_key_suffix CC_SendLogin public_key password)"

definition cmd_send_status_request :: "byte list \<Rightarrow> command outcome" where
  "cmd_send_status_request public_key = command_with_key CC_SendStatusReq public_key []"

definition cmd_has_connection :: "byte list \<Rightarrow> command outcome" where
  "cmd_has_connection public_key = command_with_key CC_HasConnection public_key []"

definition cmd_logout :: "byte list \<Rightarrow> command outcome" where
  "cmd_logout public_key = command_with_key CC_Logout public_key []"

definition cmd_get_self_telemetry :: command where
  "cmd_get_self_telemetry = \<lparr>cmd_code = CC_SendTelemetryReq, cmd_payload = [0, 0, 0]\<rparr>"

definition cmd_send_binary_request :: "byte list \<Rightarrow> byte \<Rightarrow> byte list \<Rightarrow> command outcome" where
  "cmd_send_binary_request public_key request_type data =
     command_with_key_suffix CC_BinaryReq public_key ([request_type] @ data)"

definition cmd_send_anonymous_request ::
    "byte list \<Rightarrow> byte \<Rightarrow> contact_route \<Rightarrow> path \<Rightarrow> command outcome" where
  "cmd_send_anonymous_request public_key request_type reply_route reply_path =
     (if request_type = 0 then Err (invalid_argument ''request_type'' ''must be non-zero'')
      else if reply_route = Flood
      then Err (invalid_argument ''reply_route'' ''anonymous requests require a direct reply route'')
      else
        rbind (encode_contact_route reply_route reply_path) (\<lambda>descriptor.
        command_with_key_suffix CC_SendAnonReq public_key
          ([request_type] @ [descriptor] @ path_bytes reply_path)))"

definition cmd_discover_path :: "byte list \<Rightarrow> command outcome" where
  "cmd_discover_path public_key = command_with_key CC_PathDiscovery public_key [0]"

definition cmd_send_node_discovery :: "byte \<Rightarrow> bool \<Rightarrow> u32 \<Rightarrow> u32 option \<Rightarrow> command outcome" where
  "cmd_send_node_discovery type_filter prefix_only tag since =
     (if tag = 0 then Err (invalid_argument ''tag'' ''must be non-zero'')
      else checked CC_SendControlData
             ([0x80 OR of_bool prefix_only] @ [type_filter] @ u32_to_le_bytes tag @
              (case since of Some s \<Rightarrow> u32_to_le_bytes s | None \<Rightarrow> [])))"

definition cmd_sign_start :: command where
  "cmd_sign_start = without_payload CC_SignStart"

definition cmd_sign_data :: "byte list \<Rightarrow> command outcome" where
  "cmd_sign_data chunk =
     (if chunk = [] then Err (invalid_argument ''chunk'' ''must not be empty'')
      else checked CC_SignData chunk)"

definition cmd_sign_finish :: command where
  "cmd_sign_finish = without_payload CC_SignFinish"

definition cmd_export_private_key :: command where
  "cmd_export_private_key = without_payload CC_ExportPrivateKey"

definition cmd_import_private_key :: "private_key \<Rightarrow> command" where
  "cmd_import_private_key key =
     \<lparr>cmd_code = CC_ImportPrivateKey, cmd_payload = expose_secret key\<rparr>"

definition cmd_set_device_pin :: "u32 \<Rightarrow> command outcome" where
  "cmd_set_device_pin pin =
     (if pin > 999999 then Err (invalid_argument ''pin'' ''must be between 0 and 999999'')
      else checked CC_SetDevicePin (u32_to_le_bytes pin))"

definition cmd_reboot :: command where
  "cmd_reboot = \<lparr>cmd_code = CC_Reboot, cmd_payload = bytes_of ''reboot''\<rparr>"

definition cmd_factory_reset :: command where
  "cmd_factory_reset = \<lparr>cmd_code = CC_FactoryReset, cmd_payload = bytes_of ''reset''\<rparr>"

section \<open>What the constructors guarantee\<close>

lemmas key_commands [encoders] =
  cmd_reset_path_def cmd_remove_contact_def cmd_share_contact_def cmd_export_contact_def
  cmd_get_contact_def cmd_get_advert_path_def cmd_send_status_request_def cmd_has_connection_def
  cmd_logout_def cmd_discover_path_def cmd_send_login_def cmd_send_binary_request_def
  cmd_send_anonymous_request_def command_with_key_def command_with_key_suffix_def

lemmas plain_commands [encoders] =
  cmd_app_start_def cmd_device_query_def cmd_get_contacts_def cmd_sync_next_message_def
  cmd_get_time_def cmd_set_time_def cmd_get_battery_def cmd_send_self_advert_def cmd_set_tuning_def
  cmd_get_tuning_def cmd_get_auto_add_config_def cmd_get_custom_vars_def cmd_get_stats_def
  cmd_get_allowed_repeat_frequencies_def cmd_set_flood_scope_def cmd_clear_default_flood_scope_def
  cmd_get_default_flood_scope_def cmd_get_channel_def cmd_clear_channel_def
  cmd_get_self_telemetry_def cmd_sign_start_def cmd_sign_finish_def cmd_export_private_key_def
  cmd_import_private_key_def cmd_reboot_def cmd_factory_reset_def without_payload_def

lemmas checked_commands [encoders] =
  cmd_set_advert_name_def cmd_set_coordinates_def cmd_set_tx_power_def cmd_set_radio_params_def
  cmd_update_contact_def cmd_import_contact_def cmd_set_auto_add_config_def cmd_set_custom_var_def
  cmd_set_path_hash_mode_def cmd_set_default_flood_scope_def cmd_set_channel_def
  cmd_send_node_discovery_def cmd_sign_data_def cmd_set_device_pin_def

lemma checked_eq_Ok:
  "checked code payload = Ok c \<longleftrightarrow>
   length payload < MAX_INNER_PAYLOAD \<and> c = \<lparr>cmd_code = code, cmd_payload = payload\<rparr>"
  by (auto simp: checked_def Let_def)

lemma checked_not_Panic [simp]: "checked code payload \<noteq> Panic"
  by (simp add: checked_def Let_def)

lemma length_encode [simp]: "length (encode c) = length (cmd_payload c) + 1"
  by (simp add: encode_def)

lemma into_encoded_eq [simp]: "into_encoded c = encode c"
  by (simp add: into_encoded_def encode_def)

lemma validate_text_field_eq_Ok:
  "validate_text_field v n f = Ok u \<longleftrightarrow> v \<noteq> [] \<and> length v \<le> n"
  by (simp add: validate_text_field_def)

lemma validate_text_field_not_Panic [simp]: "validate_text_field v n f \<noteq> Panic"
  by (simp add: validate_text_field_def)

lemma validate_range_eq_Ok: "validate_range v lo hi f = Ok u \<longleftrightarrow> lo \<le> v \<and> v \<le> hi"
  by (auto simp: validate_range_def)

lemma validate_range_not_Panic [simp]: "validate_range v lo hi f \<noteq> Panic"
  by (simp add: validate_range_def)

lemma validate_custom_component_eq_Ok:
  "validate_custom_component v f = Ok u \<longleftrightarrow>
   v \<noteq> [] \<and> length v \<le> 174 \<and> set v \<inter> {0, 0x3a, 0x2c} = {}"
  by (auto simp: validate_custom_component_def rbind_eq_Ok validate_text_field_eq_Ok list_ex_iff
      MAX_INNER_PAYLOAD_def)

lemma length_resize [simp]: "length (resize n xs) = n"
  by (simp add: resize_def)

text \<open>
  The commands a caller can obtain from the constructors with a bounded payload: all of them but
  the three text senders, which do not look at the length of the text. The array arguments have
  the length their Rust type fixes.
\<close>

inductive constructed :: "command \<Rightarrow> bool" where
  "constructed cmd_app_start"
| "constructed cmd_device_query"
| "constructed (cmd_get_contacts lastmod)"
| "constructed cmd_sync_next_message"
| "constructed cmd_get_time"
| "constructed (cmd_set_time t)"
| "constructed cmd_get_battery"
| "constructed (cmd_send_self_advert flood)"
| "cmd_set_advert_name name = Ok c \<Longrightarrow> constructed c"
| "cmd_set_coordinates lat lon = Ok c \<Longrightarrow> constructed c"
| "cmd_set_tx_power p = Ok c \<Longrightarrow> constructed c"
| "cmd_set_radio_params rp = Ok c \<Longrightarrow> constructed c"
| "constructed (cmd_set_tuning tp)"
| "constructed cmd_get_tuning"
| "cmd_reset_path k = Ok c \<Longrightarrow> constructed c"
| "cmd_update_contact ct = Ok c \<Longrightarrow> constructed c"
| "cmd_remove_contact k = Ok c \<Longrightarrow> constructed c"
| "cmd_share_contact k = Ok c \<Longrightarrow> constructed c"
| "cmd_export_contact ko = Ok c \<Longrightarrow> constructed c"
| "cmd_import_contact crd = Ok c \<Longrightarrow> constructed c"
| "cmd_get_contact k = Ok c \<Longrightarrow> constructed c"
| "cmd_get_advert_path k = Ok c \<Longrightarrow> constructed c"
| "cmd_set_auto_add_config cfg = Ok c \<Longrightarrow> constructed c"
| "constructed cmd_get_auto_add_config"
| "constructed cmd_get_custom_vars"
| "cmd_set_custom_var key val = Ok c \<Longrightarrow> constructed c"
| "constructed (cmd_get_stats st)"
| "constructed cmd_get_allowed_repeat_frequencies"
| "cmd_set_path_hash_mode m = Ok c \<Longrightarrow> constructed c"
| "(\<And>k. fs = FS_Key k \<Longrightarrow> length k = 16) \<Longrightarrow> constructed (cmd_set_flood_scope fs)"
| "cmd_set_default_flood_scope name key = Ok c \<Longrightarrow> constructed c"
| "constructed cmd_clear_default_flood_scope"
| "constructed cmd_get_default_flood_scope"
| "constructed (cmd_get_channel i)"
| "cmd_set_channel i name secret = Ok c \<Longrightarrow> constructed c"
| "constructed (cmd_clear_channel i)"
| "cmd_send_login k password = Ok c \<Longrightarrow> constructed c"
| "cmd_send_status_request k = Ok c \<Longrightarrow> constructed c"
| "cmd_has_connection k = Ok c \<Longrightarrow> constructed c"
| "cmd_logout k = Ok c \<Longrightarrow> constructed c"
| "constructed cmd_get_self_telemetry"
| "cmd_send_binary_request k rt dat = Ok c \<Longrightarrow> constructed c"
| "cmd_send_anonymous_request k rt route path = Ok c \<Longrightarrow> constructed c"
| "cmd_discover_path k = Ok c \<Longrightarrow> constructed c"
| "cmd_send_node_discovery flt pre tag since = Ok c \<Longrightarrow> constructed c"
| "constructed cmd_sign_start"
| "cmd_sign_data chunk = Ok c \<Longrightarrow> constructed c"
| "constructed cmd_sign_finish"
| "constructed cmd_export_private_key"
| "length (expose_secret sk) = 64 \<Longrightarrow> constructed (cmd_import_private_key sk)"
| "cmd_set_device_pin pin = Ok c \<Longrightarrow> constructed c"
| "constructed cmd_reboot"
| "constructed cmd_factory_reset"

lemma known_code:
  "(\<And>b. code \<noteq> CC_Unknown b) \<Longrightarrow> command_code_from_u8 (command_code_to_u8 code) = code"
  by (cases code) (simp_all add: command_code_from_u8_def)

lemma constructed_bound:
  "constructed c \<Longrightarrow> length (cmd_payload c) < MAX_INNER_PAYLOAD \<and> (\<forall>b. cmd_code c \<noteq> CC_Unknown b)"
  by (induction rule: constructed.induct)
    (auto simp: encoders checked_eq_Ok rbind_eq_Ok Let_def copy_from_slice_def bytes_of_def
      MAX_INNER_PAYLOAD_def split: if_splits option.splits flood_scope.splits)

end
