(* ===== verification/Packet.thy ===== *)
theory Packet
  imports Command
begin

text \<open>
  \<^verbatim>\<open>Packet\<close> of \<^verbatim>\<open>meshquill-core/src/protocol.rs\<close>: the inbound packets, one definition per parser
  (in source order), \<^verbatim>\<open>Packet::parse\<close>, \<^verbatim>\<open>Packet::into_event\<close> and \<^verbatim>\<open>Packet::code\<close>. A read
  outside the packet panics in Rust; the model returns \<open>Panic\<close> there.
\<close>

datatype (plugins only: code size) packet =
    P_Ok "u32 option"
  | P_Error "byte option"
  | P_ContactStart u32
  | P_Contact contact
  | P_ContactEnd u32
  | P_SelfInfo self_info
  | P_MsgSent byte "byte list" u32 \<comment> \<open>destination type, expected ack, suggested timeout\<close>
  | P_ContactMsg message
  | P_ChannelMsg message
  | P_CurrentTime u32
  | P_NoMoreMsgs
  | P_ContactUri contact_uri
  | P_Battery battery_info
  | P_DeviceInfo device_info
  | P_PrivateKey private_key
  | P_Disabled
  | P_SignStart u32
  | P_Signature signature
  | P_ChannelInfo channel_info
  | P_TuningParams tuning_params
  | P_CustomVariables custom_variables
  | P_AdvertPath advert_path
  | P_DeviceStats device_stats
  | P_AutoAddConfig auto_add_config
  | P_AllowedRepeatFrequencies "frequency_range list"
  | P_DefaultFloodScope default_flood_scope
  | P_Ack ack
  | P_MessagesWaiting
  | P_LoginSuccess login_session
  | P_LoginFailed "byte list"
  | P_RemoteStatus remote_status
  | P_TelemetryResponse telemetry_response
  | P_BinaryResponse binary_response
  | P_ControlData control_data
  | P_PathDiscovery path_discovery
  | P_Unknown byte "byte list"

section \<open>Readers\<close>

definition require_len :: "byte list \<Rightarrow> nat \<Rightarrow> packet_code \<Rightarrow> unit parsed" where
  "require_len raw minimum code =
     (if length raw < minimum
      then Err (InvalidPacketLength (Raw (packet_code_to_u8 code)) minimum (length raw))
      else Ok ())"

definition require_exact_len :: "byte list \<Rightarrow> nat \<Rightarrow> packet_code \<Rightarrow> unit parsed" where
  "require_exact_len raw expected code =
     rbind (require_len raw expected code) (\<lambda>_.
     if length raw \<noteq> expected then Err (Malformed ''packet contains unexpected trailing bytes'')
     else Ok ())"

definition read_u32 :: "byte list \<Rightarrow> nat \<Rightarrow> (u32 \<Rightarrow> ('e, 'b) result) \<Rightarrow> ('e, 'b) result" where
  "read_u32 raw offset k =
     idx raw offset (\<lambda>b0. idx raw (offset + 1) (\<lambda>b1. idx raw (offset + 2) (\<lambda>b2.
     idx raw (offset + 3) (\<lambda>b3. k (u32_from_le_bytes b0 b1 b2 b3)))))"

definition read_u16 :: "byte list \<Rightarrow> nat \<Rightarrow> (u16 \<Rightarrow> ('e, 'b) result) \<Rightarrow> ('e, 'b) result" where
  "read_u16 raw offset k =
     idx raw offset (\<lambda>b0. idx raw (offset + 1) (\<lambda>b1. k (u16_from_le_bytes b0 b1)))"

definition read_i16 :: "byte list \<Rightarrow> nat \<Rightarrow> (i16 \<Rightarrow> ('e, 'b) result) \<Rightarrow> ('e, 'b) result" where
  "read_i16 raw offset k =
     idx raw offset (\<lambda>b0. idx raw (offset + 1) (\<lambda>b1. k (u16_from_le_bytes b0 b1)))"

definition decode_text :: "byte list \<Rightarrow> string \<Rightarrow> rstr parsed" where
  "decode_text raw ctxt = (if utf8 raw then Ok raw else Err (InvalidUtf8Payload ctxt))"

definition decode_padded_string :: "byte list \<Rightarrow> string \<Rightarrow> rstr parsed" where
  "decode_padded_string raw ctxt =
     (let end = (case position 0 raw of Some i \<Rightarrow> i | None \<Rightarrow> length raw)
      in slice raw 0 end (\<lambda>s. if utf8 s then Ok s else Err (InvalidUtf8Payload ctxt)))"

definition parse_scaled_i32 :: "byte \<Rightarrow> byte \<Rightarrow> byte \<Rightarrow> byte \<Rightarrow> f64" where
  "parse_scaled_i32 b0 b1 b2 b3 =
     flt_div 53 (flt_of_int 53 (sint (u32_from_le_bytes b0 b1 b2 b3))) (Finite 1000000)"

text \<open>\<^verbatim>\<open>parse_scaled_i32([raw[i], .., raw[i + 3]])\<close> and \<^verbatim>\<open>f32::from(v) / 4.0\<close>.\<close>

definition read_scaled :: "byte list \<Rightarrow> nat \<Rightarrow> (f64 \<Rightarrow> ('e, 'b) result) \<Rightarrow> ('e, 'b) result" where
  "read_scaled raw offset k =
     idx raw offset (\<lambda>b0. idx raw (offset + 1) (\<lambda>b1. idx raw (offset + 2) (\<lambda>b2.
     idx raw (offset + 3) (\<lambda>b3. k (parse_scaled_i32 b0 b1 b2 b3)))))"

definition quarter :: "int \<Rightarrow> f32" where
  "quarter v = flt_div 24 (flt_of_int 24 v) (Finite 4)"

definition message_route_of :: "byte \<Rightarrow> message_route" where
  "message_route_of route_byte =
     (if route_byte = 0xff then MR_Direct
      else MR_Path (drop_bit 6 route_byte) (route_byte AND 0x3f))"

text \<open>The route half of the three descriptor decoders, with the number of path bytes it implies.\<close>

definition contact_route_of :: "byte \<Rightarrow> contact_route \<times> nat" where
  "contact_route_of descriptor =
     (if descriptor = 0xff then (Flood, 0)
      else let hash_mode = drop_bit 6 descriptor; hop_count = descriptor AND 0x3f
           in (RoutePath hash_mode hop_count, unat hop_count * (unat hash_mode + 1)))"

section \<open>Parsers\<close>

definition parse_ok :: "byte list \<Rightarrow> packet parsed" where
  "parse_ok raw =
     (case raw of
        [_] \<Rightarrow> Ok (P_Ok None)
      | [_, one, two, three, four] \<Rightarrow> Ok (P_Ok (Some (u32_from_le_bytes one two three four)))
      | _ \<Rightarrow> Err (Malformed ''OK packet must contain either no value or one complete u32 value''))"

definition parse_error_packet :: "byte list \<Rightarrow> packet" where
  "parse_error_packet raw = P_Error (get raw 1)"

definition parse_private_key :: "byte list \<Rightarrow> packet parsed" where
  "parse_private_key raw =
     rbind (require_exact_len raw 65 PC_PrivateKey) (\<lambda>_.
     slice raw 1 (length raw) (\<lambda>bytes.
     rbind (map_err (\<lambda>_. Malformed ''invalid private-key payload'') (private_key_try_from_bytes bytes))
       (\<lambda>private_key. Ok (P_PrivateKey private_key))))"

definition parse_disabled :: "byte list \<Rightarrow> packet parsed" where
  "parse_disabled raw = rbind (require_exact_len raw 1 PC_Disabled) (\<lambda>_. Ok P_Disabled)"

definition parse_sign_start :: "byte list \<Rightarrow> packet parsed" where
  "parse_sign_start raw =
     rbind (require_exact_len raw 6 PC_SignStart) (\<lambda>_.
     idx raw 1 (\<lambda>b. if b \<noteq> 0 then Err (Malformed ''sign-start reserved byte must be zero'')
     else read_u32 raw 2 (\<lambda>max_data_bytes. Ok (P_SignStart max_data_bytes))))"

definition parse_signature :: "byte list \<Rightarrow> packet parsed" where
  "parse_signature raw =
     rbind (require_exact_len raw 65 PC_Signature) (\<lambda>_.
     slice raw 1 (length raw) (\<lambda>bytes.
     rbind (map_err (\<lambda>_. Malformed ''invalid signature payload'') (signature_try_from_bytes bytes))
       (\<lambda>s. Ok (P_Signature s))))"

definition parse_login_success :: "byte list \<Rightarrow> packet parsed" where
  "parse_login_success raw =
     (if \<not> (length raw = 8 \<or> length raw = 12 \<or> length raw = 13 \<or> length raw = 14)
      then rbind (require_len raw 8 PC_LoginSuccess) (\<lambda>_.
           Err (Malformed ''login-success packet has a partial or unexpected extension''))
      else
        slice raw 2 8 (\<lambda>pubkey_prefix. idx raw 1 (\<lambda>perms.
        rbind (if length raw \<ge> 12 then read_u32 raw 8 (\<lambda>t. Ok (Some t)) else Ok None) (\<lambda>timestamp.
        Ok (P_LoginSuccess
              \<lparr>permissions = perms, ls_pubkey_prefix = pubkey_prefix, server_timestamp = timestamp,
               acl_permissions = get raw 12, firmware_version_level = get raw 13\<rparr>)))))"

definition parse_login_failed :: "byte list \<Rightarrow> packet parsed" where
  "parse_login_failed raw =
     rbind (require_exact_len raw 8 PC_LoginFailed) (\<lambda>_.
     idx raw 1 (\<lambda>b. if b \<noteq> 0 then Err (Malformed ''login-failed reserved byte must be zero'')
     else slice raw 2 8 (\<lambda>pubkey_prefix. Ok (P_LoginFailed pubkey_prefix))))"

definition parse_remote_status :: "byte list \<Rightarrow> packet parsed" where
  "parse_remote_status raw =
     (if \<not> (length raw = 60 \<or> length raw = 64)
      then rbind (require_len raw 60 PC_StatusResponse) (\<lambda>_.
           Err (Malformed ''status response must contain the legacy or current complete layout''))
      else
        idx raw 1 (\<lambda>b. if b \<noteq> 0 then Err (Malformed ''status-response reserved byte must be zero'')
        else
          slice raw 2 8 (\<lambda>pubkey_prefix.
          let offset = 8 in
          read_u16 raw offset (\<lambda>f_battery.
          read_u16 raw (offset + 2) (\<lambda>f_queue.
          read_i16 raw (offset + 4) (\<lambda>f_noise.
          read_i16 raw (offset + 6) (\<lambda>f_rssi.
          read_u32 raw (offset + 8) (\<lambda>f_received.
          read_u32 raw (offset + 12) (\<lambda>f_sent.
          read_u32 raw (offset + 16) (\<lambda>f_tx_airtime.
          read_u32 raw (offset + 20) (\<lambda>f_uptime.
          read_u32 raw (offset + 24) (\<lambda>f_sent_flood.
          read_u32 raw (offset + 28) (\<lambda>f_sent_direct.
          read_u32 raw (offset + 32) (\<lambda>f_received_flood.
          read_u32 raw (offset + 36) (\<lambda>f_received_direct.
          read_u16 raw (offset + 40) (\<lambda>f_errors.
          read_i16 raw (offset + 42) (\<lambda>f_snr.
          read_u16 raw (offset + 44) (\<lambda>f_direct_duplicates.
          read_u16 raw (offset + 46) (\<lambda>f_flood_duplicates.
          read_u32 raw (offset + 48) (\<lambda>f_rx_airtime.
          rbind (if length raw = 64 then read_u32 raw (offset + 52) (\<lambda>v. Ok (Some v)) else Ok None)
            (\<lambda>f_receive_errors.
          Ok (P_RemoteStatus
                \<lparr>rst_pubkey_prefix = pubkey_prefix, battery_mv = f_battery, tx_queue_length = f_queue,
                 noise_floor = f_noise, last_rssi = f_rssi, packets_received = f_received,
                 packets_sent = f_sent, tx_airtime_seconds = f_tx_airtime, uptime_seconds = f_uptime,
                 sent_flood = f_sent_flood, sent_direct = f_sent_direct,
                 received_flood = f_received_flood, received_direct = f_received_direct,
                 error_events = f_errors, last_snr = quarter (sint f_snr),
                 direct_duplicates = f_direct_duplicates, flood_duplicates = f_flood_duplicates,
                 rx_airtime_seconds = f_rx_airtime, receive_errors = f_receive_errors\<rparr>))))))))))))))))))))))"

definition parse_telemetry_response :: "byte list \<Rightarrow> packet parsed" where
  "parse_telemetry_response raw =
     rbind (require_len raw 8 PC_TelemetryResponse) (\<lambda>_.
     idx raw 1 (\<lambda>b. if b \<noteq> 0 then Err (Malformed ''telemetry-response reserved byte must be zero'')
     else slice raw 2 8 (\<lambda>pubkey_prefix. slice raw 8 (length raw) (\<lambda>payload.
       Ok (P_TelemetryResponse \<lparr>tr_pubkey_prefix = pubkey_prefix, tr_payload = payload\<rparr>)))))"

definition parse_binary_response :: "byte list \<Rightarrow> packet parsed" where
  "parse_binary_response raw =
     rbind (require_len raw 6 PC_BinaryResponse) (\<lambda>_.
     idx raw 1 (\<lambda>b. if b \<noteq> 0 then Err (Malformed ''binary-response reserved byte must be zero'')
     else slice raw 2 6 (\<lambda>tag. slice raw 6 (length raw) (\<lambda>payload.
       Ok (P_BinaryResponse \<lparr>br_tag = tag, br_payload = payload\<rparr>)))))"

definition parse_control_data :: "byte list \<Rightarrow> packet parsed" where
  "parse_control_data raw =
     rbind (require_len raw 5 PC_ControlData) (\<lambda>_.
     idx raw 1 (\<lambda>b1. idx raw 2 (\<lambda>b2. idx raw 3 (\<lambda>b3. slice raw 4 (length raw) (\<lambda>payload.
       Ok (P_ControlData \<lparr>snr_qdb = b1, rssi = b2, path_len = b3, cd_payload = payload\<rparr>))))))"

text \<open>
  The cursor parameter is returned. \<^verbatim>\<open>checked_mul\<close> and \<^verbatim>\<open>checked_add\<close> cannot fail: the product is
  at most 252 and the cursor is inside the packet.
\<close>

definition parse_discovered_path :: "byte list \<Rightarrow> nat \<Rightarrow> (contact_route \<times> path \<times> nat) parsed" where
  "parse_discovered_path raw cursor =
     rbind (ok_or (get raw cursor) (Malformed ''path-discovery response is missing a route descriptor''))
       (\<lambda>descriptor.
     let cursor = cursor + 1; (route, byte_len) = contact_route_of descriptor; end = cursor + byte_len in
     rbind (ok_or (get_range raw cursor end)
              (Malformed ''path-discovery response contains a truncated path'')) (\<lambda>bytes.
     rbind (map_err (\<lambda>_. Malformed ''path-discovery response exceeds supported path bytes'')
              (path_try_from_bytes bytes)) (\<lambda>path.
     Ok (route, path, end))))"

definition parse_path_discovery :: "byte list \<Rightarrow> packet parsed" where
  "parse_path_discovery raw =
     rbind (require_len raw 10 PC_PathDiscoveryResponse) (\<lambda>_.
     idx raw 1 (\<lambda>b. if b \<noteq> 0 then Err (Malformed ''path-discovery reserved byte must be zero'')
     else
       slice raw 2 8 (\<lambda>pubkey_prefix.
       rbind (parse_discovered_path raw 8) (\<lambda>(out_r, out_p, cursor).
       rbind (parse_discovered_path raw cursor) (\<lambda>(in_r, in_p, cursor).
       if cursor \<noteq> length raw
       then Err (Malformed ''path-discovery response contains trailing bytes'')
       else Ok (P_PathDiscovery
                  \<lparr>pd_pubkey_prefix = pubkey_prefix, outbound_route = out_r, outbound_path = out_p,
                   inbound_route = in_r, inbound_path = in_p\<rparr>))))))"

definition parse_contact_start :: "byte list \<Rightarrow> packet parsed" where
  "parse_contact_start raw =
     rbind (require_len raw 5 PC_ContactStart) (\<lambda>_. read_u32 raw 1 (\<lambda>n. Ok (P_ContactStart n)))"

definition parse_contact :: "byte list \<Rightarrow> packet parsed" where
  "parse_contact raw =
     rbind (require_len raw 148 PC_Contact) (\<lambda>_.
     slice raw 1 33 (\<lambda>key.
     rbind (map_err (\<lambda>_. Malformed ''invalid contact public key'') (public_key_try_from_bytes key))
       (\<lambda>public_key.
     idx raw 33 (\<lambda>type_byte. idx raw 34 (\<lambda>flags. idx raw 35 (\<lambda>route_byte.
     let (route, used_path_bytes) = contact_route_of route_byte in
     if used_path_bytes > 64
     then Err (Malformed ''contact path descriptor exceeds fixed path field'')
     else
       slice raw 36 (36 + used_path_bytes) (\<lambda>path_part.
       rbind (map_err (\<lambda>_. Malformed ''invalid contact path'') (path_try_from_bytes path_part))
         (\<lambda>out_path.
       slice raw 100 (100 + 32) (\<lambda>name_field.
       rbind (decode_padded_string name_field ''Contact.adv_name'') (\<lambda>name.
       read_u32 raw 132 (\<lambda>advert.
       read_scaled raw 136 (\<lambda>lat.
       read_scaled raw (136 + 4) (\<lambda>lon.
       read_u32 raw (136 + 8) (\<lambda>modified.
       Ok (P_Contact
             \<lparr>c_public_key = public_key, c_type = contact_type_from_u8 type_byte, c_flags = flags,
              c_route = route, c_out_path = out_path, c_adv_name = name, c_last_advert = advert,
              c_adv_lat = lat, c_adv_lon = lon, c_lastmod = modified\<rparr>)))))))))))))))"

definition parse_contact_end :: "byte list \<Rightarrow> packet parsed" where
  "parse_contact_end raw =
     rbind (require_len raw 5 PC_ContactEnd) (\<lambda>_. read_u32 raw 1 (\<lambda>n. Ok (P_ContactEnd n)))"

definition parse_self_info :: "byte list \<Rightarrow> packet parsed" where
  "parse_self_info raw =
     rbind (require_len raw 58 PC_SelfInfo) (\<lambda>_.
     slice raw 4 36 (\<lambda>key.
     rbind (map_err (\<lambda>_. Malformed ''invalid self-info public key'') (public_key_try_from_bytes key))
       (\<lambda>public_key.
     idx raw 46 (\<lambda>modes. idx raw 1 (\<lambda>b1. idx raw 2 (\<lambda>b2. idx raw 3 (\<lambda>b3.
     read_scaled raw 36 (\<lambda>lat. read_scaled raw 40 (\<lambda>lon.
     idx raw 44 (\<lambda>b44. idx raw 45 (\<lambda>b45. idx raw 47 (\<lambda>b47.
     read_u32 raw 48 (\<lambda>freq. read_u32 raw 52 (\<lambda>bw. idx raw 56 (\<lambda>sf. idx raw 57 (\<lambda>cr.
     slice raw 58 (length raw) (\<lambda>name_field.
     rbind (decode_padded_string name_field ''SelfInfo.name'') (\<lambda>name.
     Ok (P_SelfInfo
           \<lparr>advertising_type = b1, tx_power = b2, max_tx_power = b3, si_public_key = public_key,
            si_adv_lat = lat, si_adv_lon = lon, multi_acks = b44, advert_loc_policy = b45,
            telemetry_mode_env = drop_bit 4 modes AND 3, telemetry_mode_loc = drop_bit 2 modes AND 3,
            telemetry_mode_base = modes AND 3, manual_add_contacts = (b47 \<noteq> 0),
            radio_frequency_mhz = flt_div 53 (flt_of_int 53 (uint freq)) (Finite 1000),
            radio_bandwidth_khz = flt_div 53 (flt_of_int 53 (uint bw)) (Finite 1000),
            radio_spreading_factor = sf, radio_coding_rate = cr, si_name = name\<rparr>)))))))))))))))))))"

text \<open>The three version-dependent extensions of \<^verbatim>\<open>parse_device_info\<close> run one after the other.\<close>

definition device_info_v3 :: "byte list \<Rightarrow> device_info \<Rightarrow> device_info parsed" where
  "device_info_v3 raw info =
     rbind (require_len raw 80 PC_DeviceInfo) (\<lambda>_.
     idx raw 2 (\<lambda>b2. idx raw 3 (\<lambda>b3. read_u32 raw 4 (\<lambda>pin.
     slice raw 8 20 (\<lambda>f1. rbind (decode_padded_string f1 ''DeviceInfo.firmware_build'') (\<lambda>build.
     slice raw 20 60 (\<lambda>f2. rbind (decode_padded_string f2 ''DeviceInfo.model'') (\<lambda>model.
     slice raw 60 80 (\<lambda>f3. rbind (decode_padded_string f3 ''DeviceInfo.version'') (\<lambda>version.
     Ok (info\<lparr>max_contacts := Some (ucast b2 * 2), max_channels := Some b3, ble_pin := Some pin,
              firmware_build := Some build, di_model := Some model,
              firmware_version := Some version\<rparr>)))))))))))"

definition parse_device_info :: "byte list \<Rightarrow> packet parsed" where
  "parse_device_info raw =
     rbind (require_len raw 2 PC_DeviceInfo) (\<lambda>_.
     idx raw 1 (\<lambda>version.
     let info = \<lparr>protocol_version = version, max_contacts = None, max_channels = None, ble_pin = None,
                 firmware_build = None, di_model = None, firmware_version = None,
                 repeat_enabled = None, path_hash_mode = None\<rparr> in
     rbind (if version \<ge> 3 then device_info_v3 raw info else Ok info) (\<lambda>info.
     rbind (if version \<ge> 9
            then rbind (require_len raw 81 PC_DeviceInfo) (\<lambda>_.
                 idx raw 80 (\<lambda>b. Ok (info\<lparr>repeat_enabled := Some (b \<noteq> 0)\<rparr>)))
            else Ok info) (\<lambda>info.
     rbind (if version \<ge> 10
            then rbind (require_len raw 82 PC_DeviceInfo) (\<lambda>_.
                 idx raw 81 (\<lambda>b. Ok (info\<lparr>path_hash_mode := Some b\<rparr>)))
            else Ok info) (\<lambda>info.
     Ok (P_DeviceInfo info))))))"

definition parse_msg_sent :: "byte list \<Rightarrow> packet parsed" where
  "parse_msg_sent raw =
     rbind (require_len raw 10 PC_MsgSent) (\<lambda>_.
     slice raw 2 6 (\<lambda>expected_ack. idx raw 1 (\<lambda>destination_type. read_u32 raw 6 (\<lambda>t.
     Ok (P_MsgSent destination_type expected_ack t)))))"

definition parse_contact_msg :: "externs \<Rightarrow> byte list \<Rightarrow> bool \<Rightarrow> packet parsed" where
  "parse_contact_msg x raw is_v3 =
     (let code = (if is_v3 then PC_ContactMsgRecvV3 else PC_ContactMsgRecv) in
      rbind (require_len raw (if is_v3 then 16 else 13) code) (\<lambda>_.
      rbind (if is_v3 then idx raw 1 (\<lambda>b. Ok (Some (quarter (sint b)), 1 + 3)) else Ok (None, 1))
        (\<lambda>(snr, prefix_start).
      idx raw (prefix_start + 6) (\<lambda>route_byte.
      slice raw prefix_start (prefix_start + 6) (\<lambda>prefix.
      let cursor = prefix_start + 7 in
      idx raw cursor (\<lambda>kind.
      read_u32 raw (cursor + 1) (\<lambda>timestamp.
      let cursor = cursor + 5 in
      rbind (if kind = 0x02
             then rbind (require_len raw (cursor + 4) code) (\<lambda>_.
                  slice raw cursor (cursor + 4) (\<lambda>bytes. Ok (Some bytes, cursor + 4)))
             else Ok (None, cursor)) (\<lambda>(sig, cursor).
      slice raw cursor (length raw) (\<lambda>rest.
      rbind (decode_text rest (if is_v3 then ''ContactMsg.text_v3'' else ''ContactMsg.text''))
        (\<lambda>content.
      Ok (P_ContactMsg
            \<lparr>observation_id = None, msg_source = Direct (hex_encode x prefix),
             msg_route = message_route_of route_byte, txt_type = kind, sender_timestamp = timestamp,
             msg_signature = sig, msg_text = content, msg_snr = snr, msg_status = Received\<rparr>)))))))))))"

definition parse_channel_msg :: "byte list \<Rightarrow> bool \<Rightarrow> packet parsed" where
  "parse_channel_msg raw is_v3 =
     (let code = (if is_v3 then PC_ChannelMsgRecvV3 else PC_ChannelMsgRecv) in
      rbind (require_len raw (if is_v3 then 11 else 8) code) (\<lambda>_.
      rbind (if is_v3 then idx raw 1 (\<lambda>b. Ok (Some (quarter (sint b)), 1 + 3)) else Ok (None, 1))
        (\<lambda>(snr, cursor).
      idx raw cursor (\<lambda>channel_idx.
      let cursor = cursor + 1 in
      idx raw cursor (\<lambda>route_byte.
      idx raw (cursor + 1) (\<lambda>kind.
      read_u32 raw (cursor + 2) (\<lambda>timestamp.
      slice raw (cursor + 6) (length raw) (\<lambda>rest.
      rbind (decode_text rest (if is_v3 then ''ChannelMsg.text_v3'' else ''ChannelMsg.text''))
        (\<lambda>content.
      Ok (P_ChannelMsg
            \<lparr>observation_id = None, msg_source = Channel channel_idx,
             msg_route = message_route_of route_byte, txt_type = kind, sender_timestamp = timestamp,
             msg_signature = None, msg_text = content, msg_snr = snr, msg_status = Received\<rparr>))))))))))"

definition parse_current_time :: "byte list \<Rightarrow> packet parsed" where
  "parse_current_time raw =
     rbind (require_exact_len raw 5 PC_CurrentTime) (\<lambda>_. read_u32 raw 1 (\<lambda>t. Ok (P_CurrentTime t)))"

definition parse_contact_uri :: "externs \<Rightarrow> byte list \<Rightarrow> packet parsed" where
  "parse_contact_uri x raw =
     rbind (require_len raw 2 PC_ContactUri) (\<lambda>_.
     slice raw 1 (length raw) (\<lambda>card_data.
     Ok (P_ContactUri
           \<lparr>uri_text = bytes_of ''meshcore://'' @ hex_encode x card_data, card_bytes = card_data\<rparr>)))"

definition parse_battery :: "byte list \<Rightarrow> packet parsed" where
  "parse_battery raw =
     rbind (require_len raw 3 PC_Battery) (\<lambda>_.
     read_u16 raw 1 (\<lambda>level.
     rbind (if length raw = 3 then Ok (None, None)
            else if length raw = 11
            then read_u32 raw 3 (\<lambda>u. read_u32 raw 7 (\<lambda>t. Ok (Some u, Some t)))
            else if length raw < 11
            then Err (InvalidPacketLength (Raw (packet_code_to_u8 PC_Battery)) 11 (length raw))
            else Err (Malformed ''battery packet contains unexpected trailing bytes''))
       (\<lambda>(used, total). Ok (P_Battery \<lparr>bat_level = level, used_kb = used, total_kb = total\<rparr>))))"

definition parse_tuning_params :: "byte list \<Rightarrow> packet parsed" where
  "parse_tuning_params raw =
     rbind (require_exact_len raw 9 PC_TuningParams) (\<lambda>_.
     read_u32 raw 1 (\<lambda>rx. read_u32 raw 5 (\<lambda>air.
     Ok (P_TuningParams \<lparr>rx_delay = rx, airtime_factor = air\<rparr>))))"

text \<open>The loop over the comma-separated pairs, with the entries collected so far.\<close>

fun custom_entries :: "rstr list \<Rightarrow> custom_variable list \<Rightarrow> custom_variable list parsed" where
  "custom_entries [] entries = Ok entries"
| "custom_entries (pair # pairs) entries =
     (case split_once 0x3a pair of
        None \<Rightarrow> Err (Malformed ''custom-variable entry is missing its separator'')
      | Some (key, value) \<Rightarrow>
          if key = [] \<or> value = [] \<or> 0x3a \<in> set value \<or> 0 \<in> set key \<or> 0 \<in> set value
          then Err (Malformed ''custom-variable entry is not one strict non-empty key:value pair'')
          else if list_ex (\<lambda>entry. cv_key entry = key) entries
          then Err (Malformed ''custom-variable payload contains a duplicate key'')
          else custom_entries pairs (entries @ [\<lparr>cv_key = key, cv_value = value\<rparr>]))"

definition parse_custom_vars :: "byte list \<Rightarrow> packet parsed" where
  "parse_custom_vars raw =
     (if length raw - 1 > 140
      then Err (Malformed ''custom-variable payload exceeds firmware response bound'')
      else
        slice raw 1 (length raw) (\<lambda>content.
        if \<not> utf8 content then Err (InvalidUtf8Payload ''CustomVariables'')
        else
          rbind (if content = [] then Ok [] else custom_entries (split_on 0x2c content) [])
            (\<lambda>entries.
          Ok (P_CustomVariables \<lparr>cvs_raw = content, cvs_entries = entries\<rparr>))))"

definition parse_advert_path :: "byte list \<Rightarrow> packet parsed" where
  "parse_advert_path raw =
     rbind (require_len raw 6 PC_AdvertPath) (\<lambda>_.
     idx raw 5 (\<lambda>descriptor.
     let (route, used_path_bytes) = contact_route_of descriptor in
     rbind (require_exact_len raw (6 + used_path_bytes) PC_AdvertPath) (\<lambda>_.
     slice raw 6 (length raw) (\<lambda>bytes.
     rbind (map_err (\<lambda>_. Malformed ''advert path exceeds supported path bytes'')
              (path_try_from_bytes bytes)) (\<lambda>path.
     read_u32 raw 1 (\<lambda>seen.
     Ok (P_AdvertPath \<lparr>received_at = seen, ap_route = route, ap_path = path\<rparr>)))))))"

definition parse_stats :: "byte list \<Rightarrow> packet parsed" where
  "parse_stats raw =
     rbind (require_len raw 2 PC_Stats) (\<lambda>_.
     idx raw 1 (\<lambda>kind.
     rbind
       (if kind = 0 then
          rbind (require_exact_len raw 11 PC_Stats) (\<lambda>_.
          read_u16 raw 2 (\<lambda>battery. read_u32 raw 4 (\<lambda>uptime. read_u16 raw 8 (\<lambda>errors.
          idx raw 10 (\<lambda>queue.
          Ok (DS_Core \<lparr>cs_battery_mv = battery, cs_uptime_seconds = uptime, cs_errors = errors,
                       cs_queue_length = queue\<rparr>))))))
        else if kind = 1 then
          rbind (require_exact_len raw 14 PC_Stats) (\<lambda>_.
          read_i16 raw 2 (\<lambda>noise. idx raw 4 (\<lambda>rssi_byte. idx raw 5 (\<lambda>snr_byte.
          read_u32 raw 6 (\<lambda>tx. read_u32 raw 10 (\<lambda>rx.
          Ok (DS_Radio \<lparr>rs_noise_floor = noise, rs_last_rssi = rssi_byte,
                        rs_last_snr = quarter (sint snr_byte), rs_tx_airtime_seconds = tx,
                        rs_rx_airtime_seconds = rx\<rparr>)))))))
        else if kind = 2 then
          (if \<not> (length raw = 26 \<or> length raw = 30)
           then rbind (require_len raw 26 PC_Stats) (\<lambda>_.
                Err (Malformed ''packet statistics must use the 26- or 30-byte layout''))
           else
             read_u32 raw 2 (\<lambda>v_recv. read_u32 raw 6 (\<lambda>v_sent. read_u32 raw 10 (\<lambda>v_flood_sent.
             read_u32 raw 14 (\<lambda>v_direct_sent. read_u32 raw 18 (\<lambda>v_flood_recv.
             read_u32 raw 22 (\<lambda>v_direct_recv.
             rbind (if length raw = 30 then read_u32 raw 26 (\<lambda>v. Ok (Some v)) else Ok None)
               (\<lambda>v_errors.
             Ok (DS_Packets \<lparr>ps_recv = v_recv, ps_sent = v_sent, ps_flood_recv = v_flood_recv,
                             ps_flood_sent = v_flood_sent, ps_direct_recv = v_direct_recv,
                             ps_direct_sent = v_direct_sent, ps_recv_errors = v_errors\<rparr>)))))))))
        else Err (Malformed ''unknown statistics subtype''))
       (\<lambda>stats. Ok (P_DeviceStats stats))))"

definition parse_auto_add_config :: "byte list \<Rightarrow> packet parsed" where
  "parse_auto_add_config raw =
     (if \<not> (length raw = 2 \<or> length raw = 3)
      then rbind (require_len raw 2 PC_AutoaddConfig) (\<lambda>_.
           Err (Malformed ''auto-add config must use the 2- or 3-byte layout''))
      else
        let hops = get raw 2 in
        if (case hops of Some value \<Rightarrow> value > 64 | None \<Rightarrow> False)
        then Err (Malformed ''auto-add max hops exceeds firmware bound'')
        else idx raw 1 (\<lambda>config. Ok (P_AutoAddConfig \<lparr>aa_config = config, max_hops = hops\<rparr>)))"

fun frequency_ranges :: "byte list list \<Rightarrow> frequency_range list \<Rightarrow> frequency_range list parsed" where
  "frequency_ranges [] ranges = Ok ranges"
| "frequency_ranges (chunk # rest) ranges =
     read_u32 chunk 0 (\<lambda>lower. read_u32 chunk 4 (\<lambda>upper.
     if lower = 0 \<or> upper = 0 \<or> lower > upper
     then Err (Malformed ''repeat-frequency range is invalid'')
     else frequency_ranges rest (ranges @ [\<lparr>lower_khz = lower, upper_khz = upper\<rparr>])))"

text \<open>\<^verbatim>\<open>raw.len() - 1\<close> underflows, and so panics, on an empty packet.\<close>

definition parse_allowed_repeat_frequencies :: "byte list \<Rightarrow> packet parsed" where
  "parse_allowed_repeat_frequencies raw =
     (if raw = [] then Panic
      else if \<not> 8 dvd (length raw - 1)
      then Err (Malformed ''repeat-frequency payload contains a truncated range'')
      else
        slice raw 1 (length raw) (\<lambda>body.
        rbind (frequency_ranges (chunks_exact 8 body) []) (\<lambda>ranges.
        Ok (P_AllowedRepeatFrequencies ranges))))"

definition parse_default_flood_scope :: "byte list \<Rightarrow> packet parsed" where
  "parse_default_flood_scope raw =
     (if length raw = 1 then Ok (P_DefaultFloodScope Unconfigured)
      else
        rbind (require_exact_len raw 48 PC_DefaultFloodScope) (\<lambda>_.
        slice raw 1 32 (\<lambda>field.
        case position 0 field of
          None \<Rightarrow> Err (Malformed ''default flood scope name is not NUL terminated'')
        | Some name_end \<Rightarrow>
            if name_end = 0
            then Err (Malformed ''configured default flood scope has an empty name'')
            else
              slice raw 1 (name_end + 1) (\<lambda>name.
              if \<not> utf8 name then Err (InvalidUtf8Payload ''DefaultFloodScope.name'')
              else slice raw 32 48 (\<lambda>key.
                Ok (P_DefaultFloodScope
                      (Configured \<lparr>scope_name = Some name, scope_key = key\<rparr>)))))))"

definition parse_channel_info :: "externs \<Rightarrow> byte list \<Rightarrow> packet parsed" where
  "parse_channel_info x raw =
     rbind (require_len raw 50 PC_ChannelInfo) (\<lambda>_.
     idx raw 1 (\<lambda>i.
     slice raw 2 34 (\<lambda>field.
     rbind (decode_padded_string field ''ChannelInfo.name'') (\<lambda>name.
     slice raw 34 50 (\<lambda>secret.
     Ok (P_ChannelInfo (with_secret x i name (Some secret))))))))"

definition parse_ack :: "byte list \<Rightarrow> packet parsed" where
  "parse_ack raw =
     rbind (require_len raw 5 PC_Ack) (\<lambda>_.
     if 6 \<le> length raw \<and> length raw < 9
     then Err (Malformed ''ACK packet contains a truncated trip-time field'')
     else
       slice raw 1 5 (\<lambda>code.
       rbind (if length raw \<ge> 9 then read_u32 raw 5 (\<lambda>t. Ok (Some t)) else Ok None) (\<lambda>trip.
       Ok (P_Ack \<lparr>a_code = code, trip_time_ms = trip\<rparr>))))"

section \<open>Dispatch\<close>

definition parse :: "externs \<Rightarrow> byte list \<Rightarrow> packet parsed" where
  "parse x raw =
     (if raw = [] then Err (Malformed ''empty packet'')
      else if length raw > MAX_INNER_PAYLOAD
      then Err (OversizedPacketPayload (length raw) MAX_INNER_PAYLOAD)
      else
        idx raw 0 (\<lambda>b0.
        case packet_code_from_u8 b0 of
          PC_Ok \<Rightarrow> parse_ok raw
        | PC_Error \<Rightarrow> Ok (parse_error_packet raw)
        | PC_ContactStart \<Rightarrow> parse_contact_start raw
        | PC_Contact \<Rightarrow> parse_contact raw
        | PC_ContactEnd \<Rightarrow> parse_contact_end raw
        | PC_SelfInfo \<Rightarrow> parse_self_info raw
        | PC_MsgSent \<Rightarrow> parse_msg_sent raw
        | PC_ContactMsgRecv \<Rightarrow> parse_contact_msg x raw False
        | PC_ContactMsgRecvV3 \<Rightarrow> parse_contact_msg x raw True
        | PC_ChannelMsgRecv \<Rightarrow> parse_channel_msg raw False
        | PC_ChannelMsgRecvV3 \<Rightarrow> parse_channel_msg raw True
        | PC_CurrentTime \<Rightarrow> parse_current_time raw
        | PC_NoMoreMsgs \<Rightarrow> Ok P_NoMoreMsgs
        | PC_ContactUri \<Rightarrow> parse_contact_uri x raw
        | PC_Battery \<Rightarrow> parse_battery raw
        | PC_DeviceInfo \<Rightarrow> parse_device_info raw
        | PC_PrivateKey \<Rightarrow> parse_private_key raw
        | PC_Disabled \<Rightarrow> parse_disabled raw
        | PC_ChannelInfo \<Rightarrow> parse_channel_info x raw
        | PC_SignStart \<Rightarrow> parse_sign_start raw
        | PC_Signature \<Rightarrow> parse_signature raw
        | PC_CustomVars \<Rightarrow> parse_custom_vars raw
        | PC_AdvertPath \<Rightarrow> parse_advert_path raw
        | PC_TuningParams \<Rightarrow> parse_tuning_params raw
        | PC_Stats \<Rightarrow> parse_stats raw
        | PC_AutoaddConfig \<Rightarrow> parse_auto_add_config raw
        | PC_AllowedRepeatFreq \<Rightarrow> parse_allowed_repeat_frequencies raw
        | PC_DefaultFloodScope \<Rightarrow> parse_default_flood_scope raw
        | PC_Ack \<Rightarrow> parse_ack raw
        | PC_MessagesWaiting \<Rightarrow> Ok P_MessagesWaiting
        | PC_LoginSuccess \<Rightarrow> parse_login_success raw
        | PC_LoginFailed \<Rightarrow> parse_login_failed raw
        | PC_StatusResponse \<Rightarrow> parse_remote_status raw
        | PC_TelemetryResponse \<Rightarrow> parse_telemetry_response raw
        | PC_BinaryResponse \<Rightarrow> parse_binary_response raw
        | PC_PathDiscoveryResponse \<Rightarrow> parse_path_discovery raw
        | PC_ControlData \<Rightarrow> parse_control_data raw
        | PC_Unknown code \<Rightarrow> slice raw 1 (length raw) (\<lambda>payload. Ok (P_Unknown code payload))
        | _ \<Rightarrow> slice raw 1 (length raw) (\<lambda>payload. Ok (P_Unknown b0 payload))))"

fun into_event :: "packet \<Rightarrow> event option" where
  "into_event (P_Ok _) = None"
| "into_event (P_Error _) = None"
| "into_event (P_ContactStart _) = None"
| "into_event (P_PrivateKey _) = None"
| "into_event P_Disabled = None"
| "into_event (P_SignStart _) = None"
| "into_event (P_Contact contact) = Some (E_Contacts [contact] 0)"
| "into_event (P_ContactEnd lastmod) = Some (E_Contacts [] lastmod)"
| "into_event (P_SelfInfo info) = Some (E_SelfInfo info)"
| "into_event (P_MsgSent d expected_ack t) = Some (E_MessageSent d expected_ack t)"
| "into_event (P_ContactMsg m) = Some (E_Message m)"
| "into_event (P_ChannelMsg m) = Some (E_Message m)"
| "into_event (P_CurrentTime t) = Some (E_CurrentTime t)"
| "into_event (P_ContactUri uri) = Some (E_ContactUri uri)"
| "into_event (P_Battery info) = Some (E_Battery (bat_level info) (used_kb info) (total_kb info))"
| "into_event (P_DeviceInfo info) = Some (E_DeviceInfo info)"
| "into_event (P_ChannelInfo info) = Some (E_ChannelInfo (ci_idx info) (ci_name info) (ci_secret_hash info))"
| "into_event (P_TuningParams params) = Some (E_TuningParams params)"
| "into_event (P_CustomVariables vars) = Some (E_CustomVariables vars)"
| "into_event (P_AdvertPath p) = Some (E_AdvertPath p)"
| "into_event (P_DeviceStats s) = Some (E_DeviceStats s)"
| "into_event (P_AutoAddConfig c) = Some (E_AutoAddConfig c)"
| "into_event (P_AllowedRepeatFrequencies r) = Some (E_AllowedRepeatFrequencies r)"
| "into_event (P_DefaultFloodScope s) = Some (E_DefaultFloodScope s)"
| "into_event (P_LoginSuccess s) = Some (E_LoginSucceeded s)"
| "into_event (P_LoginFailed p) = Some (E_LoginFailed p)"
| "into_event (P_RemoteStatus s) = Some (E_RemoteStatus s)"
| "into_event (P_TelemetryResponse r) = Some (E_Telemetry r)"
| "into_event (P_BinaryResponse r) = Some (E_BinaryResponse r)"
| "into_event (P_ControlData d) = Some (E_ControlData d)"
| "into_event (P_PathDiscovery p) = Some (E_PathDiscovery p)"
| "into_event (P_Signature s) = Some (E_Signature s)"
| "into_event (P_Ack a) = Some (E_Ack a)"
| "into_event P_NoMoreMsgs = Some E_InboxEmpty"
| "into_event P_MessagesWaiting = Some E_MessagesWaiting"
| "into_event (P_Unknown c payload) = Some (E_UnknownPacket c payload)"

fun packet_code_of :: "packet \<Rightarrow> packet_code" where
  "packet_code_of (P_Ok _) = PC_Ok"
| "packet_code_of (P_Error _) = PC_Error"
| "packet_code_of (P_ContactStart _) = PC_ContactStart"
| "packet_code_of (P_Contact _) = PC_Contact"
| "packet_code_of (P_ContactEnd _) = PC_ContactEnd"
| "packet_code_of (P_SelfInfo _) = PC_SelfInfo"
| "packet_code_of (P_MsgSent _ _ _) = PC_MsgSent"
| "packet_code_of (P_ContactMsg _) = PC_ContactMsgRecv"
| "packet_code_of (P_ChannelMsg _) = PC_ChannelMsgRecv"
| "packet_code_of (P_CurrentTime _) = PC_CurrentTime"
| "packet_code_of P_NoMoreMsgs = PC_NoMoreMsgs"
| "packet_code_of (P_ContactUri _) = PC_ContactUri"
| "packet_code_of (P_Battery _) = PC_Battery"
| "packet_code_of (P_DeviceInfo _) = PC_DeviceInfo"
| "packet_code_of (P_PrivateKey _) = PC_PrivateKey"
| "packet_code_of P_Disabled = PC_Disabled"
| "packet_code_of (P_SignStart _) = PC_SignStart"
| "packet_code_of (P_Signature _) = PC_Signature"
| "packet_code_of (P_ChannelInfo _) = PC_ChannelInfo"
| "packet_code_of (P_TuningParams _) = PC_TuningParams"
| "packet_code_of (P_CustomVariables _) = PC_CustomVars"
| "packet_code_of (P_AdvertPath _) = PC_AdvertPath"
| "packet_code_of (P_DeviceStats _) = PC_Stats"
| "packet_code_of (P_AutoAddConfig _) = PC_AutoaddConfig"
| "packet_code_of (P_AllowedRepeatFrequencies _) = PC_AllowedRepeatFreq"
| "packet_code_of (P_DefaultFloodScope _) = PC_DefaultFloodScope"
| "packet_code_of (P_Ack _) = PC_Ack"
| "packet_code_of P_MessagesWaiting = PC_MessagesWaiting"
| "packet_code_of (P_LoginSuccess _) = PC_LoginSuccess"
| "packet_code_of (P_LoginFailed _) = PC_LoginFailed"
| "packet_code_of (P_RemoteStatus _) = PC_StatusResponse"
| "packet_code_of (P_TelemetryResponse _) = PC_TelemetryResponse"
| "packet_code_of (P_BinaryResponse _) = PC_BinaryResponse"
| "packet_code_of (P_ControlData _) = PC_ControlData"
| "packet_code_of (P_PathDiscovery _) = PC_PathDiscoveryResponse"
| "packet_code_of (P_Unknown c _) = packet_code_from_u8 c"

section \<open>Specification\<close>

text \<open>
  What every parsed packet satisfies, beyond its type; the code a packet is reported under (the
  two message layouts are not distinguished); the wire forms of the two repeated payloads; and
  the degrees a coordinate on the wire stands for.
\<close>

definition prefix_wf :: "byte list \<Rightarrow> bool" where
  "prefix_wf p \<longleftrightarrow> length p = 6"

definition device_info_wf :: "device_info \<Rightarrow> bool" where
  "device_info_wf i \<longleftrightarrow>
     (let v = protocol_version i in
      (max_contacts i \<noteq> None) = (v \<ge> 3) \<and> (max_channels i \<noteq> None) = (v \<ge> 3) \<and>
      (ble_pin i \<noteq> None) = (v \<ge> 3) \<and> (firmware_build i \<noteq> None) = (v \<ge> 3) \<and>
      (di_model i \<noteq> None) = (v \<ge> 3) \<and> (firmware_version i \<noteq> None) = (v \<ge> 3) \<and>
      (repeat_enabled i \<noteq> None) = (v \<ge> 9) \<and> (path_hash_mode i \<noteq> None) = (v \<ge> 10) \<and>
      pred_option (text_wf 12) (firmware_build i) \<and> pred_option (text_wf 40) (di_model i) \<and>
      pred_option (text_wf 20) (firmware_version i))"

definition range_wf :: "frequency_range \<Rightarrow> bool" where
  "range_wf r \<longleftrightarrow> 0 < lower_khz r \<and> lower_khz r \<le> upper_khz r"

fun packet_wf :: "packet \<Rightarrow> bool" where
  "packet_wf (P_Contact c) = contact_wf c"
| "packet_wf (P_SelfInfo i) =
     (public_key_wf (si_public_key i) \<and> text_wf 118 (si_name i) \<and> telemetry_mode_env i \<le> 3 \<and>
      telemetry_mode_loc i \<le> 3 \<and> telemetry_mode_base i \<le> 3)"
| "packet_wf (P_MsgSent _ expected_ack _) = (length expected_ack = 4)"
| "packet_wf (P_ContactMsg m) = (message_wf m \<and> (\<exists>p. msg_source m = Direct p))"
| "packet_wf (P_ChannelMsg m) = (message_wf m \<and> (\<exists>i. msg_source m = Channel i) \<and> msg_signature m = None)"
| "packet_wf (P_ContactUri u) = (card_bytes u \<noteq> [])"
| "packet_wf (P_Battery b) = ((used_kb b = None) = (total_kb b = None))"
| "packet_wf (P_DeviceInfo i) = device_info_wf i"
| "packet_wf (P_PrivateKey k) = (length (expose_secret k) = 64)"
| "packet_wf (P_Signature s) = (length (signature_bytes s) = 64)"
| "packet_wf (P_ChannelInfo i) = (text_wf 32 (ci_name i) \<and> (\<exists>s. ci_secret i = Some s \<and> length s = 16))"
| "packet_wf (P_CustomVariables v) = custom_variables_wf v"
| "packet_wf (P_AdvertPath p) = route_wf (ap_route p) (ap_path p)"
| "packet_wf (P_AutoAddConfig c) = pred_option (\<lambda>h. h \<le> 64) (max_hops c)"
| "packet_wf (P_AllowedRepeatFrequencies rs) = list_all range_wf rs"
| "packet_wf (P_DefaultFloodScope s) =
     (case s of Unconfigured \<Rightarrow> True
      | Configured c \<Rightarrow> (\<exists>n. scope_name c = Some n \<and> n \<noteq> [] \<and> text_wf 30 n) \<and> length (scope_key c) = 16)"
| "packet_wf (P_Ack a) = (length (a_code a) = 4)"
| "packet_wf (P_LoginSuccess s) = prefix_wf (ls_pubkey_prefix s)"
| "packet_wf (P_LoginFailed p) = prefix_wf p"
| "packet_wf (P_RemoteStatus s) = prefix_wf (rst_pubkey_prefix s)"
| "packet_wf (P_TelemetryResponse r) = prefix_wf (tr_pubkey_prefix r)"
| "packet_wf (P_BinaryResponse r) = (length (br_tag r) = 4)"
| "packet_wf (P_ControlData d) = (cd_payload d \<noteq> [])"
| "packet_wf (P_PathDiscovery p) =
     (prefix_wf (pd_pubkey_prefix p) \<and> route_wf (outbound_route p) (outbound_path p) \<and>
      route_wf (inbound_route p) (inbound_path p))"
| "packet_wf _ = True"

definition canonical_code :: "packet_code \<Rightarrow> packet_code" where
  "canonical_code c = (if c = PC_ContactMsgRecvV3 then PC_ContactMsgRecv
     else if c = PC_ChannelMsgRecvV3 then PC_ChannelMsgRecv else c)"

definition custom_pair :: "custom_variable \<Rightarrow> rstr" where
  "custom_pair e = cv_key e @ 0x3a # cv_value e"

definition custom_pair_ok :: "custom_variable \<Rightarrow> bool" where
  "custom_pair_ok e \<longleftrightarrow>
     cv_key e \<noteq> [] \<and> cv_value e \<noteq> [] \<and> set (cv_key e) \<inter> {0, 0x3a} = {} \<and> set (cv_value e) \<inter> {0, 0x3a} = {}"

definition render_custom_vars :: "custom_variable list \<Rightarrow> rstr" where
  "render_custom_vars es = join 0x2c (map custom_pair es)"

definition encode_range :: "frequency_range \<Rightarrow> byte list" where
  "encode_range r = u32_to_le_bytes (lower_khz r) @ u32_to_le_bytes (upper_khz r)"

definition unscale :: "i32 \<Rightarrow> f64" where
  "unscale w = flt_div 53 (flt_of_int 53 (sint w)) (Finite 1000000)"

section \<open>Reading inside a packet\<close>

lemma read_u32_in [simp, reads]:
  "offset + 3 < length raw \<Longrightarrow>
   read_u32 raw offset k =
     k (u32_from_le_bytes (raw ! offset) (raw ! (offset + 1)) (raw ! (offset + 2)) (raw ! (offset + 3)))"
  by (simp add: read_u32_def)

lemma read_u16_in [simp, reads]:
  "offset + 1 < length raw \<Longrightarrow>
   read_u16 raw offset k = k (u16_from_le_bytes (raw ! offset) (raw ! (offset + 1)))"
  by (simp add: read_u16_def)

lemma read_i16_in [simp, reads]:
  "offset + 1 < length raw \<Longrightarrow>
   read_i16 raw offset k = k (u16_from_le_bytes (raw ! offset) (raw ! (offset + 1)))"
  by (simp add: read_i16_def)

lemma read_scaled_in [simp, reads]:
  "offset + 3 < length raw \<Longrightarrow>
   read_scaled raw offset k =
     k (parse_scaled_i32 (raw ! offset) (raw ! (offset + 1)) (raw ! (offset + 2)) (raw ! (offset + 3)))"
  by (simp add: read_scaled_def)

lemma rbind_require_len [parsers]:
  "rbind (require_len raw n code) k =
     (if length raw < n then Err (InvalidPacketLength (Raw (packet_code_to_u8 code)) n (length raw))
      else k ())"
  by (simp add: require_len_def)

lemma rbind_require_exact_len [parsers]:
  "rbind (require_exact_len raw n code) k =
     (if length raw < n then Err (InvalidPacketLength (Raw (packet_code_to_u8 code)) n (length raw))
      else if length raw \<noteq> n then Err (Malformed ''packet contains unexpected trailing bytes'')
      else k ())"
  by (simp add: require_exact_len_def require_len_def)

lemma decode_padded_string_until:
  "decode_padded_string raw ctxt =
     (if utf8 (until_nul raw) then Ok (until_nul raw) else Err (InvalidUtf8Payload ctxt))"
proof (cases "position 0 raw")
  case None
  then show ?thesis
    by (simp add: decode_padded_string_def until_nul_def del: position_eq_None)
next
  case (Some i)
  then have "i < length raw" by (simp add: position_eq_Some)
  with Some show ?thesis by (simp add: decode_padded_string_def until_nul_def)
qed

lemma decode_padded_string_not_Panic [simp]: "decode_padded_string raw ctxt \<noteq> Panic"
  by (simp add: decode_padded_string_until)

lemma decode_text_not_Panic [simp]: "decode_text raw ctxt \<noteq> Panic"
  by (simp add: decode_text_def)

lemma try_from_bytes_not_Panic [simp]:
  "path_try_from_bytes bytes \<noteq> Panic" "public_key_try_from_bytes bytes \<noteq> Panic"
  "private_key_try_from_bytes bytes \<noteq> Panic" "signature_try_from_bytes bytes \<noteq> Panic"
  by (simp_all add: path_try_from_bytes_def public_key_try_from_bytes_def
      private_key_try_from_bytes_def signature_try_from_bytes_def)

lemma unat_hops_le: "unat ((d :: byte) AND 0x3f) \<le> 63"
proof -
  have "d AND 0x3f \<le> 0x3f" by (rule word_and_le1)
  then show ?thesis by (simp add: word_le_nat_alt)
qed

lemma unat_mode_le: "unat (drop_bit 6 (d :: byte)) \<le> 3"
proof -
  have "unat d < 2 ^ LENGTH(8)" by (rule unsigned_less)
  then show ?thesis unfolding unat_drop_bit_eq by (simp add: drop_bit_eq_div)
qed

lemma contact_route_of_len: "snd (contact_route_of d) \<le> 252"
proof (cases "d = 0xff")
  case False
  have "unat (d AND 0x3f) * (unat (drop_bit 6 d) + 1) \<le> 63 * 4"
    using unat_hops_le [of d] unat_mode_le [of d] by (intro mult_le_mono) auto
  with False show ?thesis unfolding contact_route_of_def Let_def by simp
qed (simp add: contact_route_of_def)

section \<open>No parser panics\<close>

lemmas simple_parsers =
  parse_ok_def parse_error_packet_def parse_private_key_def parse_disabled_def parse_sign_start_def
  parse_signature_def parse_login_success_def parse_login_failed_def parse_telemetry_response_def
  parse_binary_response_def parse_control_data_def parse_contact_start_def parse_contact_end_def
  parse_msg_sent_def parse_current_time_def parse_contact_uri_def parse_battery_def
  parse_tuning_params_def parse_auto_add_config_def parse_ack_def

lemma slice_tail [simp, reads]: "raw \<noteq> [] \<Longrightarrow> slice raw (Suc 0) (length raw) k = k (tl raw)"
  by (cases raw) (simp_all add: slice_def)

lemma fixed_parsers_not_Panic: "parse_private_key raw \<noteq> Panic" "parse_disabled raw \<noteq> Panic" "parse_sign_start raw \<noteq> Panic"
  "parse_signature raw \<noteq> Panic" "parse_login_success raw \<noteq> Panic" "parse_login_failed raw \<noteq> Panic"
  "parse_telemetry_response raw \<noteq> Panic" "parse_binary_response raw \<noteq> Panic"
  "parse_control_data raw \<noteq> Panic" "parse_contact_start raw \<noteq> Panic" "parse_contact_end raw \<noteq> Panic"
  "parse_msg_sent raw \<noteq> Panic" "parse_current_time raw \<noteq> Panic" "parse_contact_uri x raw \<noteq> Panic"
  "parse_battery raw \<noteq> Panic" "parse_tuning_params raw \<noteq> Panic" "parse_auto_add_config raw \<noteq> Panic"
  "parse_ack raw \<noteq> Panic"
  by (auto simp add: simple_parsers parsers rbind_eq_Panic Let_def)

lemma parse_ok_not_Panic: "parse_ok raw \<noteq> Panic"
  by (auto simp: parse_ok_def split: list.splits)

lemma parse_contact_not_Panic: "parse_contact raw \<noteq> Panic"
  by (auto simp add: parse_contact_def parsers rbind_eq_Panic Let_def split: prod.splits)

lemma parse_self_info_not_Panic: "parse_self_info raw \<noteq> Panic"
  by (simp add: parse_self_info_def parsers rbind_eq_Panic Let_def split: prod.splits)

lemma parse_device_info_not_Panic: "parse_device_info raw \<noteq> Panic"
  by (auto simp add: parse_device_info_def device_info_v3_def parsers rbind_eq_Panic Let_def)

lemma parse_contact_msg_not_Panic: "parse_contact_msg x raw v \<noteq> Panic"
  by (auto simp add: parse_contact_msg_def parsers rbind_eq_Panic Let_def)

lemma parse_channel_msg_not_Panic: "parse_channel_msg raw v \<noteq> Panic"
  by (auto simp add: parse_channel_msg_def parsers rbind_eq_Panic Let_def)

lemma parse_stats_not_Panic: "parse_stats raw \<noteq> Panic"
  by (auto simp add: parse_stats_def parsers rbind_eq_Panic Let_def)

lemma parse_remote_status_not_Panic: "parse_remote_status raw \<noteq> Panic"
  by (auto simp add: parse_remote_status_def parsers rbind_eq_Panic Let_def)

lemma custom_entries_not_Panic: "custom_entries ps es \<noteq> Panic"
  by (induction ps es rule: custom_entries.induct) (auto split: option.splits)

lemma parse_custom_vars_not_Panic: "raw \<noteq> [] \<Longrightarrow> parse_custom_vars raw \<noteq> Panic"
  by (cases raw) (auto simp add: parse_custom_vars_def rbind_eq_Panic custom_entries_not_Panic)

lemma parse_discovered_path_not_Panic: "parse_discovered_path raw c \<noteq> Panic"
  by (auto simp add: parse_discovered_path_def rbind_eq_Panic Let_def split: prod.splits)

lemma parse_path_discovery_not_Panic: "parse_path_discovery raw \<noteq> Panic"
  by (auto simp add: parse_path_discovery_def parsers rbind_eq_Panic parse_discovered_path_not_Panic)

lemma parse_advert_path_not_Panic: "parse_advert_path raw \<noteq> Panic"
  by (auto simp add: parse_advert_path_def parsers rbind_eq_Panic Let_def split: prod.splits)

lemma frequency_ranges_not_Panic: "(\<And>c. c \<in> set cs \<Longrightarrow> length c = 8) \<Longrightarrow> frequency_ranges cs rs \<noteq> Panic"
  by (induction cs rs rule: frequency_ranges.induct) auto

lemma parse_allowed_repeat_frequencies_not_Panic: "raw \<noteq> [] \<Longrightarrow> parse_allowed_repeat_frequencies raw \<noteq> Panic"
  by (cases raw) (auto simp add: parse_allowed_repeat_frequencies_def rbind_eq_Panic frequency_ranges_not_Panic length_chunk_exact)

lemma parse_default_flood_scope_not_Panic: "parse_default_flood_scope raw \<noteq> Panic"
  by (auto simp add: parse_default_flood_scope_def parsers rbind_eq_Panic position_eq_Some split: option.splits)

lemma parse_channel_info_not_Panic: "parse_channel_info x raw \<noteq> Panic"
  by (auto simp add: parse_channel_info_def parsers rbind_eq_Panic)

lemmas parsers_not_Panic = fixed_parsers_not_Panic parse_ok_not_Panic parse_contact_not_Panic parse_self_info_not_Panic parse_device_info_not_Panic parse_contact_msg_not_Panic parse_channel_msg_not_Panic parse_stats_not_Panic parse_remote_status_not_Panic
  parse_custom_vars_not_Panic parse_path_discovery_not_Panic parse_advert_path_not_Panic parse_allowed_repeat_frequencies_not_Panic parse_default_flood_scope_not_Panic parse_channel_info_not_Panic

lemma parse_not_Panic: "parse x raw \<noteq> Panic"
  by (auto simp: parse_def parsers_not_Panic split: packet_code.splits)

section \<open>What the parsers establish\<close>

lemma until_nul_wf: "utf8 (until_nul f) \<Longrightarrow> length f \<le> n \<Longrightarrow> text_wf n (until_nul f)"
  unfolding text_wf_def until_nul_takeWhile
  by (auto dest: set_takeWhileD intro: le_trans [OF length_takeWhile_le])

lemma decode_padded_string_Ok:
  "decode_padded_string f ctxt = Ok s \<longleftrightarrow> s = until_nul f \<and> utf8 (until_nul f)"
  by (auto simp: decode_padded_string_until)

lemma contact_route_of_wf:
  "contact_route_of d = (r, n) \<Longrightarrow> path_wf p \<Longrightarrow> length (path_bytes p) = n \<Longrightarrow> route_wf r p"
  using unat_hops_le [of d] unat_mode_le [of d]
  by (auto simp: contact_route_of_def route_wf_def route_bytes_def Let_def word_le_nat_alt split: if_splits)

lemma path_try_from_bytes_Ok:
  "path_try_from_bytes bs = Ok p \<longleftrightarrow> p = Path bs \<and> length bs \<le> PATH_MAX_BYTES"
  by (auto simp: path_try_from_bytes_def)

lemma public_key_try_from_bytes_Ok:
  "public_key_try_from_bytes bs = Ok k \<longleftrightarrow> k = PublicKey bs \<and> length bs = 32"
  by (auto simp: public_key_try_from_bytes_def)

lemmas parsed_values =
  decode_padded_string_Ok path_try_from_bytes_Ok public_key_try_from_bytes_Ok prefix_wf_def until_nul_wf

lemma parse_ok_wf:
  "parse_ok raw = Ok p \<Longrightarrow> packet_wf p \<and> packet_code_of p = PC_Ok"
  by (auto simp: parse_ok_def split: list.splits)

lemma fixed_parsers_wf:
  "parse_private_key raw = Ok p \<Longrightarrow> packet_wf p \<and> packet_code_of p = PC_PrivateKey"
  "parse_disabled raw = Ok p \<Longrightarrow> packet_wf p \<and> packet_code_of p = PC_Disabled"
  "parse_sign_start raw = Ok p \<Longrightarrow> packet_wf p \<and> packet_code_of p = PC_SignStart"
  "parse_signature raw = Ok p \<Longrightarrow> packet_wf p \<and> packet_code_of p = PC_Signature"
  "parse_login_success raw = Ok p \<Longrightarrow> packet_wf p \<and> packet_code_of p = PC_LoginSuccess"
  "parse_login_failed raw = Ok p \<Longrightarrow> packet_wf p \<and> packet_code_of p = PC_LoginFailed"
  "parse_telemetry_response raw = Ok p \<Longrightarrow> packet_wf p \<and> packet_code_of p = PC_TelemetryResponse"
  "parse_binary_response raw = Ok p \<Longrightarrow> packet_wf p \<and> packet_code_of p = PC_BinaryResponse"
  "parse_control_data raw = Ok p \<Longrightarrow> packet_wf p \<and> packet_code_of p = PC_ControlData"
  "parse_contact_start raw = Ok p \<Longrightarrow> packet_wf p \<and> packet_code_of p = PC_ContactStart"
  "parse_contact_end raw = Ok p \<Longrightarrow> packet_wf p \<and> packet_code_of p = PC_ContactEnd"
  "parse_msg_sent raw = Ok p \<Longrightarrow> packet_wf p \<and> packet_code_of p = PC_MsgSent"
  "parse_current_time raw = Ok p \<Longrightarrow> packet_wf p \<and> packet_code_of p = PC_CurrentTime"
  "parse_contact_uri x raw = Ok p \<Longrightarrow> packet_wf p \<and> packet_code_of p = PC_ContactUri"
  "parse_battery raw = Ok p \<Longrightarrow> packet_wf p \<and> packet_code_of p = PC_Battery"
  "parse_tuning_params raw = Ok p \<Longrightarrow> packet_wf p \<and> packet_code_of p = PC_TuningParams"
  "parse_auto_add_config raw = Ok p \<Longrightarrow> packet_wf p \<and> packet_code_of p = PC_AutoaddConfig"
  "parse_ack raw = Ok p \<Longrightarrow> packet_wf p \<and> packet_code_of p = PC_Ack"
  by (auto simp: simple_parsers parsers prefix_wf_def rbind_eq_Ok Let_def private_key_try_from_bytes_def
     signature_try_from_bytes_def get_def split: if_splits option.splits)

lemma parse_contact_wf: "parse_contact raw = Ok p \<Longrightarrow> packet_wf p \<and> packet_code_of p = PC_Contact"
  by (auto simp: parse_contact_def parsers rbind_eq_Ok Let_def parsed_values contact_wf_def public_key_wf_def path_wf_def
     split: if_splits prod.splits intro!: contact_route_of_wf length_until_nul [THEN le_trans])

lemma parse_self_info_wf: "parse_self_info raw = Ok p \<Longrightarrow> length raw \<le> MAX_INNER_PAYLOAD \<Longrightarrow> packet_wf p \<and> packet_code_of p = PC_SelfInfo"
  by (auto simp: parse_self_info_def parsers rbind_eq_Ok Let_def parsed_values public_key_wf_def MAX_INNER_PAYLOAD_def word_and_le1
     split: if_splits)

lemma parse_contact_msg_wf: "(\<And>bs. utf8 (hex_encode x bs)) \<Longrightarrow> parse_contact_msg x raw v = Ok p \<Longrightarrow> packet_wf p \<and> packet_code_of p = PC_ContactMsgRecv"
  by (auto simp: parse_contact_msg_def parsers rbind_eq_Ok Let_def decode_text_def message_wf_def
     split: if_splits)

lemma parse_channel_msg_wf: "parse_channel_msg raw v = Ok p \<Longrightarrow> packet_wf p \<and> packet_code_of p = PC_ChannelMsgRecv"
  by (auto simp: parse_channel_msg_def parsers rbind_eq_Ok Let_def decode_text_def message_wf_def
     split: if_splits)

lemma parse_stats_wf: "parse_stats raw = Ok p \<Longrightarrow> packet_wf p \<and> packet_code_of p = PC_Stats"
  by (auto simp: parse_stats_def parsers rbind_eq_Ok Let_def
     split: if_splits)

lemma parse_remote_status_wf: "parse_remote_status raw = Ok p \<Longrightarrow> packet_wf p \<and> packet_code_of p = PC_StatusResponse"
  by (auto simp: parse_remote_status_def parsers rbind_eq_Ok Let_def prefix_wf_def
     split: if_splits)

lemma parse_channel_info_wf: "parse_channel_info x raw = Ok p \<Longrightarrow> packet_wf p \<and> packet_code_of p = PC_ChannelInfo"
  by (auto simp: parse_channel_info_def parsers rbind_eq_Ok parsed_values with_secret_def
     split: if_splits)

lemma parse_default_flood_scope_wf: "parse_default_flood_scope raw = Ok p \<Longrightarrow> packet_wf p \<and> packet_code_of p = PC_DefaultFloodScope"
  by (auto simp: parse_default_flood_scope_def parsers rbind_eq_Ok position_eq_Some text_wf_def
     split: if_splits option.splits)

lemma parse_advert_path_wf: "parse_advert_path raw = Ok p \<Longrightarrow> packet_wf p \<and> packet_code_of p = PC_AdvertPath"
  by (auto simp: parse_advert_path_def parsers rbind_eq_Ok Let_def parsed_values path_wf_def intro!: contact_route_of_wf
     split: if_splits prod.splits)

lemma parse_discovered_path_wf: "parse_discovered_path raw c = Ok (r, p, e) \<Longrightarrow> route_wf r p"
  by (auto simp: parse_discovered_path_def rbind_eq_Ok Let_def parsed_values path_wf_def get_range_eq_Some 
     intro!: contact_route_of_wf split: if_splits prod.splits)

lemma parse_path_discovery_wf: "parse_path_discovery raw = Ok p \<Longrightarrow> packet_wf p \<and> packet_code_of p = PC_PathDiscoveryResponse"
  by (auto simp: parse_path_discovery_def parsers rbind_eq_Ok prefix_wf_def split: if_splits dest: parse_discovered_path_wf)

lemma frequency_ranges_wf: "frequency_ranges cs acc = Ok rs \<Longrightarrow> (\<And>c. c \<in> set cs \<Longrightarrow> length c = 8) \<Longrightarrow> list_all range_wf acc \<Longrightarrow> list_all range_wf rs"
  by (induction cs acc rule: frequency_ranges.induct) (auto simp: range_wf_def word_neq_0_conv split: if_splits)

lemma parse_allowed_repeat_frequencies_wf: "parse_allowed_repeat_frequencies raw = Ok p \<Longrightarrow> packet_wf p \<and> packet_code_of p = PC_AllowedRepeatFreq"
  by (auto simp: parse_allowed_repeat_frequencies_def rbind_eq_Ok split: if_splits dest!: frequency_ranges_wf length_chunk_exact)

lemma parse_device_info_wf: "parse_device_info raw = Ok p \<Longrightarrow> packet_wf p \<and> packet_code_of p = PC_DeviceInfo"
  by (auto simp: parse_device_info_def device_info_v3_def parsers rbind_eq_Ok Let_def device_info_wf_def parsed_values split: if_splits)

section \<open>Custom variables\<close>

lemma custom_entries_iff:
  "distinct (map cv_key acc) \<Longrightarrow>
   custom_entries ps acc = Ok es \<longleftrightarrow>
   (\<exists>new. es = acc @ new \<and> ps = map custom_pair new \<and> list_all custom_pair_ok new \<and>
          distinct (map cv_key es))"
proof (induction ps acc rule: custom_entries.induct)
  case (1 entries)
  then show ?case by auto
next
  case (2 pair pairs acc)
  show ?case
  proof
    assume "custom_entries (pair # pairs) acc = Ok es"
    then obtain k v where kv: "split_once 0x3a pair = Some (k, v)"
      and ok: "\<not> (k = [] \<or> v = [] \<or> 0x3a \<in> set v \<or> 0 \<in> set k \<or> 0 \<in> set v)"
      and fresh: "\<not> list_ex (\<lambda>e. cv_key e = k) acc"
      and rest: "custom_entries pairs (acc @ [\<lparr>cv_key = k, cv_value = v\<rparr>]) = Ok es"
      by (auto split: option.splits if_splits prod.splits)
    let ?e = "\<lparr>cv_key = k, cv_value = v\<rparr>"
    from kv have pr: "pair = k @ 0x3a # v" "0x3a \<notin> set k" by (auto simp: split_once_eq_Some)
    from fresh "2.prems" have "distinct (map cv_key (acc @ [?e]))" by (auto simp: list_ex_iff)
    from "2.IH" [OF kv refl ok fresh this] rest obtain new where new: "es = (acc @ [?e]) @ new"
      "pairs = map custom_pair new" "list_all custom_pair_ok new" "distinct (map cv_key es)"
      by blast
    show "\<exists>new. es = acc @ new \<and> pair # pairs = map custom_pair new \<and> list_all custom_pair_ok new \<and>
          distinct (map cv_key es)"
      using new pr ok
      by (intro exI [of _ "?e # new"]) (simp add: custom_pair_def custom_pair_ok_def)
  next
    assume "\<exists>new. es = acc @ new \<and> pair # pairs = map custom_pair new \<and> list_all custom_pair_ok new \<and>
          distinct (map cv_key es)"
    then obtain e new where new: "es = acc @ e # new" "pair = custom_pair e"
      "pairs = map custom_pair new" "custom_pair_ok e" "list_all custom_pair_ok new"
      "distinct (map cv_key es)"
      by (auto simp: Cons_eq_map_conv)
    have kv: "split_once 0x3a pair = Some (cv_key e, cv_value e)"
      using new by (simp add: custom_pair_def custom_pair_ok_def split_once_append)
    have ok: "\<not> (cv_key e = [] \<or> cv_value e = [] \<or> 0x3a \<in> set (cv_value e) \<or> 0 \<in> set (cv_key e) \<or>
        0 \<in> set (cv_value e))"
      using new(4) by (simp add: custom_pair_ok_def)
    have fresh: "\<not> list_ex (\<lambda>e'. cv_key e' = cv_key e) acc"
      unfolding list_ex_iff
    proof
      assume "\<exists>e'\<in>set acc. cv_key e' = cv_key e"
      then have "cv_key e \<in> cv_key ` set acc" by (auto intro: rev_image_eqI)
      with new(1,6) show False by simp
    qed
    have d: "distinct (map cv_key (acc @ [\<lparr>cv_key = cv_key e, cv_value = cv_value e\<rparr>]))"
      using new(1,6) by simp
    have "custom_entries pairs (acc @ [\<lparr>cv_key = cv_key e, cv_value = cv_value e\<rparr>]) = Ok es"
      unfolding "2.IH" [OF kv refl ok fresh d] using new by (intro exI [of _ new]) simp
    with kv ok fresh show "custom_entries (pair # pairs) acc = Ok es" by simp
  qed
qed

lemma custom_pair_utf8:
  "utf8 (custom_pair e) \<Longrightarrow> utf8 (cv_key e) \<and> utf8 (cv_value e)"
  unfolding custom_pair_def by (rule utf8_split_ascii) auto

lemma custom_variable_wf_iff:
  "custom_variable_wf e \<longleftrightarrow> custom_pair_ok e \<and> 0x2c \<notin> set (custom_pair e) \<and> utf8 (custom_pair e)"
proof -
  have "utf8 (custom_pair e) \<longleftrightarrow> utf8 (cv_key e) \<and> utf8 (cv_value e)"
    using custom_pair_utf8 [of e] utf8_append [of "cv_key e" "0x3a # cv_value e"]
    by (auto simp: custom_pair_def)
  then show ?thesis
    by (auto simp: custom_variable_wf_def custom_pair_ok_def custom_pair_def)
qed

lemma split_pairs_iff:
  assumes "content \<noteq> []" "utf8 content"
  shows "split_on 0x2c content = map custom_pair es \<and> list_all custom_pair_ok es \<longleftrightarrow>
         content = render_custom_vars es \<and> list_all custom_variable_wf es"
proof
  assume *: "split_on 0x2c content = map custom_pair es \<and> list_all custom_pair_ok es"
  have "custom_variable_wf e" if "e \<in> set es" for e
  proof -
    from * that have "custom_pair e \<in> set (split_on 0x2c content)" by simp
    with * that assms(2) show ?thesis
      using split_on_no_sep [of "custom_pair e" "0x2c" content] utf8_split_on [of content "0x2c" "custom_pair e"]
      by (auto simp: custom_variable_wf_iff list_all_iff)
  qed
  with * show "content = render_custom_vars es \<and> list_all custom_variable_wf es"
    using join_split_on [of "0x2c :: byte" content] by (simp add: render_custom_vars_def list_all_iff)
next
  assume *: "content = render_custom_vars es \<and> list_all custom_variable_wf es"
  with assms(1) have "es \<noteq> []" by (auto simp: render_custom_vars_def)
  with * have "split_on 0x2c content = map custom_pair es"
    by (auto simp: render_custom_vars_def list_all_iff custom_variable_wf_iff intro!: split_on_join)
  with * show "split_on 0x2c content = map custom_pair es \<and> list_all custom_pair_ok es"
    by (auto simp: list_all_iff custom_variable_wf_iff)
qed

lemma render_eq_Nil: "list_all custom_variable_wf es \<Longrightarrow> render_custom_vars es = [] \<longleftrightarrow> es = []"
  unfolding render_custom_vars_def
  by (subst join_eq_Nil) (auto simp: custom_pair_def)

lemma parse_custom_vars_iff:
  "parse_custom_vars (b # content) = Ok (P_CustomVariables v) \<longleftrightarrow>
   custom_variables_wf v \<and> cvs_raw v = content \<and> content = render_custom_vars (cvs_entries v)"
proof (cases "content = []")
  case True
  then show ?thesis
    using render_eq_Nil [of "cvs_entries v"]
    by (cases v) (auto simp: parse_custom_vars_def custom_variables_wf_def render_custom_vars_def)
next
  case False
  then show ?thesis
    using split_pairs_iff [OF False, of "cvs_entries v"]
      custom_entries_iff [of "[]" "split_on 0x2c content" "cvs_entries v"]
    by (cases v) (auto simp: parse_custom_vars_def custom_variables_wf_def rbind_eq_Ok)
qed

lemma parse_custom_vars_code: "raw \<noteq> [] \<Longrightarrow> parse_custom_vars raw = Ok p \<Longrightarrow> packet_code_of p = PC_CustomVars"
  by (cases raw) (auto simp: parse_custom_vars_def rbind_eq_Ok split: if_splits)

section \<open>Repeat frequencies\<close>

lemma read_u32_append:
  "read_u32 (a @ u32_to_le_bytes w @ b) (length a) k = k w"
  using u32_le_roundtrip [of w] by (simp add: nth_append)

lemma read_encode_range:
  "read_u32 (encode_range r) 0 k = k (lower_khz r)" "read_u32 (encode_range r) 4 k = k (upper_khz r)"
  using read_u32_append [of "[]" "lower_khz r" "u32_to_le_bytes (upper_khz r)" k]
    read_u32_append [of "u32_to_le_bytes (lower_khz r)" "upper_khz r" "[]" k]
  by (simp_all add: encode_range_def)

lemma encode_range_ex: "length c = 8 \<Longrightarrow> \<exists>r. c = encode_range r"
proof -
  assume "length c = 8"
  then obtain b0 b1 b2 b3 b4 b5 b6 b7 where "c = [b0, b1, b2, b3, b4, b5, b6, b7]"
    by (auto simp: numeral_eq_Suc length_Suc_conv)
  then have "c = encode_range \<lparr>lower_khz = u32_from_le_bytes b0 b1 b2 b3, upper_khz = u32_from_le_bytes b4 b5 b6 b7\<rparr>"
    by (simp add: encode_range_def u32_le_inverse)
  then show ?thesis by blast
qed

lemma frequency_ranges_encoded:
  "frequency_ranges (map encode_range rs) acc =
     (if list_all range_wf rs then Ok (acc @ rs) else Err (Malformed ''repeat-frequency range is invalid''))"
  by (induction rs arbitrary: acc)
    (auto simp: read_encode_range range_wf_def word_neq_0_conv)

lemma length_encode_range [simp]: "length (encode_range r) = 8"
  by (simp add: encode_range_def)

lemma concat_encode_range_ex: 
  assumes "8 dvd length body" shows "\<exists>rs. body = concat (map encode_range rs)"
proof -
  have "\<forall>c\<in>set (chunks_exact 8 body). \<exists>r. c = encode_range r"
    using length_chunk_exact encode_range_ex by blast
  then obtain rs where "chunks_exact 8 body = map encode_range rs"
    using ex_map_conv [of "chunks_exact 8 body" encode_range] by metis
  with concat_chunks_exact [of 8 body] assms show ?thesis by auto
qed

lemma chunks_encode_range: "chunks_exact 8 (concat (map encode_range rs)) = map encode_range rs"
  by (rule chunks_exact_concat) auto

lemma length_concat_encode_range: "length (concat (map encode_range rs)) = 8 * length rs"
  by (induction rs) auto

lemma inj_encode_range: "inj encode_range"
proof (rule injI)
  fix q r assume e: "encode_range q = encode_range r"
  have "lower_khz q = lower_khz r" "upper_khz q = upper_khz r"
    using arg_cong [OF e, of "\<lambda>c. read_u32 c 0 (Ok :: u32 \<Rightarrow> (unit, u32) result)"]
      arg_cong [OF e, of "\<lambda>c. read_u32 c 4 (Ok :: u32 \<Rightarrow> (unit, u32) result)"]
    by (simp_all only: read_encode_range result.inject)
  then show "q = r" by simp
qed

lemma parse_frequencies_encoded:
  "parse_allowed_repeat_frequencies (b # concat (map encode_range rs)) =
     (if list_all range_wf rs then Ok (P_AllowedRepeatFrequencies rs)
      else Err (Malformed ''repeat-frequency range is invalid''))"
  by (simp add: parse_allowed_repeat_frequencies_def frequency_ranges_encoded chunks_encode_range
      length_concat_encode_range del: length_concat)

lemma parse_frequencies_iff:
  "parse_allowed_repeat_frequencies (b # body) = Ok p \<longleftrightarrow>
     (\<exists>rs. p = P_AllowedRepeatFrequencies rs \<and> body = concat (map encode_range rs) \<and> list_all range_wf rs)"
proof (cases "8 dvd length body")
  case True
  then obtain rs where rs: "body = concat (map encode_range rs)" using concat_encode_range_ex by blast
  have inj: "concat (map encode_range rs) = concat (map encode_range rs') \<longleftrightarrow> rs = rs'" for rs'
    using chunks_encode_range [of rs'] chunks_encode_range [of rs]
    by (metis inj_map_eq_map [OF inj_encode_range])
  show ?thesis unfolding rs parse_frequencies_encoded inj by auto
next
  case False
  have "body \<noteq> concat (map encode_range rs)" for rs
    using False length_concat_encode_range [of rs] by (metis dvd_triv_left)
  with False show ?thesis by (simp add: parse_allowed_repeat_frequencies_def)
qed

section \<open>Commands the device reports back\<close>

lemma encode_contact_route_roundtrip:
  assumes "encode_contact_route r p = Ok d"
  shows "contact_route_of d = (r, length (path_bytes p)) \<and> length (path_bytes p) \<le> 64"
proof (cases r)
  case Flood
  with assms show ?thesis
    by (auto simp: encode_contact_route_def contact_route_of_def split: if_splits)
next
  case (RoutePath m h)
  with assms have m: "m \<le> 2" and h: "h \<le> 63" and d: "d = push_bit 6 m OR h"
    and l: "length (path_bytes p) = unat h * (unat m + 1)" "length (path_bytes p) \<le> 64"
    by (auto simp: encode_contact_route_def Let_def split: if_splits)
  have "h AND mask 6 = h" using h by (intro less_mask_eq) (simp add: word_le_nat_alt word_less_nat_alt)
  then have high: "n < 6" if "bit h n" for n
    using that by (metis bit_and_iff bit_mask_iff)
  have "m AND mask 2 = m" using m by (intro less_mask_eq) (simp add: word_le_nat_alt word_less_nat_alt)
  then have "n < 2" if "bit m n" for n
    using that by (metis bit_and_iff bit_mask_iff)
  then have mode: "drop_bit 6 d = m"
    using high by (intro bit_word_eqI) (auto simp: d bit_simps dest: high)
  moreover have "d AND mask 6 = h"
    using high by (intro bit_word_eqI) (auto simp: d bit_simps not_less)
  moreover have "d \<noteq> 0xff" using mode m by auto
  ultimately show ?thesis using RoutePath l by (simp add: contact_route_of_def Let_def mask_eq_exp_minus_1)
qed

lemma until_nul_resize [simp]: "length n \<le> 32 \<Longrightarrow> 0 \<notin> set n \<Longrightarrow> until_nul (resize 32 n) = n"
  using until_nul_pad [of n 32] by (simp add: resize_def pad_to_def)

lemma resize_pad: "length xs \<le> n \<Longrightarrow> resize n xs = xs @ replicate (n - length xs) 0"
  by (simp add: resize_def)

lemma channel_slot: "(replicate 49 0)[0 := i] = i # replicate 48 (0 :: byte)"
  by (simp add: numeral_eq_Suc)

lemma set_channel_roundtrip:
  assumes "cmd_set_channel i name secret = Ok c" "utf8 name"
  shows "parse_channel_info x (b # cmd_payload c) = Ok (P_ChannelInfo (with_secret x i name (Some secret)))"
proof -
  from assms(1) have n: "length name \<le> 31" "0 \<notin> set name" and s: "length secret = 16"
    and c: "cmd_payload c = i # pad_to 32 name @ secret"
    by (auto simp: cmd_set_channel_def rbind_eq_Ok validate_text_field_eq_Ok checked_eq_Ok
        copy_from_slice_def pad_to_def channel_slot split: if_splits)
  then show ?thesis
    using assms(2) until_nul_pad [OF n(2), of 32]
    by (simp add: parse_channel_info_def parsers decode_padded_string_until)
qed

lemma set_default_scope_roundtrip:
  assumes "cmd_set_default_flood_scope name key = Ok c" "utf8 name"
  shows "parse_default_flood_scope (b # cmd_payload c) =
     Ok (P_DefaultFloodScope (Configured \<lparr>scope_name = Some name, scope_key = key\<rparr>))"
proof -
  from assms(1) have n: "name \<noteq> []" "length name \<le> 30" "0 \<notin> set name" and s: "length key = 16"
    and c: "cmd_payload c = pad_to 31 name @ key"
    by (auto simp: cmd_set_default_flood_scope_def rbind_eq_Ok validate_text_field_eq_Ok checked_eq_Ok
        copy_from_slice_def pad_to_def split: if_splits)
  have "position 0 (pad_to 31 name) = Some (length name)"
    unfolding pad_to_def using n by (auto simp: position_eq_Some nth_append)
  then show ?thesis
    using assms(2) n c s by (simp add: parse_default_flood_scope_def parsers) (simp add: pad_to_def)
qed

lemma auto_add_roundtrip:
  assumes "cmd_set_auto_add_config cfg = Ok c"
  shows "parse_auto_add_config (b # cmd_payload c) = Ok (P_AutoAddConfig cfg)"
  using assms
  by (cases cfg)
    (auto simp: cmd_set_auto_add_config_def parse_auto_add_config_def checked_eq_Ok get_def split: if_splits option.splits)

lemma update_contact_payload:
  assumes "cmd_update_contact c = Ok cmd" and wf: "public_key_wf (c_public_key c)"
  obtains d lat lon where
    "scaled_coordinate (c_adv_lat c) (- 90) 90 ''latitude'' = Ok lat"
    "scaled_coordinate (c_adv_lon c) (- 180) 180 ''longitude'' = Ok lon"
    "contact_route_of d = (c_route c, length (path_bytes (c_out_path c)))"
    "length (path_bytes (c_out_path c)) \<le> 64"
    "length (c_adv_name c) \<le> 31" "0 \<notin> set (c_adv_name c)"
    "cmd_payload cmd = key_bytes (c_public_key c) @ [contact_type_to_u8 (c_type c), c_flags c, d] @
       pad_to 64 (path_bytes (c_out_path c)) @ pad_to 32 (c_adv_name c) @
       u32_to_le_bytes (c_last_advert c) @ u32_to_le_bytes lat @ u32_to_le_bytes lon"
proof -
  from assms(1) obtain d lat lon where
    ok: "length (c_adv_name c) \<le> 31" "0 \<notin> set (c_adv_name c)"
    and d: "encode_contact_route (c_route c) (c_out_path c) = Ok d"
    and ll: "scaled_coordinate (c_adv_lat c) (- 90) 90 ''latitude'' = Ok lat"
      "scaled_coordinate (c_adv_lon c) (- 180) 180 ''longitude'' = Ok lon"
    and p: "cmd_payload cmd = resize 131 (resize 99 (key_bytes (c_public_key c) @
        [contact_type_to_u8 (c_type c)] @ [c_flags c] @ [d] @ path_bytes (c_out_path c)) @ c_adv_name c) @
        u32_to_le_bytes (c_last_advert c) @ u32_to_le_bytes lat @ u32_to_le_bytes lon"
    by (auto simp: cmd_update_contact_def rbind_eq_Ok validate_text_field_eq_Ok checked_eq_Ok Let_def
        split: if_splits)
  note r = encode_contact_route_roundtrip [OF d]
  show ?thesis
    using wf ok r
    by (intro that [OF ll]) (auto simp: p resize_def pad_to_def public_key_wf_def)
qed

lemma parse_contact_layout:
  assumes "length key = 32" "length pth \<le> 64" "length name \<le> 31" "0 \<notin> set name" "utf8 name"
    and "contact_route_of d = (r, length pth)"
  shows "parse_contact (b # key @ [t, f, d] @ pad_to 64 pth @ pad_to 32 name @
           u32_to_le_bytes adv @ u32_to_le_bytes lat @ u32_to_le_bytes lon @ u32_to_le_bytes m) =
         Ok (P_Contact \<lparr>c_public_key = PublicKey key, c_type = contact_type_from_u8 t, c_flags = f,
           c_route = r, c_out_path = Path pth, c_adv_name = name, c_last_advert = adv,
           c_adv_lat = unscale lat, c_adv_lon = unscale lon, c_lastmod = m\<rparr>)"
  using assms u32_le_roundtrip [of adv] u32_le_roundtrip [of lat] u32_le_roundtrip [of lon] u32_le_roundtrip [of m]
  by (simp add: parse_contact_def parsers nth_append nth_Cons' decode_padded_string_until
      public_key_try_from_bytes_def path_try_from_bytes_def PATH_MAX_BYTES_def parse_scaled_i32_def unscale_def
      until_nul_pad) (simp add: pad_to_def)

section \<open>Coordinates\<close>

lemma unscale_eq: "unscale w = Finite (round_to 53 (of_int (sint w) / 1000000))"
proof -
  have "\<bar>sint w\<bar> < 2 ^ 53"
    using sint_range_size [of w] by (auto simp: word_size abs_less_iff)
  then have "flt_of_int 53 (sint w) = Finite (of_int (sint w))"
    unfolding flt_of_int_def by (subst round_to_int) auto
  then show ?thesis by (simp add: unscale_def)
qed

lemma scaled_coordinate_Ok:
  "scaled_coordinate (Finite y) lo hi f = Ok v \<longleftrightarrow>
   of_int lo \<le> y \<and> y \<le> of_int hi \<and> v = as_i32 (Finite (round_to 53 (y * 1000000)))"
  by (auto simp: scaled_coordinate_def is_finite_def)

lemma sint_as_i32: "\<bar>trunc z\<bar> < 2 ^ 31 \<Longrightarrow> sint (as_i32 (Finite z)) = trunc z"
proof -
  assume a: "\<bar>trunc z\<bar> < 2 ^ 31"
  then have "max (- (2 ^ 31)) (min (2 ^ 31 - 1) (trunc z)) = trunc z" by (simp add: abs_less_iff)
  then have "as_i32 (Finite z) = word_of_int (trunc z)" by (simp only: as_i32.simps)
  then have "sint (as_i32 (Finite z)) = signed_take_bit 31 (trunc z)"
    by (simp only: sint_sbintrunc') simp
  also have "\<dots> = trunc z" using a by (intro signed_take_bit_int_eq_self) (auto simp: abs_less_iff)
  finally show ?thesis .
qed

lemma rounded_bound:
  assumes "\<bar>round_to 53 x\<bar> \<le> 180" shows "\<bar>x\<bar> < 200"
proof -
  have "\<bar>x\<bar> - \<bar>round_to 53 x\<bar> \<le> \<bar>x\<bar> / 2 ^ 53"
    using round_to_err [of 53 x] by linarith
  then show ?thesis using assms by (simp add: field_simps)
qed

lemma rescale_drift_int:
  fixes n :: int and lo hi :: int
  assumes y: "of_int lo \<le> round_to 53 (of_int n / 1000000)" "round_to 53 (of_int n / 1000000) \<le> of_int hi"
    and b: "- 180 \<le> lo" "hi \<le> 180"
  shows "sint (as_i32 (Finite (round_to 53 (round_to 53 (of_int n / 1000000) * 1000000)))) \<in>
         {n, n - sgn n}"
proof -
  let ?z = "round_to 53 (round_to 53 (of_int n / 1000000) * 1000000)"
  have "(- 180 :: rat) \<le> of_int lo" "of_int hi \<le> (180 :: rat)"
    using b by linarith+
  with y have "\<bar>round_to 53 (of_int n / 1000000)\<bar> \<le> 180" by linarith
  then have "\<bar>of_int n / 1000000 :: rat\<bar> < 200" by (rule rounded_bound)
  then have "\<bar>of_int n :: rat\<bar> < of_int 200000000" by (simp add: abs_if split: if_splits)
  then have n: "\<bar>n\<bar> < 200000000" by (simp only: of_int_abs [symmetric] of_int_less_iff)
  then have "\<bar>?z - of_int n\<bar> < 1 / 2" by (intro scale_back_err) simp
  then have t: "trunc ?z \<in> {n, n - sgn n}" using trunc_near by blast
  then have "\<bar>trunc ?z\<bar> < 2 ^ 31" using n by (auto simp: sgn_if split: if_splits)
  with t show ?thesis by (simp only: sint_as_i32)
qed

lemma rescale_drift:
  assumes "scaled_coordinate (unscale w) lo hi f = Ok v" "- 180 \<le> lo" "hi \<le> 180"
  shows "sint v \<in> {sint w, sint w - sgn (sint w)}"
  using assms rescale_drift_int [of lo "sint w" hi]
  by (simp only: unscale_eq scaled_coordinate_Ok)

end
