(* ===== verification/Framing.thy ===== *)
theory Framing
  imports Command
begin

text \<open>
  The outer serial/TCP envelope of \<^verbatim>\<open>meshquill-core/src/framing.rs\<close> and the framed stream of
  \<^verbatim>\<open>meshquill-transport/src/framed.rs\<close>. A \<^verbatim>\<open>BytesMut\<close> buffer is the list of its bytes
  (\<^verbatim>\<open>advance(n)\<close> drops the first \<open>n\<close>, the \<^verbatim>\<open>put\<close> operations append). The stream being read is
  the list of results its \<^verbatim>\<open>read\<close> calls deliver, so an exhausted list is a read that never becomes
  ready. The reference semantics of a byte stream is \<open>frames_of\<close>.
\<close>

section \<open>Frames\<close>

definition MAX_OUTER_PAYLOAD :: nat where
  "MAX_OUTER_PAYLOAD = 300"

definition APP_FRAME_PREFIX :: byte where
  "APP_FRAME_PREFIX = 0x3c"

definition DEVICE_FRAME_PREFIX :: byte where
  "DEVICE_FRAME_PREFIX = 0x3e"

lemmas frame_consts =
  MAX_OUTER_PAYLOAD_def MAX_INNER_PAYLOAD_def APP_FRAME_PREFIX_def DEVICE_FRAME_PREFIX_def

datatype outbound_frame = OutboundFrame (out_payload: "byte list")
datatype inbound_frame = InboundFrame (in_payload: "byte list")

definition outbound_frame_new :: "byte list \<Rightarrow> outbound_frame outcome" where
  "outbound_frame_new payload =
     (if length payload > MAX_OUTER_PAYLOAD
      then Err (Parse (OversizedPacketPayload (length payload) MAX_OUTER_PAYLOAD))
      else Ok (OutboundFrame payload))"

text \<open>\<^verbatim>\<open>OuterEncoder::encode\<close> appends to its destination.\<close>

definition encode_frame :: "outbound_frame \<Rightarrow> byte list \<Rightarrow> byte list outcome" where
  "encode_frame item dst =
     (let n = length (out_payload item) in
      if \<not> n < 2 ^ 16 then Err (Parse (OversizedPacketPayload n MAX_OUTER_PAYLOAD))
      else if n > MAX_OUTER_PAYLOAD then Err (Parse (OversizedPacketPayload n MAX_OUTER_PAYLOAD))
      else Ok (dst @ [APP_FRAME_PREFIX] @ u16_to_le_bytes (of_nat n) @ out_payload item))"

definition find_device_prefix :: "byte list \<Rightarrow> nat option" where
  "find_device_prefix src = position DEVICE_FRAME_PREFIX src"

text \<open>
  \<^verbatim>\<open>OuterDecoder::decode\<close>: the result, and the buffer it leaves behind. The comparison of
  \<open>prefix_pos\<close> with the length is made after the buffer has been advanced, as in the source.
\<close>

definition decode :: "byte list \<Rightarrow> inbound_frame option outcome \<times> byte list" where
  "decode src0 =
     (if src0 = [] then (Ok None, src0)
      else
        let prefix_pos =
              (if src0 ! 0 = DEVICE_FRAME_PREFIX then 0
               else case find_device_prefix src0 of Some p \<Rightarrow> p | None \<Rightarrow> length src0);
            src = (if prefix_pos > 0 \<and> prefix_pos < length src0 then drop prefix_pos src0 else src0)
        in if prefix_pos \<ge> length src then (Ok None, [])
           else if length src < 3 then (Ok None, src)
           else
             let declared_len = unat (u16_from_le_bytes (src ! 1) (src ! 2)) in
             if declared_len > MAX_OUTER_PAYLOAD then
               (Err (Parse (OversizedPacketPayload declared_len MAX_OUTER_PAYLOAD)),
                if length src \<ge> 3 + declared_len then drop (3 + declared_len) src else [])
             else if length src < 3 + declared_len then (Ok None, src)
             else (Ok (Some (InboundFrame (take declared_len (drop 3 src)))),
                   drop (3 + declared_len) src))"

definition encode_payload :: "byte list \<Rightarrow> byte list outcome" where
  "encode_payload payload =
     rbind (outbound_frame_new payload) (\<lambda>frame. encode_frame frame [])"

lemma decode_Some_length:
  "decode src = (Ok (Some f), src') \<Longrightarrow> length src' < length src"
  unfolding decode_def Let_def
  by (auto split: if_splits option.splits)

function decode_loop :: "byte list \<Rightarrow> inbound_frame list \<Rightarrow> inbound_frame list outcome" where
  "decode_loop src out =
     (if src = [] then Ok out
      else case decode src of
        (Ok (Some frame), src') \<Rightarrow> decode_loop src' (out @ [frame])
      | (Ok None, _) \<Rightarrow> Ok out
      | (Err e, _) \<Rightarrow> Err e
      | (Panic, _) \<Rightarrow> Panic)"
  by pat_completeness auto
termination
  by (relation "measure (\<lambda>(src, out). length src)") (auto dest: decode_Some_length [OF sym])

declare decode_loop.simps [simp del]

definition decode_frames :: "byte list \<Rightarrow> inbound_frame list outcome" where
  "decode_frames raw = decode_loop raw []"

section \<open>The framed stream\<close>

datatype read_event =
    Chunk "byte list" \<comment> \<open>a completed read; no bytes means end of file\<close>
  | ReadError io_error

datatype 'a polled = Ready 'a | Pending

definition discard_preceding_noise :: "byte list \<Rightarrow> byte list" where
  "discard_preceding_noise buffered =
     (if get buffered 0 = Some DEVICE_FRAME_PREFIX then buffered
      else case position DEVICE_FRAME_PREFIX buffered of
        Some prefix \<Rightarrow> drop prefix buffered
      | None \<Rightarrow> [])"

definition core_codec_error :: "(core_error \<Rightarrow> string) \<Rightarrow> core_error \<Rightarrow> transport_error" where
  "core_codec_error display e =
     (case e of
        Transport t \<Rightarrow> t
      | other \<Rightarrow> Io (IoError InvalidData (''outer frame codec failed: '' @ display other)))"

text \<open>
  \<^verbatim>\<open>FramedReadState::read_from\<close>: the polled result, the buffered bytes and the reads not yet
  consumed. \<open>display\<close> is the \<^verbatim>\<open>Display\<close> implementation the error attribute generates.
\<close>

fun read_from ::
  "(core_error \<Rightarrow> string) \<Rightarrow> byte list \<Rightarrow> read_event list \<Rightarrow>
   (transport_error, byte list option) result polled \<times> byte list \<times> read_event list" where
  "read_from display buffered reads =
     (case decode (discard_preceding_noise buffered) of
        (Ok (Some frame), b) \<Rightarrow> (Ready (Ok (Some (in_payload frame))), b, reads)
      | (Err e, b) \<Rightarrow> (Ready (Err (core_codec_error display e)), b, reads)
      | (Panic, b) \<Rightarrow> (Ready Panic, b, reads)
      | (Ok None, b) \<Rightarrow>
          (case reads of
             [] \<Rightarrow> (Pending, b, [])
           | ReadError e # rest \<Rightarrow> (Ready (Err (Io e)), b, rest)
           | Chunk chunk # rest \<Rightarrow>
               if chunk = [] then
                 (if b = [] then (Ready (Ok None), b, rest)
                  else (Ready (Err (Io (IoError UnexpectedEof
                          (''peer closed with '' @ show_nat (length b) @
                           '' byte(s) of an incomplete outer frame'')))), [], rest))
               else read_from display (b @ chunk) rest))"

declare read_from.simps [simp del]

definition validate_payload :: "byte list \<Rightarrow> (transport_error, unit) result" where
  "validate_payload payload =
     (if length payload > MAX_INNER_PAYLOAD
      then Err (PayloadTooLarge MAX_INNER_PAYLOAD (length payload)) else Ok ())"

text \<open>
  Writing. A writer \<open>'w\<close> is driven by \<open>put\<close>, which performs \<^verbatim>\<open>write_all\<close> and \<^verbatim>\<open>flush\<close> for the given
  bytes and says how they end; \<open>Elapsed\<close> is the timer of \<^verbatim>\<open>time::timeout\<close> firing first. \<open>dur\<close> is the
  timeout as the message prints it.
\<close>

datatype write_outcome = Written | WriteFailed io_error | Elapsed

definition write_framed ::
  "(core_error \<Rightarrow> string) \<Rightarrow> ('w \<Rightarrow> byte list \<Rightarrow> write_outcome \<times> 'w) \<Rightarrow> 'w \<Rightarrow> byte list \<Rightarrow>
   (transport_error, unit) result polled \<times> 'w" where
  "write_framed display put w payload =
     (case rbind (validate_payload payload)
             (\<lambda>_. map_err (core_codec_error display) (encode_payload payload)) of
        Err e \<Rightarrow> (Ready (Err e), w)
      | Panic \<Rightarrow> (Ready Panic, w)
      | Ok encoded \<Rightarrow>
          (case put w encoded of
             (Written, w') \<Rightarrow> (Ready (Ok ()), w')
           | (WriteFailed e, w') \<Rightarrow> (Ready (Err (Io e)), w')
           | (Elapsed, w') \<Rightarrow> (Pending, w')))"

definition write_framed_bounded ::
  "(core_error \<Rightarrow> string) \<Rightarrow> string \<Rightarrow> ('w \<Rightarrow> byte list \<Rightarrow> write_outcome \<times> 'w) \<Rightarrow>
   'w option \<Rightarrow> byte list \<Rightarrow> byte list \<Rightarrow> (transport_error, unit) result \<times> 'w option \<times> byte list" where
  "write_framed_bounded display dur put writer buffered payload =
     (case writer of
        None \<Rightarrow> (Err NotConnected, writer, buffered)
      | Some w \<Rightarrow>
          (case write_framed display put w payload of
             (p, w') \<Rightarrow>
               let r = (case p of Ready r \<Rightarrow> r
                        | Pending \<Rightarrow> Err (Io (IoError TimedOut (''framed write timed out after '' @ dur))))
               in case r of Ok u \<Rightarrow> (Ok u, Some w', buffered) | _ \<Rightarrow> (r, None, [])))"

definition is_terminal_read_error :: "transport_error \<Rightarrow> bool" where
  "is_terminal_read_error e =
     (case e of
        NotConnected \<Rightarrow> True
      | Closed \<Rightarrow> True
      | Io ioe \<Rightarrow> io_kind ioe \<in>
          {ConnectionAborted, ConnectionReset, BrokenPipe, IoNotConnected, UnexpectedEof}
      | _ \<Rightarrow> False)"

definition invalidate_on_terminal_read_error ::
  "'s option \<Rightarrow> byte list \<Rightarrow> transport_error \<Rightarrow> 's option \<times> byte list" where
  "invalidate_on_terminal_read_error stream buffered e =
     (if is_terminal_read_error e then (None, []) else (stream, buffered))"

section \<open>Reference semantics\<close>

text \<open>
  The frames of a complete byte stream and the unfinished tail, or nothing when a header declares
  more than the maximum.
\<close>

definition sync :: "byte list \<Rightarrow> byte list" where
  "sync s = dropWhile (\<lambda>b. b \<noteq> DEVICE_FRAME_PREFIX) s"

lemma sync_simps [simp]:
  "sync [] = []" "sync (x # xs) = (if x = DEVICE_FRAME_PREFIX then x # xs else sync xs)"
  by (simp_all add: sync_def)

lemma length_sync_le: "length (sync s) \<le> length s"
  by (simp add: sync_def length_dropWhile_le)

definition declared :: "byte list \<Rightarrow> nat" where
  "declared s = unat (u16_from_le_bytes (s ! 1) (s ! 2))"

function frames_of :: "byte list \<Rightarrow> (byte list list \<times> byte list) option" where
  "frames_of s =
     (let b = sync s in
      if length b < 3 then Some ([], b)
      else if declared b > MAX_OUTER_PAYLOAD then None
      else if length b < 3 + declared b then Some ([], b)
      else map_option (\<lambda>(ps, r). (take (declared b) (drop 3 b) # ps, r))
             (frames_of (drop (3 + declared b) b)))"
  by pat_completeness auto
termination
proof (relation "measure length")
  fix s b assume "b = sync s" "\<not> length b < 3"
  then show "(drop (3 + declared b) b, s) \<in> measure length"
    using length_sync_le [of s] by auto
qed simp

declare frames_of.simps [simp del]

definition device_frame :: "byte list \<Rightarrow> byte list" where
  "device_frame p = DEVICE_FRAME_PREFIX # u16_to_le_bytes (of_nat (length p)) @ p"

lemma sync_append: "sync (s @ t) = (if sync s = [] then sync t else sync s @ t)"
  by (induction s) auto

lemma sync_sync [simp]: "sync (sync s) = sync s"
  by (induction s) auto

lemma sync_sync_append [simp]: "sync (sync s @ t) = (if sync s = [] then sync t else sync s @ t)"
  by (simp add: sync_append)

lemma frames_of_sync: "frames_of (sync s @ t) = frames_of (s @ t)"
  by (subst (1 2) frames_of.simps) (simp add: sync_append)

lemma declared_append: "3 \<le> length b \<Longrightarrow> declared (b @ t) = declared b"
  by (simp add: declared_def nth_append)

lemma declared_device_frame [simp]:
  "length p \<le> MAX_OUTER_PAYLOAD \<Longrightarrow> declared (device_frame p @ t) = length p"
  by (simp add: declared_def device_frame_def u16_to_le_bytes_def frame_consts)
    (simp add: u16_le_roundtrip [unfolded u16_to_le_bytes_def, simplified] unat_of_nat)

lemma device_frame_simps [simp]:
  "length (device_frame p) = 3 + length p" "sync (device_frame p @ t) = device_frame p @ t"
  "drop (3 + length p) (device_frame p @ t) = t"
  "take (length p) (drop 3 (device_frame p @ t)) = p" "drop 3 (device_frame p) = p"
  "device_frame p \<noteq> []"
  by (simp_all add: device_frame_def u16_to_le_bytes_def numeral_3_eq_3)

lemma frames_of_device_frame:
  assumes "length p \<le> MAX_OUTER_PAYLOAD"
  shows "frames_of (device_frame p @ t) = map_option (\<lambda>(ps, r). (p # ps, r)) (frames_of t)"
  using assms by (subst frames_of.simps) (simp add: Let_def)

lemma frames_of_append:
  "frames_of s = Some (ps, r) \<Longrightarrow>
   frames_of (s @ t) = map_option (\<lambda>(qs, r'). (ps @ qs, r')) (frames_of (r @ t))"
proof (induction s arbitrary: ps rule: frames_of.induct)
  case (1 s)
  let ?b = "sync s"
  have eq: "frames_of (s @ t) = frames_of (?b @ t)" by (simp add: frames_of_sync)
  show ?case
  proof (cases "length ?b < 3 \<or> length ?b < 3 + declared ?b")
    case True
    then have "ps = [] \<and> r = ?b"
      using "1.prems" by (subst (asm) frames_of.simps) (auto simp: Let_def split: if_splits)
    with eq show ?thesis by (simp add: map_option.id [unfolded id_def] case_prod_unfold option.map_ident)
  next
    case False
    then obtain qs where ps: "ps = take (declared ?b) (drop 3 ?b) # qs"
      and fr: "frames_of (drop (3 + declared ?b) ?b) = Some (qs, r)"
      and le: "\<not> declared ?b > MAX_OUTER_PAYLOAD"
      using "1.prems" by (subst (asm) frames_of.simps) (auto simp: Let_def split: if_splits)
    have ne: "?b \<noteq> []" using False by auto
    have "frames_of (?b @ t) =
      map_option (\<lambda>(qs, r). (take (declared ?b) (drop 3 ?b) # qs, r))
        (frames_of (drop (3 + declared ?b) ?b @ t))"
      using False ne le by (subst frames_of.simps) (simp add: Let_def declared_append)
    also have "\<dots> = map_option (\<lambda>(qs, r'). (ps @ qs, r')) (frames_of (r @ t))"
      using "1.IH" [OF refl _ le _ fr] False
      by (simp add: ps option.map_comp comp_def case_prod_unfold)
    finally show ?thesis by (simp add: eq)
  qed
qed

section \<open>The decoder on a synchronised buffer\<close>

lemma discard_preceding_noise_sync: "discard_preceding_noise b = sync b"
proof (induction b)
  case (Cons x xs)
  then show ?case
    by (cases xs)
      (auto simp: discard_preceding_noise_def get_def dest: position_present
        split: option.splits if_splits)
qed (simp add: discard_preceding_noise_def)

lemma sync_Nil_or_prefix: "sync s = [] \<or> sync s ! 0 = DEVICE_FRAME_PREFIX"
  by (induction s) auto

lemma decode_sync:
  "decode (sync s) =
     (let b = sync s in
      if length b < 3 then (Ok None, b)
      else if declared b > MAX_OUTER_PAYLOAD then
        (Err (Parse (OversizedPacketPayload (declared b) MAX_OUTER_PAYLOAD)),
         if length b \<ge> 3 + declared b then drop (3 + declared b) b else [])
      else if length b < 3 + declared b then (Ok None, b)
      else (Ok (Some (InboundFrame (take (declared b) (drop 3 b)))), drop (3 + declared b) b))"
  using sync_Nil_or_prefix [of s] by (auto simp: decode_def Let_def declared_def)

lemma decode_never_panics [simp]: "fst (decode s) \<noteq> Panic"
  by (auto simp: decode_def Let_def split: option.splits)

text \<open>A reader that calls \<open>read_from\<close> until it no longer returns a frame.\<close>

definition pending_bytes :: "byte list \<Rightarrow> read_event list \<Rightarrow> nat" where
  "pending_bytes b reads =
     length b + sum_list (map (\<lambda>r. case r of Chunk c \<Rightarrow> length c | ReadError _ \<Rightarrow> 0) reads)"

lemma read_from_consumes:
  "read_from d b reads = (Ready (Ok (Some p)), b', reads') \<Longrightarrow>
   pending_bytes b' reads' < pending_bytes b reads"
proof (induction reads arbitrary: b)
  case Nil
  then show ?case
    using decode_Some_length [of "sync b"] length_sync_le [of b]
    by (auto simp: read_from.simps [of d b] discard_preceding_noise_sync pending_bytes_def
        split: prod.splits result.splits option.splits)
next
  case (Cons r rest)
  obtain o0 b0 where dec: "decode (sync b) = (o0, b0)" by (cases "decode (sync b)")
  then have b0: "length b0 \<le> length (sync b)"
    unfolding decode_sync by (auto simp: Let_def split: if_splits)
  show ?case
  proof (cases "\<exists>f. o0 = Ok (Some f)")
    case True
    with Cons.prems dec show ?thesis
      using decode_Some_length [of "sync b"] length_sync_le [of b]
      by (auto simp: read_from.simps [of d b] discard_preceding_noise_sync pending_bytes_def)
  next
    case False
    with Cons.prems dec obtain c where c: "r = Chunk c"
      and "read_from d (b0 @ c) rest = (Ready (Ok (Some p)), b', reads')"
      by (auto simp: read_from.simps [of d b] discard_preceding_noise_sync
          split: result.splits option.splits read_event.splits if_splits)
    then have "pending_bytes b' reads' < pending_bytes (b0 @ c) rest" by (intro Cons.IH)
    then show ?thesis using b0 length_sync_le [of b] by (simp add: pending_bytes_def c)
  qed
qed

function read_all ::
  "(core_error \<Rightarrow> string) \<Rightarrow> byte list \<Rightarrow> read_event list \<Rightarrow>
   byte list list \<times> (transport_error, byte list option) result polled \<times> byte list \<times> read_event list"
where
  "read_all d b reads =
     (case read_from d b reads of
        (Ready (Ok (Some p)), b', reads') \<Rightarrow>
          (case read_all d b' reads' of (ps, final) \<Rightarrow> (p # ps, final))
      | final \<Rightarrow> ([], final))"
  by pat_completeness auto
termination
  by (relation "measure (\<lambda>(d, b, reads). pending_bytes b reads)") (auto dest: read_from_consumes [OF sym])

declare read_all.simps [simp del]

lemma read_from_sync: "read_from d (sync b) reads = read_from d b reads"
  by (subst (1 2) read_from.simps) (simp add: discard_preceding_noise_sync)

lemma read_from_refines:
  assumes "frames_of (b @ concat cs) = Some (ps, r)" and "[] \<notin> set cs"
  shows "case ps of
      [] \<Rightarrow> read_from d b (map Chunk cs @ later) = read_from d r later
    | p # ps' \<Rightarrow> \<exists>b' cs'.
        read_from d b (map Chunk cs @ later) = (Ready (Ok (Some p)), b', map Chunk cs' @ later) \<and>
        frames_of (b' @ concat cs') = Some (ps', r) \<and> [] \<notin> set cs'"
  using assms
proof (induction cs arbitrary: b)
  case Nil
  show ?case
  proof (cases "length (sync b) < 3 \<or> length (sync b) < 3 + declared (sync b)")
    case True
    with Nil.prems have "ps = [] \<and> r = sync b"
      by (subst (asm) frames_of.simps) (auto simp: Let_def split: if_splits)
    then show ?thesis by (simp add: read_from_sync)
  next
    case False
    with Nil.prems show ?thesis
      by (subst (asm) frames_of.simps)
        (auto simp: read_from.simps [of d b] discard_preceding_noise_sync decode_sync Let_def
          split: if_splits intro!: exI [of _ "[] :: byte list list"])
  qed
next
  case (Cons c cs)
  let ?b = "sync b"
  have fr: "frames_of (?b @ c @ concat cs) = Some (ps, r)"
    using Cons.prems(1) by (simp add: frames_of_sync)
  show ?case
  proof (cases "length ?b < 3 \<or> declared ?b \<le> MAX_OUTER_PAYLOAD \<and> length ?b < 3 + declared ?b")
    case True
    then have "read_from d b (map Chunk (c # cs) @ later) = read_from d (?b @ c) (map Chunk cs @ later)"
      using Cons.prems(2)
      by (subst read_from.simps) (auto simp: discard_preceding_noise_sync decode_sync Let_def)
    with Cons.IH [of "?b @ c"] fr Cons.prems(2) show ?thesis by (cases ps) auto
  next
    case False
    then have len: "3 \<le> length ?b" by simp
    then have ne: "?b \<noteq> []" by auto
    have "\<not> declared ?b > MAX_OUTER_PAYLOAD"
      using fr ne len by (subst (asm) frames_of.simps) (auto simp: Let_def declared_append)
    with False have le: "declared ?b \<le> MAX_OUTER_PAYLOAD" "3 + declared ?b \<le> length ?b" by auto
    then obtain ps' where ps: "ps = take (declared ?b) (drop 3 ?b) # ps'"
      "frames_of (drop (3 + declared ?b) ?b @ c @ concat cs) = Some (ps', r)"
      using fr ne len by (subst (asm) frames_of.simps) (auto simp: Let_def declared_append)
    moreover have "read_from d b (map Chunk (c # cs) @ later) =
      (Ready (Ok (Some (take (declared ?b) (drop 3 ?b)))), drop (3 + declared ?b) ?b,
       map Chunk (c # cs) @ later)"
      using le len by (subst read_from.simps) (simp add: discard_preceding_noise_sync decode_sync Let_def)
    ultimately show ?thesis using Cons.prems(2) by (auto intro!: exI [of _ "c # cs"])
  qed
qed

lemma frames_of_rest:
  assumes "frames_of s = Some (ps, r)"
  shows "decode (sync r) = (Ok None, r)"
proof -
  have "sync r = r \<and> decode r = (Ok None, r)"
    using assms
  proof (induction s arbitrary: ps rule: frames_of.induct)
    case (1 s)
    show ?case
    proof (cases "length (sync s) < 3 \<or> length (sync s) < 3 + declared (sync s)")
      case True
      with "1.prems" show ?thesis
        by (subst (asm) frames_of.simps) (auto simp: Let_def decode_sync split: if_splits)
    next
      case False
      with "1.prems" "1.IH" [OF refl] show ?thesis
        by (subst (asm) frames_of.simps) (auto simp: Let_def split: if_splits)
    qed
  qed
  then show ?thesis by simp
qed

lemma read_all_refines:
  "frames_of (b @ concat cs) = Some (ps, r) \<Longrightarrow> [] \<notin> set cs \<Longrightarrow>
   read_all d b (map Chunk cs @ later) = (case read_all d r later of (qs, final) \<Rightarrow> (ps @ qs, final))"
proof (induction ps arbitrary: b cs)
  case Nil
  with read_from_refines [of b cs "[]" r d later] show ?case
    by (subst (1 2) read_all.simps) (simp split: prod.splits)
next
  case (Cons p ps)
  with read_from_refines [of b cs "p # ps" r d later] show ?case
    by (subst read_all.simps) (auto split: prod.splits)
qed

section \<open>Properties\<close>

text \<open>C2: the framed reader implements the reference semantics of the byte stream, however the
  stream is cut into non-empty reads: it returns the payloads of the stream's frames in order and
  then waits, holding exactly the unfinished tail; when the peer closes there, it reports a clean
  close exactly when no tail is left, and an unexpected end of file otherwise, with an empty
  buffer. (No header of the stream declares more than 300 bytes.)\<close>

theorem framed_reader_refines_frames_of:
  assumes "frames_of (concat cs) = Some (ps, r)" and "[] \<notin> set cs"
  shows "read_all d [] (map Chunk cs) = (ps, Pending, r, []) \<and>
    read_all d [] (map Chunk cs @ [Chunk []]) =
      (ps, Ready (if r = [] then Ok None
                  else Err (Io (IoError UnexpectedEof (''peer closed with '' @ show_nat (length r) @
                    '' byte(s) of an incomplete outer frame'')))), [], [])"
proof -
  from assms(1) have dec: "decode (sync r) = (Ok None, r)" by (rule frames_of_rest)
  then have "read_all d r [] = ([], Pending, r, [])"
    by (simp add: read_all.simps [of d r] read_from.simps [of d r] discard_preceding_noise_sync)
  moreover from dec have "read_all d r [Chunk []] =
      ([], Ready (if r = [] then Ok None
                  else Err (Io (IoError UnexpectedEof (''peer closed with '' @ show_nat (length r) @
                    '' byte(s) of an incomplete outer frame'')))), [], [])"
    by (simp add: read_all.simps [of d r] read_from.simps [of d r] discard_preceding_noise_sync)
  ultimately show ?thesis
    using assms read_all_refines [of "[]" cs ps r d "[]"] read_all_refines [of "[]" cs ps r d "[Chunk []]"]
    by simp
qed

theorem framed_reader_refines_frames_of_witness:
  "read_all (\<lambda>_. []) [] (map Chunk [[0x99, 0x3e, 1], [0, 7, 0x3e], [2]]) = ([[7]], Pending, [0x3e, 2], [])"
proof -
  have "frames_of (concat [[0x99, 0x3e, 1], [0, 7, 0x3e], [2]]) = Some ([[7]], [0x3e, 2])"
    by code_simp
  from framed_reader_refines_frames_of [OF this, of "\<lambda>_. []"] show ?thesis by simp
qed

lemma decode_device_frame:
  "length p \<le> MAX_OUTER_PAYLOAD \<Longrightarrow> decode (device_frame p @ t) = (Ok (Some (InboundFrame p)), t)"
  using decode_sync [of "device_frame p @ t"] by (simp add: Let_def)

lemma decode_loop_device_frames:
  "(\<And>p. p \<in> set ps \<Longrightarrow> length p \<le> MAX_OUTER_PAYLOAD) \<Longrightarrow>
   decode_loop (concat (map device_frame ps)) out = Ok (out @ map InboundFrame ps)"
proof (induction ps arbitrary: out)
  case Nil
  show ?case by (simp add: decode_loop.simps)
next
  case (Cons p ps)
  have "decode_loop (device_frame p @ concat (map device_frame ps)) out =
      decode_loop (concat (map device_frame ps)) (out @ [InboundFrame p])"
    using Cons.prems by (subst decode_loop.simps) (simp add: decode_device_frame)
  with Cons show ?case by simp
qed

text \<open>C22: decoding the concatenation of device frames gives back their payloads, in order.\<close>

theorem decode_frames_roundtrip:
  assumes "\<forall>p \<in> set ps. length p \<le> MAX_OUTER_PAYLOAD"
  shows "decode_frames (concat (map device_frame ps)) = Ok (map InboundFrame ps)"
  using assms decode_loop_device_frames [of ps "[]"] by (simp add: decode_frames_def)

theorem decode_frames_roundtrip_witness:
  "decode_frames (concat (map device_frame [[1, 2], [], [3]])) = Ok (map InboundFrame [[1, 2], [], [3]])"
  by (rule decode_frames_roundtrip) (simp add: frame_consts)

text \<open>C29: the exact effect of line noise before a frame on the bare decoder. When the noise is at
  least as long as everything behind it, the frame is thrown away with the noise; the frame is
  returned only when the noise is shorter.\<close>

theorem decode_after_noise:
  assumes "DEVICE_FRAME_PREFIX \<notin> set noise" and "noise \<noteq> []" and "length p \<le> MAX_OUTER_PAYLOAD"
  shows "decode (noise @ device_frame p @ rest) =
    (if length noise < length (device_frame p @ rest) then (Ok (Some (InboundFrame p)), rest)
     else (Ok None, []))"
proof -
  have pos: "find_device_prefix (noise @ device_frame p @ rest) = Some (length noise)"
    using assms(1) by (simp add: find_device_prefix_def position_append device_frame_def)
  have hd: "noise ! 0 \<noteq> DEVICE_FRAME_PREFIX" using assms(1,2) by (cases noise) auto
  have d: "unat (u16_from_le_bytes ((device_frame p @ rest) ! 1) ((device_frame p @ rest) ! 2)) = length p"
    using declared_device_frame [OF assms(3), of rest] by (simp add: declared_def)
  show ?thesis
    using assms pos hd d by (auto simp: decode_def Let_def nth_append)
qed

theorem decode_after_noise_witness:
  "decode ([1, 2, 3, 4] @ device_frame [7] @ []) = (Ok None, []) \<and>
   decode ([1, 2, 3] @ device_frame [7] @ []) = (Ok (Some (InboundFrame [7])), [])"
  using decode_after_noise [of "[1, 2, 3, 4]" "[7]" "[]"] decode_after_noise [of "[1, 2, 3]" "[7]" "[]"]
  by (simp add: frame_consts)



end
