(* ===== verification/Wire.thy ===== *)
theory Wire
  imports Packet Framing
begin

text \<open>
  The properties of the companion protocol as a whole: parsing is total and establishes
  well-formed values, the settings a caller writes are the settings the device reports back, a
  contact that is read and written back is kept up to one millionth of a degree, and every
  command the constructors build passes the transport's size check and its framing.
\<close>

section \<open>Parsing\<close>

text \<open>C21: parsing is total. Whatever bytes arrive, \<^verbatim>\<open>Packet::parse\<close> returns a packet or a parse
  error; no index, slice or length computation of any of its parsers panics.\<close>

theorem parse_never_panics: "parse x raw \<noteq> Panic"
  by (rule parse_not_Panic)

text \<open>A concrete \<^verbatim>\<open>hex\<close> crate: lower-case digits, two per byte.\<close>

definition hex_digit :: "byte \<Rightarrow> byte" where
  "hex_digit n = (if n < 10 then 48 + n else 87 + n)"

definition hex_lower :: "byte list \<Rightarrow> rstr" where
  "hex_lower bs = concat (map (\<lambda>b. [hex_digit (drop_bit 4 b), hex_digit (b AND 15)]) bs)"

definition sample_externs :: externs where
  "sample_externs = \<lparr>hex_encode = hex_lower, hex_decode = (\<lambda>_. None), sha256 = (\<lambda>_. replicate 32 0)\<rparr>"

lemma hex_digit_ascii: "n < 16 \<Longrightarrow> hex_digit n \<le> 0x7F"
  by (auto simp: hex_digit_def word_le_nat_alt word_less_nat_alt unat_word_ariths)

lemma utf8_hex_lower: "utf8 (hex_lower bs)"
proof (rule utf8_ascii)
  have "drop_bit 4 b < 16" "b AND 15 < 16" for b :: byte
  proof -
    have "unat b < 2 ^ LENGTH(8)" by (rule unsigned_less)
    then have "unat (drop_bit 4 b) < 16" unfolding unat_drop_bit_eq by (simp add: drop_bit_eq_div)
    then show "drop_bit 4 b < 16" by (simp add: word_less_nat_alt)
    have "b AND 15 \<le> 15" by (rule word_and_le1)
    then show "b AND 15 < 16" by (simp add: word_less_nat_alt word_le_nat_alt)
  qed
  then show "list_all (\<lambda>b. b \<le> 0x7F) (hex_lower bs)"
    by (auto simp: hex_lower_def list_all_iff hex_digit_ascii)
qed

lemma parse_custom_vars_wf:
  assumes "raw \<noteq> []" "parse_custom_vars raw = Ok p"
  shows "packet_wf p \<and> packet_code_of p = PC_CustomVars"
proof -
  have "packet_code_of p = PC_CustomVars" using assms by (rule parse_custom_vars_code)
  moreover obtain v where "p = P_CustomVariables v"
    using assms by (cases raw) (auto simp: parse_custom_vars_def rbind_eq_Ok split: if_splits)
  moreover obtain b content where "raw = b # content" using assms(1) by (cases raw) auto
  ultimately show ?thesis using assms(2) by (simp add: parse_custom_vars_iff)
qed

lemmas parsers_wf =
  parse_ok_wf fixed_parsers_wf parse_contact_wf parse_channel_msg_wf parse_stats_wf
  parse_remote_status_wf parse_channel_info_wf parse_default_flood_scope_wf parse_advert_path_wf
  parse_path_discovery_wf parse_allowed_repeat_frequencies_wf parse_device_info_wf

lemma packet_code_unknown:
  "packet_code_from_u8 b = PC_Unknown c \<Longrightarrow> packet_code_from_u8 c = PC_Unknown c"
  using packet_codes.to_from [of b] by simp

lemma parse_contact_msg_code:
  "parse_contact_msg x raw v = Ok p \<Longrightarrow> packet_code_of p = PC_ContactMsgRecv"
  by (auto simp: parse_contact_msg_def parsers rbind_eq_Ok Let_def split: if_splits)

lemma parse_selects_code:
  assumes "parse x raw = Ok p"
  shows "raw \<noteq> []" "length raw \<le> MAX_INNER_PAYLOAD"
    "packet_code_of p = canonical_code (packet_code_from_u8 (raw ! 0))"
proof -
  show raw: "raw \<noteq> []" "length raw \<le> MAX_INNER_PAYLOAD"
    using assms by (auto simp: parse_def split: if_splits)
  show "packet_code_of p = canonical_code (packet_code_from_u8 (raw ! 0))"
    using assms raw
    by (cases "packet_code_from_u8 (raw ! 0)")
      (auto simp: parse_def canonical_code_def parse_error_packet_def
        dest: packet_code_unknown parsers_wf parse_self_info_wf parse_custom_vars_wf
          parse_contact_msg_code)
qed

lemma parse_wf:
  assumes "\<And>bs. utf8 (hex_encode x bs)" and "parse x raw = Ok p"
  shows "packet_wf p"
  using assms(2) parse_selects_code [OF assms(2)]
  by (cases "packet_code_from_u8 (raw ! 0)")
    (auto simp: parse_def parse_error_packet_def
      dest: parsers_wf parse_self_info_wf parse_custom_vars_wf parse_contact_msg_wf [OF assms(1)])

text \<open>C20: what a successful parse establishes. Given that hex encoding produces text, the packet is
  well formed (lengths of keys, prefixes and tags, UTF-8 text without NUL bytes in the padded
  fields, routes that match their path bytes, fields present exactly from the protocol version
  that introduced them), it was at most 176 bytes long, and it is reported under the code its
  first byte selects.\<close>

theorem parse_well_formed:
  assumes "\<And>bs. utf8 (hex_encode x bs)" and "parse x raw = Ok p"
  shows "packet_wf p \<and> 0 < length raw \<and> length raw \<le> MAX_INNER_PAYLOAD \<and>
         packet_code_of p = canonical_code (packet_code_from_u8 (raw ! 0))"
  using parse_wf [OF assms] parse_selects_code [OF assms(2)] by simp

theorem parse_well_formed_witness:
  "packet_wf (P_Ack \<lparr>a_code = [1, 2, 3, 4], trip_time_ms = Some 0x0100\<rparr>) \<and>
   packet_code_of (P_Ack \<lparr>a_code = [1, 2, 3, 4], trip_time_ms = Some 0x0100\<rparr>) =
     canonical_code (packet_code_from_u8 0x82)"
proof -
  have "utf8 (hex_encode sample_externs bs)" for bs
    by (simp add: sample_externs_def utf8_hex_lower)
  moreover have "parse sample_externs [0x82, 1, 2, 3, 4, 0, 1, 0, 0] =
      Ok (P_Ack \<lparr>a_code = [1, 2, 3, 4], trip_time_ms = Some 0x0100\<rparr>)"
    by code_simp
  ultimately show ?thesis
    using parse_well_formed [of sample_externs "[0x82, 1, 2, 3, 4, 0, 1, 0, 0]"] by fastforce
qed

section \<open>Repeated payloads\<close>

text \<open>C31: the custom-variable response is parsed without loss. The parser returns \<open>v\<close> exactly when
  the payload is the \<open>key:value\<close> rendering of its entries, kept verbatim as the raw bytes, and the
  entries are well formed: non-empty UTF-8 without separators or NUL bytes, and with distinct
  keys.\<close>

theorem custom_variables_lossless:
  "parse x (packet_code_to_u8 PC_CustomVars # content) = Ok (P_CustomVariables v) \<longleftrightarrow>
   custom_variables_wf v \<and> cvs_raw v = content \<and> content = render_custom_vars (cvs_entries v)"
proof (cases "length content \<le> 140")
  case True
  then show ?thesis
    using parse_custom_vars_iff
    by (simp add: parse_def packet_code_from_u8_def MAX_INNER_PAYLOAD_def)
next
  case False
  then show ?thesis
    by (auto simp: parse_def packet_code_from_u8_def parse_custom_vars_def custom_variables_wf_def)
qed

text \<open>C32: the same for the allowed repeat frequencies. The parser returns \<open>ranges\<close> exactly when the
  payload is their encoding, eight bytes a range, each range is non-empty and starts above zero,
  and they fit one packet.\<close>

theorem repeat_frequencies_lossless:
  "parse x (packet_code_to_u8 PC_AllowedRepeatFreq # body) = Ok (P_AllowedRepeatFrequencies ranges) \<longleftrightarrow>
   body = concat (map encode_range ranges) \<and> list_all range_wf ranges \<and> length ranges \<le> 21"
proof (cases "length body < MAX_INNER_PAYLOAD")
  case True
  have "length ranges \<le> 21" if "body = concat (map encode_range ranges)"
    using True that length_concat_encode_range [of ranges] by (simp add: MAX_INNER_PAYLOAD_def)
  with True show ?thesis
    using parse_frequencies_iff [of _ body] by (auto simp: parse_def packet_code_from_u8_def)
next
  case False
  have "21 < length ranges" if "body = concat (map encode_range ranges)"
    using False that length_concat_encode_range [of ranges] by (simp add: MAX_INNER_PAYLOAD_def)
  with False show ?thesis by (auto simp: parse_def)
qed

section \<open>Reading a contact and writing it back\<close>

lemma contact_route_of_inj:
  assumes "contact_route_of d = contact_route_of e" shows "d = e"
proof -
  have split: "d = push_bit 6 (drop_bit 6 d) OR (d AND 0x3f)" for d :: byte
  proof -
    have "d = push_bit 6 (drop_bit 6 d) OR (d AND mask 6)"
      by (rule bit_word_eqI) (auto simp: bit_simps)
    then show ?thesis by (simp add: mask_eq_exp_minus_1)
  qed
  from assms have "d = 0xff \<and> e = 0xff \<or> drop_bit 6 d = drop_bit 6 e \<and> d AND 0x3f = e AND 0x3f"
    unfolding contact_route_of_def Let_def by (simp split: if_splits)
  then show ?thesis using split [of d] split [of e] by auto
qed

lemma take_3_drop: "n + 3 \<le> length xs \<Longrightarrow> take 3 (drop n xs) = [xs ! n, xs ! (n + 1), xs ! (n + 2)]"
  by (rule nth_equalityI) (auto simp: numeral_eq_Suc less_Suc_eq)

lemma take_4_drop:
  "n + 4 \<le> length xs \<Longrightarrow> take 4 (drop n xs) = [xs ! n, xs ! (n + 1), xs ! (n + 2), xs ! (n + 3)]"
  by (rule nth_equalityI) (auto simp: numeral_eq_Suc less_Suc_eq)

definition i32_at :: "byte list \<Rightarrow> nat \<Rightarrow> int" where
  "i32_at raw i = sint (u32_from_le_bytes (raw ! i) (raw ! (i + 1)) (raw ! (i + 2)) (raw ! (i + 3)))"

lemma i32_at_append: "length a = n \<Longrightarrow> i32_at (a @ u32_to_le_bytes w @ b) n = sint w"
  using u32_le_roundtrip [of w] by (simp add: i32_at_def nth_append)

lemma parse_contact_fields:
  assumes "parse x raw = Ok (P_Contact c)"
  shows "148 \<le> length raw" "key_bytes (c_public_key c) = take 32 (drop 1 raw)"
    "c_type c = contact_type_from_u8 (raw ! 33)" "c_flags c = raw ! 34"
    "contact_route_of (raw ! 35) = (c_route c, length (path_bytes (c_out_path c)))"
    "path_bytes (c_out_path c) = take (length (path_bytes (c_out_path c))) (drop 36 raw)"
    "c_adv_name c = until_nul (take 32 (drop 100 raw))"
    "u32_to_le_bytes (c_last_advert c) = take 4 (drop 132 raw)"
    "c_adv_lat c = unscale (u32_from_le_bytes (raw ! 136) (raw ! 137) (raw ! 138) (raw ! 139))"
    "c_adv_lon c = unscale (u32_from_le_bytes (raw ! 140) (raw ! 141) (raw ! 142) (raw ! 143))"
proof -
  have ne: "raw \<noteq> []" using assms by (auto simp: parse_def split: if_splits)
  have code: "packet_code_from_u8 (raw ! 0) = PC_Contact"
    using parse_selects_code(3) [OF assms] by (simp add: canonical_code_def split: if_splits)
  have pc: "parse_contact raw = Ok (P_Contact c)"
    using assms ne code by (auto simp: parse_def split: if_splits)
  obtain r n where rn: "contact_route_of (raw ! 35) = (r, n)" by fastforce
  from pc show len: "148 \<le> length raw"
    by (auto simp: parse_contact_def parsers split: if_splits)
  from pc len rn have n: "n \<le> 64" and c: "c = \<lparr>c_public_key = PublicKey (take 32 (drop 1 raw)),
      c_type = contact_type_from_u8 (raw ! 33), c_flags = raw ! 34, c_route = r,
      c_out_path = Path (take n (drop 36 raw)), c_adv_name = until_nul (take 32 (drop 100 raw)),
      c_last_advert = u32_from_le_bytes (raw ! 132) (raw ! 133) (raw ! 134) (raw ! 135),
      c_adv_lat = unscale (u32_from_le_bytes (raw ! 136) (raw ! 137) (raw ! 138) (raw ! 139)),
      c_adv_lon = unscale (u32_from_le_bytes (raw ! 140) (raw ! 141) (raw ! 142) (raw ! 143)),
      c_lastmod = u32_from_le_bytes (raw ! 144) (raw ! 145) (raw ! 146) (raw ! 147)\<rparr>"
    by (auto simp: parse_contact_def parsers rbind_eq_Ok parsed_values parse_scaled_i32_def
        unscale_def split: if_splits)
  have "length (path_bytes (c_out_path c)) = n" using n len by (simp add: c)
  with rn n len show "contact_route_of (raw ! 35) = (c_route c, length (path_bytes (c_out_path c)))"
    "path_bytes (c_out_path c) = take (length (path_bytes (c_out_path c))) (drop 36 raw)"
    by (simp_all add: c)
  show "u32_to_le_bytes (c_last_advert c) = take 4 (drop 132 raw)"
    using len by (simp add: c take_4_drop u32_le_inverse)
  show "key_bytes (c_public_key c) = take 32 (drop 1 raw)"
    "c_type c = contact_type_from_u8 (raw ! 33)" "c_flags c = raw ! 34"
    "c_adv_name c = until_nul (take 32 (drop 100 raw))"
    "c_adv_lat c = unscale (u32_from_le_bytes (raw ! 136) (raw ! 137) (raw ! 138) (raw ! 139))"
    "c_adv_lon c = unscale (u32_from_le_bytes (raw ! 140) (raw ! 141) (raw ! 142) (raw ! 143))"
    by (simp_all add: c)
qed

lemma contact_type_inverse: "contact_type_to_u8 (contact_type_from_u8 b) = b"
  by (rule contact_types.to_from)

text \<open>C33: reading a contact and writing it back. The update command built from a parsed contact
  carries the same key, type, flags, route descriptor, path, name and advert time; each
  coordinate is the one that was read or, because scaling back to millionths truncates a rounded
  product, one unit nearer to zero. The witness shows the loss: 249 is written back as 248.\<close>

theorem contact_write_back:
  assumes parsed: "parse x raw = Ok (P_Contact c)" and sent: "cmd_update_contact c = Ok cmd"
  shows "length (cmd_payload cmd) = 143 \<and>
    take 35 (cmd_payload cmd) = take 35 (drop 1 raw) \<and>
    take (length (path_bytes (c_out_path c))) (drop 35 (cmd_payload cmd)) = path_bytes (c_out_path c) \<and>
    until_nul (take 32 (drop 99 (cmd_payload cmd))) = until_nul (take 32 (drop 100 raw)) \<and>
    take 4 (drop 131 (cmd_payload cmd)) = take 4 (drop 132 raw) \<and>
    i32_at (cmd_payload cmd) 135 \<in> {i32_at raw 136, i32_at raw 136 - sgn (i32_at raw 136)} \<and>
    i32_at (cmd_payload cmd) 139 \<in> {i32_at raw 140, i32_at raw 140 - sgn (i32_at raw 140)}"
proof -
  note f = parse_contact_fields [OF parsed]
  have "public_key_wf (c_public_key c)" using f(1,2) by (simp add: public_key_wf_def)
  from update_contact_payload [OF sent this] obtain d lat lon where
    ll: "scaled_coordinate (c_adv_lat c) (- 90) 90 ''latitude'' = Ok lat"
      "scaled_coordinate (c_adv_lon c) (- 180) 180 ''longitude'' = Ok lon"
    and d: "contact_route_of d = (c_route c, length (path_bytes (c_out_path c)))"
    and n: "length (path_bytes (c_out_path c)) \<le> 64" "length (c_adv_name c) \<le> 31"
      "0 \<notin> set (c_adv_name c)"
    and p: "cmd_payload cmd = key_bytes (c_public_key c) @ [contact_type_to_u8 (c_type c), c_flags c, d] @
       pad_to 64 (path_bytes (c_out_path c)) @ pad_to 32 (c_adv_name c) @
       u32_to_le_bytes (c_last_advert c) @ u32_to_le_bytes lat @ u32_to_le_bytes lon"
    by blast
  have d35: "d = raw ! 35" using d f(5) by (intro contact_route_of_inj) simp
  have klen: "length (key_bytes (c_public_key c)) = 32" using f(1,2) by simp
  have "take 35 (cmd_payload cmd) = take 32 (drop 1 raw) @ take 3 (drop 32 (drop 1 raw))"
    using f(1-4) klen d35 by (simp add: p contact_type_inverse take_3_drop)
  also have "\<dots> = take 35 (drop 1 raw)" using take_add [of 32 3 "drop 1 raw"] by simp
  finally have "take 35 (cmd_payload cmd) = take 35 (drop 1 raw)" .
  moreover have "length (cmd_payload cmd) = 143" using klen n by (simp add: p)
  moreover have "take (length (path_bytes (c_out_path c))) (drop 35 (cmd_payload cmd)) = path_bytes (c_out_path c)"
    using klen by (simp add: p pad_to_def)
  moreover have "until_nul (take 32 (drop 99 (cmd_payload cmd))) = until_nul (take 32 (drop 100 raw))"
    using klen n until_nul_pad [OF n(3), of 32] f(7) by (simp add: p)
  moreover have "take 4 (drop 131 (cmd_payload cmd)) = take 4 (drop 132 raw)"
    using klen n f(1,8) by (simp add: p)
  moreover have "i32_at (cmd_payload cmd) 135 = sint lat" "i32_at (cmd_payload cmd) 139 = sint lon"
    using klen n
      i32_at_append [of "key_bytes (c_public_key c) @ [contact_type_to_u8 (c_type c), c_flags c, d] @
       pad_to 64 (path_bytes (c_out_path c)) @ pad_to 32 (c_adv_name c) @
       u32_to_le_bytes (c_last_advert c)" 135 lat "u32_to_le_bytes lon"]
      i32_at_append [of "key_bytes (c_public_key c) @ [contact_type_to_u8 (c_type c), c_flags c, d] @
       pad_to 64 (path_bytes (c_out_path c)) @ pad_to 32 (c_adv_name c) @
       u32_to_le_bytes (c_last_advert c) @ u32_to_le_bytes lat" 139 lon "[]"]
    by (simp_all add: p)
  moreover have "sint lat \<in> {i32_at raw 136, i32_at raw 136 - sgn (i32_at raw 136)}"
    using rescale_drift [OF ll(1) [unfolded f(9)]] by (simp add: i32_at_def)
  moreover have "sint lon \<in> {i32_at raw 140, i32_at raw 140 - sgn (i32_at raw 140)}"
    using rescale_drift [OF ll(2) [unfolded f(10)]] by (simp add: i32_at_def)
  ultimately show ?thesis by (simp only: simp_thms)
qed


definition sample_contact_packet :: "byte list" where
  "sample_contact_packet =
     [3] @ replicate 32 7 @ [1, 0, 0xff] @ replicate 64 0 @ pad_to 32 (bytes_of ''ada'') @
     u32_to_le_bytes 1700000000 @ u32_to_le_bytes 249 @ u32_to_le_bytes 0 @ u32_to_le_bytes 5"

theorem contact_write_back_witness:
  "\<exists>c cmd. parse sample_externs sample_contact_packet = Ok (P_Contact c) \<and>
     cmd_update_contact c = Ok cmd \<and>
     take 35 (cmd_payload cmd) = take 35 (drop 1 sample_contact_packet) \<and>
     i32_at sample_contact_packet 136 = 249 \<and> i32_at (cmd_payload cmd) 135 = 248"
proof -
  have run: "case parse sample_externs sample_contact_packet of
      Ok (P_Contact c) \<Rightarrow> (case cmd_update_contact c of Ok cmd \<Rightarrow> i32_at (cmd_payload cmd) 135 = 248 | _ \<Rightarrow> False)
    | _ \<Rightarrow> False"
    by code_simp
  then obtain c where c: "parse sample_externs sample_contact_packet = Ok (P_Contact c)"
    by (auto split: result.split_asm packet.split_asm)
  with run obtain cmd where "cmd_update_contact c = Ok cmd" "i32_at (cmd_payload cmd) 135 = 248"
    by (cases "cmd_update_contact c") auto
  with c contact_write_back [OF c this(1)] have "parse sample_externs sample_contact_packet = Ok (P_Contact c) \<and>
     cmd_update_contact c = Ok cmd \<and>
     take 35 (cmd_payload cmd) = take 35 (drop 1 sample_contact_packet) \<and> i32_at (cmd_payload cmd) 135 = 248"
    by blast
  moreover have "i32_at sample_contact_packet 136 = 249" by code_simp
  ultimately show ?thesis by blast
qed

lemma parse_reply:
  assumes "constructed c"
  shows "packet_code_from_u8 b = PC_ChannelInfo \<Longrightarrow> parse x (b # cmd_payload c) = parse_channel_info x (b # cmd_payload c)"
    "packet_code_from_u8 b = PC_DefaultFloodScope \<Longrightarrow> parse x (b # cmd_payload c) = parse_default_flood_scope (b # cmd_payload c)"
    "packet_code_from_u8 b = PC_AutoaddConfig \<Longrightarrow> parse x (b # cmd_payload c) = parse_auto_add_config (b # cmd_payload c)"
  using constructed_bound [OF assms] by (simp_all add: parse_def)

lemma channel_roundtrip:
  assumes "utf8 name" and "cmd_set_channel i name secret = Ok c"
  shows "parse x (packet_code_to_u8 PC_ChannelInfo # cmd_payload c) =
         Ok (P_ChannelInfo (with_secret x i name (Some secret)))"
proof -
  have "constructed c" using assms(2) by (rule constructed.intros)
  then show ?thesis
    using set_channel_roundtrip [OF assms(2,1)] by (simp add: parse_reply packet_code_from_u8_def)
qed

lemma default_flood_scope_roundtrip:
  assumes "utf8 name" and "cmd_set_default_flood_scope name key = Ok c"
  shows "parse x (packet_code_to_u8 PC_DefaultFloodScope # cmd_payload c) =
         Ok (P_DefaultFloodScope (Configured \<lparr>scope_name = Some name, scope_key = key\<rparr>))"
proof -
  have "constructed c" using assms(2) by (rule constructed.intros)
  then show ?thesis
    using set_default_scope_roundtrip [OF assms(2,1)]
    by (simp add: parse_reply packet_code_from_u8_def)
qed

lemma auto_add_config_roundtrip:
  assumes "cmd_set_auto_add_config config = Ok c"
  shows "parse x (packet_code_to_u8 PC_AutoaddConfig # cmd_payload c) = Ok (P_AutoAddConfig config)"
proof -
  have "constructed c" using assms by (rule constructed.intros)
  then show ?thesis
    using auto_add_roundtrip [OF assms] by (simp add: parse_reply packet_code_from_u8_def)
qed

text \<open>C34: Settings written to the device are the settings it reports back. The reply with the payload of an
  accepted \<^verbatim>\<open>set_channel\<close> parses to the slot, name and secret given, whatever UTF-8 name was accepted; the
  same holds of the name and key of a default flood scope, and of an auto-add configuration, with and
  without its optional hop limit.\<close>

theorem settings_roundtrip:
  "(utf8 name \<and> cmd_set_channel i name secret = Ok c \<longrightarrow>
      parse x (packet_code_to_u8 PC_ChannelInfo # cmd_payload c) =
        Ok (P_ChannelInfo (with_secret x i name (Some secret)))) \<and>
   (utf8 name \<and> cmd_set_default_flood_scope name key = Ok c \<longrightarrow>
      parse x (packet_code_to_u8 PC_DefaultFloodScope # cmd_payload c) =
        Ok (P_DefaultFloodScope (Configured \<lparr>scope_name = Some name, scope_key = key\<rparr>))) \<and>
   (cmd_set_auto_add_config config = Ok c \<longrightarrow>
      parse x (packet_code_to_u8 PC_AutoaddConfig # cmd_payload c) = Ok (P_AutoAddConfig config))"
  using channel_roundtrip default_flood_scope_roundtrip auto_add_config_roundtrip by blast

theorem settings_roundtrip_witness:
  "parse sample_externs (0x12 # 2 # pad_to 32 (bytes_of ''ops'') @ replicate 16 9) =
     Ok (P_ChannelInfo (with_secret sample_externs 2 (bytes_of ''ops'') (Some (replicate 16 9)))) \<and>
   parse sample_externs (0x1c # pad_to 31 (bytes_of ''eu'') @ replicate 16 4) =
     Ok (P_DefaultFloodScope (Configured \<lparr>scope_name = Some (bytes_of ''eu''), scope_key = replicate 16 4\<rparr>)) \<and>
   parse sample_externs [0x19, 3, 64] = Ok (P_AutoAddConfig \<lparr>aa_config = 3, max_hops = Some 64\<rparr>)"
proof -
  have u: "utf8 (bytes_of ''ops'')" "utf8 (bytes_of ''eu'')" by code_simp+
  have "cmd_set_channel 2 (bytes_of ''ops'') (replicate 16 9) =
      Ok \<lparr>cmd_code = CC_SetChannel, cmd_payload = 2 # pad_to 32 (bytes_of ''ops'') @ replicate 16 9\<rparr>"
    "cmd_set_default_flood_scope (bytes_of ''eu'') (replicate 16 4) =
      Ok \<lparr>cmd_code = CC_SetDefaultFloodScope, cmd_payload = pad_to 31 (bytes_of ''eu'') @ replicate 16 4\<rparr>"
    "cmd_set_auto_add_config \<lparr>aa_config = 3, max_hops = Some 64\<rparr> =
      Ok \<lparr>cmd_code = CC_SetAutoAddConfig, cmd_payload = [3, 64]\<rparr>"
    by code_simp+
  with u settings_roundtrip [of "bytes_of ''ops''" 2 "replicate 16 9"]
    settings_roundtrip [of "bytes_of ''eu''" _ _ _ _ "replicate 16 4"]
    settings_roundtrip [of _ _ _ _ _ _ "\<lparr>aa_config = 3, max_hops = Some 64\<rparr>"]
  show ?thesis by fastforce
qed

section \<open>Commands on the wire\<close>

text \<open>C35: every command the checked constructors build is accepted by the transport and framed:
  it passes the payload check of the framed stream, its frame is the prefix, the little-endian
  length and the command, and its first byte decodes to the command's code.\<close>

theorem constructed_command_framed:
  assumes "constructed c"
  shows "validate_payload (into_encoded c) = Ok () \<and>
         encode_payload (into_encoded c) =
           Ok (APP_FRAME_PREFIX # u16_to_le_bytes (of_nat (length (into_encoded c))) @ into_encoded c) \<and>
         command_code_from_u8 (into_encoded c ! 0) = cmd_code c"
  using constructed_bound [OF assms] known_code [of "cmd_code c"]
  by (simp add: validate_payload_def encode_payload_def outbound_frame_new_def encode_frame_def
      frame_consts Let_def) (simp add: encode_def)

theorem constructed_command_framed_witness:
  "encode_payload (into_encoded cmd_device_query) = Ok [0x3c, 2, 0, 0x16, 3]"
proof -
  have "encode_payload (into_encoded cmd_device_query) =
      Ok (APP_FRAME_PREFIX # u16_to_le_bytes (of_nat (length (into_encoded cmd_device_query))) @
          into_encoded cmd_device_query)"
    using constructed_command_framed [of cmd_device_query] constructed.intros(2) by blast
  moreover have "APP_FRAME_PREFIX # u16_to_le_bytes (of_nat (length (into_encoded cmd_device_query))) @
          into_encoded cmd_device_query = [0x3c, 2, 0, 0x16, 3]"
    by code_simp
  ultimately show ?thesis by simp
qed

end
