(* ===== verification/Remote.thy ===== *)
theory Remote
  imports Command
begin

text \<open>
  The remote payloads of \<^verbatim>\<open>meshquill-core/src/remote.rs\<close>: the request kinds and payloads, and the
  parsers of neighbour pages, region, owner, basic, access-control, telemetry and summary
  responses. A \<^verbatim>\<open>&mut usize\<close> cursor is passed and returned; a \<^verbatim>\<open>while\<close> loop is a recursive
  function whose cursor grows. Cursors stay below the 176 bytes of a payload plus one record, so
  the saturating and checked additions are plain ones.
\<close>

section \<open>Request kinds\<close>

definition MAX_REMOTE_PAYLOAD_LEN :: nat where
  "MAX_REMOTE_PAYLOAD_LEN = MAX_INNER_PAYLOAD"

definition LPP_MIN_POLYLINE_SIZE :: nat where
  "LPP_MIN_POLYLINE_SIZE = 8"

datatype binary_request_kind = BR_Status | BR_KeepAlive | BR_Telemetry | BR_Summary | BR_Acl | BR_Neighbours

fun binary_request_code :: "binary_request_kind \<Rightarrow> byte" where
  "binary_request_code BR_Status = 1"
| "binary_request_code BR_KeepAlive = 2"
| "binary_request_code BR_Telemetry = 3"
| "binary_request_code BR_Summary = 4"
| "binary_request_code BR_Acl = 5"
| "binary_request_code BR_Neighbours = 6"

definition has_fixed_payload :: "binary_request_kind \<Rightarrow> bool" where
  "has_fixed_payload k = (k = BR_Acl \<or> k = BR_Summary)"

datatype anonymous_request_kind = AR_Regions | AR_Owner | AR_Basic

fun anonymous_request_code :: "anonymous_request_kind \<Rightarrow> byte" where
  "anonymous_request_code AR_Regions = 1"
| "anonymous_request_code AR_Owner = 2"
| "anonymous_request_code AR_Basic = 3"

datatype neighbour_order = Newest | Oldest | Strongest | Weakest | UnknownOrder byte

fun neighbour_order_code :: "neighbour_order \<Rightarrow> byte" where
  "neighbour_order_code Newest = 0"
| "neighbour_order_code Oldest = 1"
| "neighbour_order_code Strongest = 2"
| "neighbour_order_code Weakest = 3"
| "neighbour_order_code (UnknownOrder b) = b"

definition neighbour_order_from_code :: "byte \<Rightarrow> neighbour_order" where
  "neighbour_order_from_code code =
     (if code = 0 then Newest else if code = 1 then Oldest else if code = 2 then Strongest
      else if code = 3 then Weakest else UnknownOrder code)"

interpretation neighbour_orders: byte_enum neighbour_order_code neighbour_order_from_code
  by unfold_locales (simp add: neighbour_order_from_code_def)

record neighbour_query =
  nq_version :: byte
  nq_count :: byte
  nq_offset :: u16
  nq_order :: neighbour_order
  prefix_length :: byte
  nonce :: u32

definition neighbour_query_new :: "byte \<Rightarrow> u16 \<Rightarrow> neighbour_order \<Rightarrow> byte \<Rightarrow> u32 \<Rightarrow> neighbour_query" where
  "neighbour_query_new c off ord len rnd =
     \<lparr>nq_version = 0, nq_count = c, nq_offset = off, nq_order = ord, prefix_length = len, nonce = rnd\<rparr>"

record remote_feature =
  feature_kind :: byte
  feature_disabled :: bool

definition from_feature_byte :: "byte \<Rightarrow> remote_feature" where
  "from_feature_byte raw = \<lparr>feature_kind = raw AND 0x7f, feature_disabled = (raw AND 0x80 \<noteq> 0)\<rparr>"

definition to_feature_byte :: "remote_feature \<Rightarrow> byte" where
  "to_feature_byte f = feature_kind f OR (if feature_disabled f then 0x80 else 0)"

lemma feature_byte_inverse: "to_feature_byte (from_feature_byte b) = b"
proof -
  have top: "b AND NOT (mask 7) = (if bit b 7 then NOT (mask 7) else 0)"
  proof (rule bit_word_eqI)
    fix n assume "n < LENGTH(8)"
    then have "n < 7 \<or> n = 7" by auto
    then show "bit (b AND NOT (mask 7)) n = bit (if bit b 7 then NOT (mask 7) else 0 :: byte) n"
      by (auto simp: bit_simps)
  qed
  have b: "(b AND mask 7) OR (b AND NOT (mask 7)) = b"
    by (rule bit_word_eqI) (auto simp: bit_simps)
  have ne: "(NOT (mask 7) :: byte) \<noteq> 0" by (simp add: mask_eq_exp_minus_1)
  have "(0x80 :: byte) = NOT (mask 7)" "(0x7f :: byte) = mask 7"
    by (simp_all add: mask_eq_exp_minus_1)
  then have "to_feature_byte (from_feature_byte b) =
      (b AND mask 7) OR (if b AND NOT (mask 7) \<noteq> 0 then NOT (mask 7) else 0)"
    by (simp only: to_feature_byte_def from_feature_byte_def remote_feature.select_convs)
  also have "\<dots> = (b AND mask 7) OR (b AND NOT (mask 7))"
    using ne by (cases "bit b 7") (simp_all only: top if_True if_False simp_thms)
  finally show ?thesis using b by simp
qed

interpretation features: byte_enum to_feature_byte from_feature_byte
  by unfold_locales (rule feature_byte_inverse)

record basic_response =
  basic_clock :: u32
  basic_feature :: remote_feature

record acl_entry =
  acl_pubkey_prefix :: "byte list"
  acl_mask :: byte

record acl_response =
  acl_entries :: "acl_entry list"

record neighbour_entry =
  ne_pubkey_prefix :: "byte list"
  secs_ago :: u32
  snr_db :: f64

record neighbour_page =
  total_count :: u16
  result_count :: u16
  np_entries :: "neighbour_entry list"

record regions_response =
  regions_clock :: u32
  region_names :: "rstr list"

record owner_response =
  owner_clock :: u32
  owner_name :: rstr
  owner_identity :: rstr

section \<open>Telemetry kinds\<close>

datatype (plugins only: code size) lpp_kind =
    LK_DigitalInput | LK_DigitalOutput | LK_AnalogInput | LK_AnalogOutput | LK_GenericSensor
    | LK_Luminosity | LK_Presence | LK_Temperature | LK_RelativeHumidity | LK_Accelerometer
    | LK_BarometricPressure | LK_Voltage | LK_Current | LK_Frequency | LK_Percentage
    | LK_Altitude | LK_Concentration | LK_Power | LK_Distance | LK_Energy | LK_Direction
    | LK_UnixTime | LK_Gyrometer | LK_Colour | LK_Gps | LK_Switch | LK_Polyline

fun lpp_code :: "lpp_kind \<Rightarrow> byte" where
  "lpp_code LK_DigitalInput = 0"
| "lpp_code LK_DigitalOutput = 1"
| "lpp_code LK_AnalogInput = 2"
| "lpp_code LK_AnalogOutput = 3"
| "lpp_code LK_GenericSensor = 100"
| "lpp_code LK_Luminosity = 101"
| "lpp_code LK_Presence = 102"
| "lpp_code LK_Temperature = 103"
| "lpp_code LK_RelativeHumidity = 104"
| "lpp_code LK_Accelerometer = 113"
| "lpp_code LK_BarometricPressure = 115"
| "lpp_code LK_Voltage = 116"
| "lpp_code LK_Current = 117"
| "lpp_code LK_Frequency = 118"
| "lpp_code LK_Percentage = 120"
| "lpp_code LK_Altitude = 121"
| "lpp_code LK_Concentration = 125"
| "lpp_code LK_Power = 128"
| "lpp_code LK_Distance = 130"
| "lpp_code LK_Energy = 131"
| "lpp_code LK_Direction = 132"
| "lpp_code LK_UnixTime = 133"
| "lpp_code LK_Gyrometer = 134"
| "lpp_code LK_Colour = 135"
| "lpp_code LK_Gps = 136"
| "lpp_code LK_Switch = 142"
| "lpp_code LK_Polyline = 240"

definition lpp_from_code :: "byte \<Rightarrow> lpp_kind option" where
  "lpp_from_code code =
     (if code = 0 then Some LK_DigitalInput
      else if code = 1 then Some LK_DigitalOutput
      else if code = 2 then Some LK_AnalogInput
      else if code = 3 then Some LK_AnalogOutput
      else if code = 100 then Some LK_GenericSensor
      else if code = 101 then Some LK_Luminosity
      else if code = 102 then Some LK_Presence
      else if code = 103 then Some LK_Temperature
      else if code = 104 then Some LK_RelativeHumidity
      else if code = 113 then Some LK_Accelerometer
      else if code = 115 then Some LK_BarometricPressure
      else if code = 116 then Some LK_Voltage
      else if code = 117 then Some LK_Current
      else if code = 118 then Some LK_Frequency
      else if code = 120 then Some LK_Percentage
      else if code = 121 then Some LK_Altitude
      else if code = 125 then Some LK_Concentration
      else if code = 128 then Some LK_Power
      else if code = 130 then Some LK_Distance
      else if code = 131 then Some LK_Energy
      else if code = 132 then Some LK_Direction
      else if code = 133 then Some LK_UnixTime
      else if code = 134 then Some LK_Gyrometer
      else if code = 135 then Some LK_Colour
      else if code = 136 then Some LK_Gps
      else if code = 142 then Some LK_Switch
      else if code = 240 then Some LK_Polyline
      else None)"

fun data_size_and_count :: "lpp_kind \<Rightarrow> nat \<times> nat" where
  "data_size_and_count LK_DigitalInput = (1, 1)"
| "data_size_and_count LK_DigitalOutput = (1, 1)"
| "data_size_and_count LK_AnalogInput = (2, 1)"
| "data_size_and_count LK_AnalogOutput = (2, 1)"
| "data_size_and_count LK_GenericSensor = (4, 1)"
| "data_size_and_count LK_Luminosity = (2, 1)"
| "data_size_and_count LK_Presence = (1, 1)"
| "data_size_and_count LK_Temperature = (2, 1)"
| "data_size_and_count LK_RelativeHumidity = (1, 1)"
| "data_size_and_count LK_Accelerometer = (2, 3)"
| "data_size_and_count LK_BarometricPressure = (2, 1)"
| "data_size_and_count LK_Voltage = (2, 1)"
| "data_size_and_count LK_Current = (2, 1)"
| "data_size_and_count LK_Frequency = (4, 1)"
| "data_size_and_count LK_Percentage = (1, 1)"
| "data_size_and_count LK_Altitude = (2, 1)"
| "data_size_and_count LK_Concentration = (2, 1)"
| "data_size_and_count LK_Power = (2, 1)"
| "data_size_and_count LK_Distance = (4, 1)"
| "data_size_and_count LK_Energy = (4, 1)"
| "data_size_and_count LK_Direction = (2, 1)"
| "data_size_and_count LK_UnixTime = (4, 1)"
| "data_size_and_count LK_Gyrometer = (2, 3)"
| "data_size_and_count LK_Colour = (1, 3)"
| "data_size_and_count LK_Gps = (3, 3)"
| "data_size_and_count LK_Switch = (1, 1)"
| "data_size_and_count LK_Polyline = (0, 0)"

fun base_multiplier :: "lpp_kind \<Rightarrow> rat" where
  "base_multiplier LK_DigitalInput = 1"
| "base_multiplier LK_DigitalOutput = 1"
| "base_multiplier LK_AnalogInput = 100"
| "base_multiplier LK_AnalogOutput = 100"
| "base_multiplier LK_GenericSensor = 1"
| "base_multiplier LK_Luminosity = 1"
| "base_multiplier LK_Presence = 1"
| "base_multiplier LK_Temperature = 10"
| "base_multiplier LK_RelativeHumidity = 2"
| "base_multiplier LK_Accelerometer = 1000"
| "base_multiplier LK_BarometricPressure = 10"
| "base_multiplier LK_Voltage = 100"
| "base_multiplier LK_Current = 1000"
| "base_multiplier LK_Frequency = 1"
| "base_multiplier LK_Percentage = 1"
| "base_multiplier LK_Altitude = 1"
| "base_multiplier LK_Concentration = 1"
| "base_multiplier LK_Power = 1"
| "base_multiplier LK_Distance = 1000"
| "base_multiplier LK_Energy = 1000"
| "base_multiplier LK_Direction = 1"
| "base_multiplier LK_UnixTime = 1"
| "base_multiplier LK_Gyrometer = 100"
| "base_multiplier LK_Colour = 1"
| "base_multiplier LK_Gps = 100"
| "base_multiplier LK_Switch = 1"
| "base_multiplier LK_Polyline = 1"

fun summary_width :: "lpp_kind \<Rightarrow> nat option" where
  "summary_width LK_DigitalInput = Some 1"
| "summary_width LK_DigitalOutput = Some 1"
| "summary_width LK_AnalogInput = Some 2"
| "summary_width LK_AnalogOutput = Some 2"
| "summary_width LK_GenericSensor = Some 4"
| "summary_width LK_Luminosity = Some 2"
| "summary_width LK_Presence = Some 1"
| "summary_width LK_Temperature = Some 2"
| "summary_width LK_RelativeHumidity = Some 2"
| "summary_width LK_Accelerometer = None"
| "summary_width LK_BarometricPressure = Some 2"
| "summary_width LK_Voltage = Some 2"
| "summary_width LK_Current = Some 2"
| "summary_width LK_Frequency = Some 4"
| "summary_width LK_Percentage = Some 1"
| "summary_width LK_Altitude = Some 2"
| "summary_width LK_Concentration = Some 2"
| "summary_width LK_Power = Some 2"
| "summary_width LK_Distance = Some 4"
| "summary_width LK_Energy = Some 4"
| "summary_width LK_Direction = Some 2"
| "summary_width LK_UnixTime = Some 4"
| "summary_width LK_Gyrometer = None"
| "summary_width LK_Colour = None"
| "summary_width LK_Gps = None"
| "summary_width LK_Switch = Some 1"
| "summary_width LK_Polyline = None"

definition is_signed :: "lpp_kind \<Rightarrow> bool" where
  "is_signed k = (k \<in> {LK_AnalogInput, LK_AnalogOutput, LK_Temperature, LK_Current, LK_Altitude, LK_Accelerometer, LK_Gyrometer, LK_Gps})"

definition is_vector :: "lpp_kind \<Rightarrow> bool" where
  "is_vector k = (k \<in> {LK_Accelerometer, LK_Gyrometer, LK_Gps, LK_Colour, LK_Polyline})"

definition summary_is_signed :: "lpp_kind \<Rightarrow> bool" where
  "summary_is_signed k = (k \<in> {LK_AnalogInput, LK_AnalogOutput, LK_Temperature, LK_Altitude})"

definition summary_multiplier :: "lpp_kind \<Rightarrow> rat" where
  "summary_multiplier k =
     (case k of LK_Current \<Rightarrow> 1000
      | LK_Distance \<Rightarrow> 1000
      | LK_Energy \<Rightarrow> 1000
      | LK_Voltage \<Rightarrow> 100
      | LK_AnalogInput \<Rightarrow> 100
      | LK_AnalogOutput \<Rightarrow> 100
      | LK_Temperature \<Rightarrow> 10
      | LK_BarometricPressure \<Rightarrow> 10
      | LK_RelativeHumidity \<Rightarrow> 10
      | _ \<Rightarrow> 1)"

definition multiplier :: "lpp_kind \<Rightarrow> nat \<Rightarrow> rat" where
  "multiplier k component = (if k = LK_Gps \<and> component < 2 then 10000 else base_multiplier k)"

record telemetry_sample =
  ts_channel :: byte
  ts_kind :: lpp_kind
  ts_values :: "f64 list"
  ts_raw :: "byte list option"

record summary_record =
  sr_channel :: byte
  sr_kind :: lpp_kind
  sr_minimum :: f64
  sr_maximum :: f64
  sr_average :: f64

record summary_response =
  summary_clock :: u32
  summary_entries :: "summary_record list"

datatype remote_error =
    RE_PayloadTooLarge nat nat \<comment> \<open>actual, maximum\<close>
  | RE_Truncated string
  | RE_UnknownType byte
  | RE_InvalidUtf8 string
  | RE_Malformed string
  | RE_NonFinite string

type_synonym 'a remote = "(remote_error, 'a) result"

section \<open>Requests\<close>

definition check_max_len :: "byte list \<Rightarrow> unit remote" where
  "check_max_len payload =
     (if length payload > MAX_REMOTE_PAYLOAD_LEN
      then Err (RE_PayloadTooLarge (length payload) MAX_REMOTE_PAYLOAD_LEN) else Ok ())"

definition validate_neighbour_query :: "neighbour_query \<Rightarrow> unit remote" where
  "validate_neighbour_query query =
     (if nq_version query \<noteq> 0 then Err (RE_Malformed ''unsupported neighbour request version'')
      else if nq_count query = 0 then Err (RE_Malformed ''count must be greater than zero'')
      else if \<not> (1 \<le> prefix_length query \<and> prefix_length query \<le> 32)
      then Err (RE_Malformed ''prefix length must be between 1 and 32'')
      else if (case nq_order query of UnknownOrder _ \<Rightarrow> True | _ \<Rightarrow> False)
      then Err (RE_Malformed ''neighbour order must be between 0 and 3'')
      else if nonce query = 0 then Err (RE_Malformed ''neighbour nonce must be non-zero'')
      else Ok ())"

definition encode_neighbour_query :: "neighbour_query \<Rightarrow> byte list remote" where
  "encode_neighbour_query query =
     rbind (validate_neighbour_query query) (\<lambda>_.
     Ok ([nq_version query] @ [nq_count query] @ u16_to_le_bytes (nq_offset query) @
         [neighbour_order_code (nq_order query)] @ [prefix_length query] @
         u32_to_le_bytes (nonce query)))"

definition acl_request_payload :: "byte list" where
  "acl_request_payload = [0, 0]"

definition binary_request_payload :: "binary_request_kind \<Rightarrow> byte list option" where
  "binary_request_payload kind =
     (case kind of BR_Acl \<Rightarrow> Some acl_request_payload | BR_Summary \<Rightarrow> None | _ \<Rightarrow> Some [])"

definition summary_request_payload :: "u32 \<Rightarrow> u32 \<Rightarrow> byte list" where
  "summary_request_payload start_secs_ago end_secs_ago =
     u32_to_le_bytes start_secs_ago @ u32_to_le_bytes end_secs_ago @ [0, 0]"

section \<open>Field readers\<close>

definition trim_trailing_nul :: "byte list \<Rightarrow> string \<Rightarrow> byte list remote" where
  "trim_trailing_nul raw ctxt =
     (case position 0 raw of
        Some first_zero \<Rightarrow>
          slice raw (first_zero + 1) (length raw) (\<lambda>rest.
          if list_ex (\<lambda>b. b \<noteq> 0) rest then Err (RE_Malformed ctxt)
          else slice raw 0 first_zero (\<lambda>s. Ok s))
      | None \<Rightarrow> Ok raw)"

definition decode_string :: "byte list \<Rightarrow> string \<Rightarrow> rstr remote" where
  "decode_string raw ctxt = (if utf8 raw then Ok raw else Err (RE_InvalidUtf8 ctxt))"

definition read_i16_le :: "byte list \<Rightarrow> nat \<Rightarrow> i16 remote" where
  "read_i16_le raw i =
     ok_or (map_option (\<lambda>s. u16_from_le_bytes (s ! 0) (s ! 1)) (get_range raw i (i + 2)))
       (RE_Truncated ''fixed field'')"

definition read_u32_le :: "byte list \<Rightarrow> nat \<Rightarrow> u32 remote" where
  "read_u32_le raw i =
     ok_or (map_option (\<lambda>s. u32_from_le_bytes (s ! 0) (s ! 1) (s ! 2) (s ! 3)) (get_range raw i (i + 4)))
       (RE_Truncated ''fixed field'')"

definition read_u16_be :: "byte list \<Rightarrow> nat \<Rightarrow> u16 remote" where
  "read_u16_be raw i =
     ok_or (map_option (\<lambda>s. u16_from_be_bytes (s ! 0) (s ! 1)) (get_range raw i (i + 2)))
       (RE_Truncated ''value field'')"

definition read_i16_be :: "byte list \<Rightarrow> nat \<Rightarrow> i16 remote" where
  "read_i16_be raw i =
     ok_or (map_option (\<lambda>s. u16_from_be_bytes (s ! 0) (s ! 1)) (get_range raw i (i + 2)))
       (RE_Truncated ''value field'')"

definition read_u24_be :: "byte list \<Rightarrow> nat \<Rightarrow> u32 remote" where
  "read_u24_be raw i =
     ok_or (map_option
         (\<lambda>s. push_bit 16 (ucast (s ! 0)) OR push_bit 8 (ucast (s ! 1)) OR ucast (s ! 2))
         (get_range raw i (i + 3)))
       (RE_Truncated ''value field'')"

definition read_i24_be :: "byte list \<Rightarrow> nat \<Rightarrow> i32 remote" where
  "read_i24_be raw i =
     rbind (read_u24_be raw i) (\<lambda>value.
     if value AND 0x800000 \<noteq> 0 then Ok (value OR NOT 0xFFFFFF) else Ok value)"

definition read_u32_be :: "byte list \<Rightarrow> nat \<Rightarrow> u32 remote" where
  "read_u32_be raw i =
     ok_or (map_option (\<lambda>s. u32_from_be_bytes (s ! 0) (s ! 1) (s ! 2) (s ! 3)) (get_range raw i (i + 4)))
       (RE_Truncated ''value field'')"

definition read_i32_be :: "byte list \<Rightarrow> nat \<Rightarrow> i32 remote" where
  "read_i32_be raw i =
     ok_or (map_option (\<lambda>s. u32_from_be_bytes (s ! 0) (s ! 1) (s ! 2) (s ! 3)) (get_range raw i (i + 4)))
       (RE_Truncated ''value field'')"

section \<open>Telemetry values\<close>

definition decode_value :: "byte list \<Rightarrow> lpp_kind \<Rightarrow> nat \<Rightarrow> nat \<Rightarrow> nat \<Rightarrow> (f64 \<times> nat) remote" where
  "decode_value raw kind cursor width component =
     rbind
       (if width = 1 then
          rbind (ok_or (get raw cursor) (RE_Truncated ''telemetry value'')) (\<lambda>b.
          Ok (flt_of_int 53 (if is_signed kind then sint b else uint b), cursor + 1))
        else if width = 2 then
          rbind (if is_signed kind then map_ok sint (read_i16_be raw cursor)
                 else map_ok uint (read_u16_be raw cursor)) (\<lambda>v.
          Ok (flt_of_int 53 v, cursor + 2))
        else if width = 3 then
          rbind (if is_signed kind then map_ok sint (read_i24_be raw cursor)
                 else map_ok uint (read_u24_be raw cursor)) (\<lambda>v.
          Ok (flt_of_int 53 v, cursor + 3))
        else if width = 4 then
          rbind (if is_signed kind then map_ok sint (read_i32_be raw cursor)
                 else map_ok uint (read_u32_be raw cursor)) (\<lambda>v.
          Ok (flt_of_int 53 v, cursor + 4))
        else Err (RE_Malformed ''unsupported telemetry width''))
       (\<lambda>(raw_value, cursor).
          let scaled = flt_div 53 raw_value (Finite (multiplier kind component)) in
          if \<not> is_finite scaled
          then Err (RE_NonFinite (if is_vector kind then ''vector component'' else ''scalar value''))
          else Ok (scaled, cursor))"

lemma read_be_Ok:
  "read_u24_be raw i = Ok u \<Longrightarrow> i + 3 \<le> length raw"
  "read_u16_be raw i = Ok v \<Longrightarrow> i + 2 \<le> length raw" "read_i16_be raw i = Ok v \<Longrightarrow> i + 2 \<le> length raw"
  "read_u32_be raw i = Ok u \<Longrightarrow> i + 4 \<le> length raw" "read_i32_be raw i = Ok u \<Longrightarrow> i + 4 \<le> length raw"
  by (auto simp: read_u24_be_def read_u16_be_def read_i16_be_def read_u32_be_def read_i32_be_def
      get_range_eq_Some)

lemma decode_value_advances:
  "decode_value raw kind cursor width component = Ok (v, c') \<Longrightarrow>
   c' = cursor + width \<and> 0 < width \<and> c' \<le> length raw \<and> is_finite v"
  by (auto simp: decode_value_def rbind_eq_Ok Let_def read_i24_be_def split: if_splits dest!: read_be_Ok)

text \<open>The loop of \<^verbatim>\<open>decode_values\<close>.\<close>

function decode_values_loop ::
    "byte list \<Rightarrow> lpp_kind \<Rightarrow> nat \<Rightarrow> nat \<Rightarrow> nat \<Rightarrow> nat \<Rightarrow> f64 list \<Rightarrow> (f64 list \<times> nat) remote" where
  "decode_values_loop payload kind width end cursor component values =
     (if cursor < end then
        (case decode_value payload kind cursor width component of
           Ok (v, cursor') \<Rightarrow>
             decode_values_loop payload kind width end cursor' (component + 1) (values @ [v])
         | Err e \<Rightarrow> Err e
         | Panic \<Rightarrow> Panic)
      else Ok (values, cursor))"
  by auto
termination
  by (relation "measure (\<lambda>(payload, kind, width, end, cursor, component, values). end - cursor)")
    (auto dest: decode_value_advances)

declare decode_values_loop.simps [simp del]

definition decode_values ::
    "byte list \<Rightarrow> nat \<Rightarrow> lpp_kind \<Rightarrow> nat \<Rightarrow> string \<Rightarrow> (f64 list \<times> nat) remote" where
  "decode_values payload cursor kind count ctxt =
     (let width = fst (data_size_and_count kind); end = cursor + width * count in
      if end > length payload then Err (RE_Truncated ''telemetry values'')
      else
        rbind (decode_values_loop payload kind width end cursor 0 []) (\<lambda>(values, cursor).
        if length values \<noteq> count then Err (RE_Truncated ctxt) else Ok (values, cursor)))"

definition decode_summary_value :: "byte list \<Rightarrow> nat \<Rightarrow> lpp_kind \<Rightarrow> (f64 \<times> nat) remote" where
  "decode_summary_value payload cursor kind =
     rbind (ok_or (summary_width kind)
              (RE_Malformed ''vector and dynamic telemetry types are not valid MMA records'')) (\<lambda>width.
     let end = cursor + width in
     if end > length payload then Err (RE_Truncated ''summary value'')
     else
       rbind
         (if width = 1 \<and> summary_is_signed kind then idx payload cursor (\<lambda>b. Ok (sint b))
          else if width = 1 then idx payload cursor (\<lambda>b. Ok (uint b))
          else if width = 2 \<and> summary_is_signed kind then map_ok sint (read_i16_be payload cursor)
          else if width = 2 then map_ok uint (read_u16_be payload cursor)
          else if width = 4 \<and> summary_is_signed kind then map_ok sint (read_i32_be payload cursor)
          else if width = 4 then map_ok uint (read_u32_be payload cursor)
          else Err (RE_Malformed ''unsupported MMA value width''))
         (\<lambda>raw. Ok (flt_div 53 (flt_of_int 53 raw) (Finite (summary_multiplier kind)), end)))"

section \<open>Responses\<close>

text \<open>The loop over the entries of a neighbour page.\<close>

fun neighbour_entries ::
    "byte list \<Rightarrow> nat \<Rightarrow> nat \<Rightarrow> nat \<Rightarrow> neighbour_entry list \<Rightarrow> neighbour_entry list remote" where
  "neighbour_entries payload len 0 cursor entries = Ok entries"
| "neighbour_entries payload len (Suc n) cursor entries =
     (let prefix_end = cursor + len in
      slice payload cursor prefix_end (\<lambda>prefix.
      rbind (read_u32_le payload prefix_end) (\<lambda>secs.
      idx payload (prefix_end + 4) (\<lambda>snr_raw.
      neighbour_entries payload len n (cursor + (len + 5))
        (entries @ [\<lparr>ne_pubkey_prefix = prefix, secs_ago = secs,
                     snr_db = flt_div 53 (flt_of_int 53 (sint snr_raw)) (Finite 4)\<rparr>])))))"

definition parse_neighbour_page :: "byte list \<Rightarrow> byte \<Rightarrow> neighbour_page remote" where
  "parse_neighbour_page payload len =
     rbind (check_max_len payload) (\<lambda>_.
     if \<not> (1 \<le> len \<and> len \<le> 32) then Err (RE_Malformed ''prefix length must be between 1 and 32'')
     else if length payload < 4 then Err (RE_Truncated ''neighbour header'')
     else
       rbind (read_i16_le payload 0) (\<lambda>total.
       rbind (read_i16_le payload 2) (\<lambda>count.
       if sint total < 0 \<or> sint count < 0
       then Err (RE_Malformed ''neighbour counts must not be negative'')
       else if count > total
       then Err (RE_Malformed ''neighbour result count exceeds total count'')
       else
         let entry_count = unat count; entry_size = unat len + 5; expected = 4 + entry_count * entry_size in
         if expected \<noteq> length payload then Err (RE_Malformed ''neighbour page length mismatch'')
         else
           rbind (neighbour_entries payload (unat len) entry_count 4 []) (\<lambda>entries.
           Ok \<lparr>total_count = total, result_count = count, np_entries = entries\<rparr>))))"

definition parse_regions_response :: "byte list \<Rightarrow> regions_response remote" where
  "parse_regions_response payload =
     rbind (check_max_len payload) (\<lambda>_.
     if length payload < 4 then Err (RE_Truncated ''regions header'')
     else
       rbind (read_u32_le payload 0) (\<lambda>clock.
       slice payload 4 (length payload) (\<lambda>rest.
       rbind (trim_trailing_nul rest ''regions'') (\<lambda>content.
       if content = [] then Err (RE_Malformed ''at least one region entry is required'')
       else
         rbind (decode_string content ''regions'') (\<lambda>value.
         let names = split_on 0x2c value in
         if names = [] \<or> list_ex (\<lambda>n. n = []) names
         then Err (RE_Malformed ''at least one region entry is required'')
         else Ok \<lparr>regions_clock = clock, region_names = names\<rparr>)))))"

definition parse_owner_response :: "byte list \<Rightarrow> owner_response remote" where
  "parse_owner_response payload =
     rbind (check_max_len payload) (\<lambda>_.
     if length payload < 4 then Err (RE_Truncated ''owner header'')
     else
       rbind (read_u32_le payload 0) (\<lambda>clock.
       slice payload 4 (length payload) (\<lambda>rest.
       rbind (trim_trailing_nul rest ''owner'') (\<lambda>body.
       rbind (decode_string body ''owner'') (\<lambda>content.
       let parts = splitn 3 0x0a content in
       rbind (case get parts 0 of
                Some name \<Rightarrow> if name \<noteq> [] then Ok name else Err (RE_Malformed ''owner name'')
              | None \<Rightarrow> Err (RE_Malformed ''owner name'')) (\<lambda>name.
       rbind (case get parts 1 of
                Some owner \<Rightarrow> if owner \<noteq> [] then Ok owner else Err (RE_Malformed ''owner identity'')
              | None \<Rightarrow> Err (RE_Malformed ''owner identity'')) (\<lambda>owner.
       if get parts 2 \<noteq> None then Err (RE_Malformed ''owner contains too many fields'')
       else Ok \<lparr>owner_clock = clock, owner_name = name, owner_identity = owner\<rparr>)))))))"

definition parse_basic_response :: "byte list \<Rightarrow> basic_response remote" where
  "parse_basic_response payload =
     rbind (check_max_len payload) (\<lambda>_.
     if length payload \<noteq> 5 then Err (RE_Malformed ''basic payload must be exactly five bytes'')
     else
       rbind (read_u32_le payload 0) (\<lambda>clock.
       idx payload 4 (\<lambda>b. Ok \<lparr>basic_clock = clock, basic_feature = from_feature_byte b\<rparr>)))"

text \<open>The loop over the chunks of an access-control response; tombstones are skipped.\<close>

fun acl_chunks :: "byte list list \<Rightarrow> acl_entry list \<Rightarrow> acl_entry list remote" where
  "acl_chunks [] entries = Ok entries"
| "acl_chunks (chunk # rest) entries =
     slice chunk 0 6 (\<lambda>prefix.
     if prefix = replicate 6 0 then acl_chunks rest entries
     else idx chunk 6 (\<lambda>b.
       acl_chunks rest (entries @ [\<lparr>acl_pubkey_prefix = prefix, acl_mask = b\<rparr>])))"

definition parse_acl_payload :: "byte list \<Rightarrow> acl_response remote" where
  "parse_acl_payload payload =
     rbind (check_max_len payload) (\<lambda>_.
     if \<not> 7 dvd length payload then Err (RE_Malformed ''acl payload length must be a multiple of 7'')
     else
       rbind (acl_chunks (chunks_exact 7 payload) []) (\<lambda>entries. Ok \<lparr>acl_entries = entries\<rparr>))"

text \<open>
  One turn of the loop of \<^verbatim>\<open>parse_telemetry_payload\<close>: \<open>None\<close> is the \<^verbatim>\<open>break\<close> at channel zero,
  otherwise the sample that is pushed and the new cursor.
\<close>

definition telemetry_step :: "byte list \<Rightarrow> nat \<Rightarrow> (telemetry_sample \<times> nat) option remote" where
  "telemetry_step payload cursor =
     rbind (ok_or (get payload cursor) (RE_Truncated ''telemetry channel'')) (\<lambda>channel.
     let cursor = cursor + 1 in
     if channel = 0
     then slice payload cursor (length payload) (\<lambda>rest.
          if \<not> list_all (\<lambda>b. b = 0) rest
          then Err (RE_Malformed ''channel zero must be followed only by zero padding'') else Ok None)
     else
       rbind (ok_or (get payload cursor) (RE_Truncated ''telemetry type'')) (\<lambda>kind_code.
       let cursor = cursor + 1 in
       rbind (ok_or (lpp_from_code kind_code) (RE_UnknownType kind_code)) (\<lambda>kind.
       if kind = LK_Polyline then
         rbind (ok_or (get payload cursor) (RE_Truncated ''polyline size'')) (\<lambda>size_byte.
         let record_size = unat size_byte; end = cursor + record_size in
         if record_size < LPP_MIN_POLYLINE_SIZE
         then Err (RE_Malformed ''polyline record size below minimum'')
         else if end > length payload then Err (RE_Truncated ''polyline payload'')
         else slice payload cursor end (\<lambda>bytes.
           Ok (Some (\<lparr>ts_channel = channel, ts_kind = kind, ts_values = [], ts_raw = Some bytes\<rparr>, end))))
       else
         rbind (decode_values payload cursor kind (snd (data_size_and_count kind)) ''telemetry'')
           (\<lambda>(values, cursor).
         Ok (Some (\<lparr>ts_channel = channel, ts_kind = kind, ts_values = values, ts_raw = None\<rparr>, cursor))))))"

lemma decode_values_loop_Ok:
  "decode_values_loop payload kind width (cursor + width * n) cursor component values = Ok (vs, c') \<Longrightarrow>
   0 < width \<Longrightarrow>
   c' = cursor + width * n \<and> (\<exists>new. vs = values @ new \<and> length new = n \<and> list_all is_finite new)"
proof (induction n arbitrary: cursor component "values")
  case 0
  then show ?case by (simp add: decode_values_loop.simps)
next
  case (Suc n)
  then obtain v where v: "decode_value payload kind cursor width component = Ok (v, cursor + width)"
    "is_finite v"
    and rest: "decode_values_loop payload kind width (cursor + width + width * n) (cursor + width)
        (component + 1) (values @ [v]) = Ok (vs, c')"
  proof -
    from Suc.prems have run: "(case decode_value payload kind cursor width component of
           Ok (v, cursor') \<Rightarrow> decode_values_loop payload kind width (cursor + width * Suc n) cursor'
             (component + 1) (values @ [v])
         | Err e \<Rightarrow> Err e | Panic \<Rightarrow> Panic) = Ok (vs, c')"
      by (subst (asm) decode_values_loop.simps) simp
    then obtain v cursor' where v: "decode_value payload kind cursor width component = Ok (v, cursor')"
      by (cases "decode_value payload kind cursor width component") auto
    with decode_value_advances [OF v] run that show ?thesis by (simp add: add.assoc)
  qed
  from Suc.IH [OF rest Suc.prems(2)] obtain new where
    "c' = cursor + width + width * n" "vs = (values @ [v]) @ new" "length new = n" "list_all is_finite new"
    by blast
  with v(2) show ?case by (intro conjI exI [of _ "v # new"]) simp_all
qed

lemma decode_values_Ok:
  assumes "decode_values payload cursor kind count ctxt = Ok (vs, c')"
  shows "c' = cursor + fst (data_size_and_count kind) * count \<and> c' \<le> length payload \<and>
         length vs = count \<and> list_all is_finite vs"
proof -
  let ?w = "fst (data_size_and_count kind)"
  from assms have len: "cursor + ?w * count \<le> length payload" "length vs = count"
    and loop: "decode_values_loop payload kind ?w (cursor + ?w * count) cursor 0 [] = Ok (vs, c')"
    unfolding decode_values_def Let_def by (simp_all add: rbind_eq_Ok split: if_splits prod.splits)
  show ?thesis
  proof (cases "?w = 0")
    case True
    with loop len show ?thesis by (simp add: decode_values_loop.simps)
  next
    case False
    with decode_values_loop_Ok [OF loop] len show ?thesis by simp
  qed
qed

lemma telemetry_step_advances:
  "telemetry_step payload cursor = Ok (Some (r, c')) \<Longrightarrow> cursor < c'"
  by (auto simp: telemetry_step_def rbind_eq_Ok Let_def slice_def split: if_splits
      dest!: decode_values_Ok)

function telemetry_loop :: "byte list \<Rightarrow> nat \<Rightarrow> telemetry_sample list \<Rightarrow> telemetry_sample list remote" where
  "telemetry_loop payload cursor readings =
     (if cursor < length payload then
        (case telemetry_step payload cursor of
           Ok None \<Rightarrow> Ok readings
         | Ok (Some (r, cursor')) \<Rightarrow> telemetry_loop payload cursor' (readings @ [r])
         | Err e \<Rightarrow> Err e
         | Panic \<Rightarrow> Panic)
      else Ok readings)"
  by auto
termination
  by (relation "measure (\<lambda>(payload, cursor, readings). length payload - cursor)")
    (auto dest: telemetry_step_advances)

declare telemetry_loop.simps [simp del]

definition parse_telemetry_payload :: "byte list \<Rightarrow> telemetry_sample list remote" where
  "parse_telemetry_payload payload =
     rbind (check_max_len payload) (\<lambda>_.
     if payload = [] then Ok [] else telemetry_loop payload 0 [])"

text \<open>The same for \<^verbatim>\<open>parse_summary_payload\<close>.\<close>

definition summary_step :: "byte list \<Rightarrow> nat \<Rightarrow> (summary_record \<times> nat) option remote" where
  "summary_step payload cursor =
     rbind (ok_or (get payload cursor) (RE_Truncated ''summary channel'')) (\<lambda>channel.
     let cursor = cursor + 1 in
     if channel = 0
     then slice payload cursor (length payload) (\<lambda>rest.
          if \<not> list_all (\<lambda>b. b = 0) rest
          then Err (RE_Malformed ''summary terminator must be followed only by zero padding'')
          else Ok None)
     else
       rbind (ok_or (get payload cursor) (RE_Truncated ''summary kind'')) (\<lambda>kind_code.
       let cursor = cursor + 1 in
       rbind (ok_or (lpp_from_code kind_code) (RE_UnknownType kind_code)) (\<lambda>kind.
       rbind (decode_summary_value payload cursor kind) (\<lambda>(v_min, cursor).
       rbind (decode_summary_value payload cursor kind) (\<lambda>(v_max, cursor).
       rbind (decode_summary_value payload cursor kind) (\<lambda>(v_avg, cursor).
       Ok (Some (\<lparr>sr_channel = channel, sr_kind = kind, sr_minimum = v_min, sr_maximum = v_max,
                  sr_average = v_avg\<rparr>, cursor))))))))"

lemma decode_summary_value_advances:
  "decode_summary_value payload cursor kind = Ok (v, c') \<Longrightarrow>
   \<exists>w. summary_width kind = Some w \<and> c' = cursor + w \<and> c' \<le> length payload"
  by (auto simp: decode_summary_value_def rbind_eq_Ok Let_def split: if_splits)

lemma summary_step_advances:
  "summary_step payload cursor = Ok (Some (r, c')) \<Longrightarrow> cursor < c'"
  by (auto simp: summary_step_def rbind_eq_Ok Let_def slice_def split: if_splits
      dest!: decode_summary_value_advances)

function summary_loop :: "byte list \<Rightarrow> nat \<Rightarrow> summary_record list \<Rightarrow> summary_record list remote" where
  "summary_loop payload cursor entries =
     (if cursor < length payload then
        (case summary_step payload cursor of
           Ok None \<Rightarrow> Ok entries
         | Ok (Some (r, cursor')) \<Rightarrow> summary_loop payload cursor' (entries @ [r])
         | Err e \<Rightarrow> Err e
         | Panic \<Rightarrow> Panic)
      else Ok entries)"
  by auto
termination
  by (relation "measure (\<lambda>(payload, cursor, entries). length payload - cursor)")
    (auto dest: summary_step_advances)

declare summary_loop.simps [simp del]

definition parse_summary_payload :: "byte list \<Rightarrow> summary_response remote" where
  "parse_summary_payload payload =
     rbind (check_max_len payload) (\<lambda>_.
     if length payload < 4 then Err (RE_Truncated ''summary clock'')
     else
       rbind (read_u32_le payload 0) (\<lambda>clock.
       rbind (summary_loop payload 4 []) (\<lambda>entries.
       Ok \<lparr>summary_clock = clock, summary_entries = entries\<rparr>)))"

section \<open>No parser panics\<close>

lemma readers_not_Panic [simp]:
  "read_i16_le raw i \<noteq> Panic" "read_u32_le raw i \<noteq> Panic" "read_u16_be raw i \<noteq> Panic"
  "read_i16_be raw i \<noteq> Panic" "read_u24_be raw i \<noteq> Panic" "read_u32_be raw i \<noteq> Panic"
  "read_i32_be raw i \<noteq> Panic" "read_i24_be raw i \<noteq> Panic"
  by (simp_all add: read_i16_le_def read_u32_le_def read_u16_be_def read_i16_be_def read_u24_be_def
      read_u32_be_def read_i32_be_def read_i24_be_def rbind_eq_Panic)

lemma decode_value_not_Panic: "decode_value raw kind cursor width component \<noteq> Panic"
  by (auto simp: decode_value_def rbind_eq_Panic Let_def)

lemma decode_values_loop_not_Panic: "decode_values_loop payload kind width e cursor component vs \<noteq> Panic"
proof (induction payload kind width e cursor component vs rule: decode_values_loop.induct)
  case (1 payload kind width e cursor component vs)
  show ?case
    using 1 decode_value_not_Panic [of payload kind cursor width component]
    by (subst decode_values_loop.simps) (auto split: result.splits)
qed

lemma decode_values_not_Panic: "decode_values payload cursor kind count ctxt \<noteq> Panic"
  by (auto simp: decode_values_def Let_def rbind_eq_Panic decode_values_loop_not_Panic)

lemma telemetry_step_not_Panic: "telemetry_step payload cursor \<noteq> Panic"
  by (auto simp: telemetry_step_def rbind_eq_Panic Let_def decode_values_not_Panic)

lemma telemetry_loop_not_Panic: "telemetry_loop payload cursor rs \<noteq> Panic"
proof (induction payload cursor rs rule: telemetry_loop.induct)
  case (1 payload cursor rs)
  show ?case
    using 1 telemetry_step_not_Panic [of payload cursor]
    by (subst telemetry_loop.simps) (auto split: result.splits option.splits)
qed

lemma decode_summary_value_not_Panic: "decode_summary_value payload cursor kind \<noteq> Panic"
  by (cases kind) (auto simp: decode_summary_value_def rbind_eq_Panic Let_def)

lemma summary_step_not_Panic: "summary_step payload cursor \<noteq> Panic"
  by (auto simp: summary_step_def rbind_eq_Panic Let_def decode_summary_value_not_Panic)

lemma summary_loop_not_Panic: "summary_loop payload cursor rs \<noteq> Panic"
proof (induction payload cursor rs rule: summary_loop.induct)
  case (1 payload cursor rs)
  show ?case
    using 1 summary_step_not_Panic [of payload cursor]
    by (subst summary_loop.simps) (auto split: result.splits option.splits)
qed

lemma rbind_check_max_len [parsers]:
  "rbind (check_max_len payload) k =
     (if length payload > MAX_REMOTE_PAYLOAD_LEN
      then Err (RE_PayloadTooLarge (length payload) MAX_REMOTE_PAYLOAD_LEN) else k ())"
  by (simp add: check_max_len_def)

lemma trim_trailing_nul_not_Panic: "trim_trailing_nul raw ctxt \<noteq> Panic"
  by (auto simp: trim_trailing_nul_def position_eq_Some split: option.splits)

lemma decode_string_not_Panic [simp]: "decode_string raw ctxt \<noteq> Panic"
  by (simp add: decode_string_def)

lemma acl_chunks_not_Panic: "(\<And>c. c \<in> set cs \<Longrightarrow> length c = 7) \<Longrightarrow> acl_chunks cs es \<noteq> Panic"
  by (induction cs es rule: acl_chunks.induct) auto

lemma neighbour_entries_not_Panic:
  "cursor + n * (len + 5) \<le> length payload \<Longrightarrow> neighbour_entries payload len n cursor es \<noteq> Panic"
  by (induction payload len n cursor es rule: neighbour_entries.induct)
    (auto simp: Let_def rbind_eq_Panic)

text \<open>C36: the remote parsers are total: on any payload each of them returns a value or an error,
  and none of their indexing, slicing or loops panics.\<close>

theorem remote_parsers_never_panic:
  "parse_neighbour_page payload len \<noteq> Panic \<and> parse_regions_response payload \<noteq> Panic \<and>
   parse_owner_response payload \<noteq> Panic \<and> parse_basic_response payload \<noteq> Panic \<and>
   parse_acl_payload payload \<noteq> Panic \<and> parse_telemetry_payload payload \<noteq> Panic \<and>
   parse_summary_payload payload \<noteq> Panic"
proof (intro conjI)
  show "parse_neighbour_page payload len \<noteq> Panic"
    by (auto simp: parse_neighbour_page_def parsers rbind_eq_Panic Let_def neighbour_entries_not_Panic)
  show "parse_regions_response payload \<noteq> Panic"
    by (auto simp: parse_regions_response_def parsers rbind_eq_Panic Let_def trim_trailing_nul_not_Panic)
  show "parse_owner_response payload \<noteq> Panic"
    by (auto simp: parse_owner_response_def parsers rbind_eq_Panic Let_def trim_trailing_nul_not_Panic
        split: option.splits)
  show "parse_basic_response payload \<noteq> Panic"
    by (auto simp: parse_basic_response_def parsers rbind_eq_Panic)
  show "parse_acl_payload payload \<noteq> Panic"
    by (auto simp: parse_acl_payload_def parsers rbind_eq_Panic acl_chunks_not_Panic length_chunk_exact)
  show "parse_telemetry_payload payload \<noteq> Panic"
    by (auto simp: parse_telemetry_payload_def parsers telemetry_loop_not_Panic)
  show "parse_summary_payload payload \<noteq> Panic"
    by (auto simp: parse_summary_payload_def parsers rbind_eq_Panic summary_loop_not_Panic)
qed

section \<open>Signed 24-bit values\<close>

lemma push_bit_add_low:
  fixes x y :: int
  assumes "0 \<le> x" "x < 2 ^ n"
  shows "push_bit n y + x = push_bit n y OR x"
proof (rule disjunctive_add)
  fix k
  have "x = take_bit n x" using assms by (simp add: take_bit_int_eq_self)
  then have "bit x k \<Longrightarrow> k < n" by (metis bit_take_bit_iff)
  then show "\<not> bit (push_bit n y) k \<or> \<not> bit x k" by (auto simp: bit_push_bit_iff)
qed

lemma uint_byte_bounds: "0 \<le> uint (b :: byte)" "uint b < 256"
  using uint_bounded [of b] by simp_all

definition i24 :: "byte \<Rightarrow> byte \<Rightarrow> byte \<Rightarrow> int" where
  "i24 b0 b1 b2 =
     (let u = uint b0 * 65536 + uint b1 * 256 + uint b2 in if u < 2 ^ 23 then u else u - 2 ^ 24)"

lemma u24_value:
  "uint b0 * 65536 + uint b1 * 256 + uint b2 =
   push_bit 16 (uint b0) OR push_bit 8 (uint b1) OR uint (b2 :: byte)" for b0 b1 b2 :: byte
proof -
  have low: "push_bit 8 (uint b1) + uint b2 = push_bit 8 (uint b1) OR uint b2"
    using uint_byte_bounds [of b2] by (intro push_bit_add_low) auto
  have "0 \<le> push_bit 8 (uint b1) + uint b2" "push_bit 8 (uint b1) + uint b2 < 2 ^ 16"
    using uint_byte_bounds [of b1] uint_byte_bounds [of b2] by (simp_all add: push_bit_eq_mult)
  from push_bit_add_low [OF this, of "uint b0"] have
    "push_bit 16 (uint b0) + (push_bit 8 (uint b1) + uint b2) =
     push_bit 16 (uint b0) OR push_bit 8 (uint b1) OR uint b2"
    by (simp only: low)
  then show ?thesis by (simp add: push_bit_eq_mult)
qed

lemma signed_take_bit_wrap: "signed_take_bit 23 (x - 2 ^ 24) = signed_take_bit 23 (x :: int)"
proof -
  have m: "(2 :: int) ^ 24 = 2 ^ Suc 23" by simp
  have "(x - 2 ^ 24 + 2 ^ 23) mod 2 ^ Suc 23 = ((x + 2 ^ 23) - 2 ^ Suc 23) mod (2 ^ Suc 23 :: int)"
    unfolding m by (rule arg_cong [where f = "\<lambda>z. z mod 2 ^ Suc 23"]) simp
  also have "\<dots> = (x + 2 ^ 23) mod 2 ^ Suc 23" by (rule minus_mod_self2)
  finally show ?thesis by (simp only: signed_take_bit_eq_take_bit_shift take_bit_eq_mod)
qed

lemma i24_signed: "i24 b0 b1 b2 = signed_take_bit 23 (uint b0 * 65536 + uint b1 * 256 + uint b2)"
proof -
  let ?u = "uint b0 * 65536 + uint b1 * 256 + uint b2"
  have b: "0 \<le> ?u" "?u < 2 ^ 24"
    using uint_byte_bounds [of b0] uint_byte_bounds [of b1] uint_byte_bounds [of b2] by simp_all
  show ?thesis
  proof (cases "?u < 2 ^ 23")
    case True
    moreover have "- (2 ^ 23) \<le> ?u" by (rule order_trans [OF _ b(1)]) simp
    ultimately have "signed_take_bit 23 ?u = ?u" by (intro signed_take_bit_int_eq_self)
    with True show ?thesis by (simp add: i24_def Let_def)
  next
    case False
    have "signed_take_bit 23 ?u = signed_take_bit 23 (?u - 2 ^ 24)"
      by (simp only: signed_take_bit_wrap)
    also have "\<dots> = ?u - 2 ^ 24" using b False by (intro signed_take_bit_int_eq_self) auto
    finally show ?thesis using False by (simp add: i24_def Let_def)
  qed
qed

text \<open>A signed 24-bit telemetry component is the two's complement reading of its three
  big-endian bytes: masking the sign bit and filling the upper byte extends the sign.\<close>

lemma read_i24_be_value:
  assumes "i + 3 \<le> length raw"
  shows "\<exists>v. read_i24_be raw i = Ok v \<and> sint v = i24 (raw ! i) (raw ! (i + 1)) (raw ! (i + 2))"
proof -
  let ?b0 = "raw ! i" and ?b1 = "raw ! (i + 1)" and ?b2 = "raw ! (i + 2)"
  let ?u = "uint ?b0 * 65536 + uint ?b1 * 256 + uint ?b2"
  define w24 :: u32 where "w24 = push_bit 16 (ucast ?b0) OR push_bit 8 (ucast ?b1) OR ucast ?b2"
  define v where "v = (if w24 AND 0x800000 \<noteq> 0 then w24 OR NOT 0xFFFFFF else w24)"
  have read: "read_i24_be raw i = Ok v"
    using assms by (simp add: read_i24_be_def read_u24_be_def get_range_def w24_def v_def)
  have bits: "bit w24 n = bit ?u n" if "n < 32" for n
    using that unfolding u24_value w24_def by (auto simp: bit_simps bit_uint_iff)
  have "(0x800000 :: u32) = 2 ^ 23" "(0xFFFFFF :: u32) = mask 24" by (simp_all add: mask_eq_exp_minus_1)
  then have v: "v = (if bit w24 23 then w24 OR NOT (mask 24) else w24)"
    by (simp only: v_def and_exp_eq_0_iff_not_bit not_not)
  have high: "\<not> bit ?u n" if "24 \<le> n" for n
    using that unfolding u24_value by (auto simp: bit_simps bit_uint_iff byte_bit_high)
  have "v = word_of_int (signed_take_bit 23 ?u)"
  proof (rule bit_word_eqI)
    fix n assume n: "n < LENGTH(32)"
    then consider "n < 23" | "n = 23" | "24 \<le> n" "n < 32" by fastforce
    then show "bit v n = bit (word_of_int (signed_take_bit 23 ?u) :: u32) n"
      using bits [of n] bits [of 23] high [of n]
      by cases (simp_all add: v bit_simps min_def)
  qed
  then have "sint v = signed_take_bit 31 (signed_take_bit 23 ?u)"
    by (simp only: sint_sbintrunc') simp
  also have "\<dots> = signed_take_bit 23 ?u" by (simp add: signed_take_bit_signed_take_bit)
  finally show ?thesis using read by (simp only: i24_signed) blast
qed

section \<open>Access control\<close>

definition encode_acl :: "acl_entry \<Rightarrow> byte list" where
  "encode_acl e = acl_pubkey_prefix e @ [acl_mask e]"

lemma acl_chunks_encoded:
  "list_all (\<lambda>e. length (acl_pubkey_prefix e) = 6) es \<Longrightarrow>
   acl_chunks (map encode_acl es) acc = Ok (acc @ filter (\<lambda>e. acl_pubkey_prefix e \<noteq> replicate 6 0) es)"
proof (induction es arbitrary: acc)
  case (Cons e es)
  have "length (acl_pubkey_prefix e) = 6" using Cons.prems by simp
  then show ?case using Cons by (simp add: encode_acl_def nth_append)
qed simp

text \<open>C39: an access-control response is the list of its entries without the tombstones: parsing
  the concatenation of up to 25 entries returns, in order, those whose key prefix is not all
  zero.\<close>

theorem acl_payload_entries:
  assumes "list_all (\<lambda>e. length (acl_pubkey_prefix e) = 6) es" and "length es \<le> 25"
  shows "parse_acl_payload (concat (map encode_acl es)) =
         Ok \<lparr>acl_entries = filter (\<lambda>e. acl_pubkey_prefix e \<noteq> replicate 6 0) es\<rparr>"
proof -
  have seven: "length (encode_acl e) = 7" if "e \<in> set es" for e
    using assms(1) that by (auto simp: list_all_iff encode_acl_def)
  then have "chunks_exact 7 (concat (map encode_acl es)) = map encode_acl es"
    by (intro chunks_exact_concat) auto
  moreover have "length (concat (map encode_acl es)) = length es * 7"
    using seven by (rule length_concat_const)
  ultimately show ?thesis
    using assms acl_chunks_encoded [OF assms(1), of "[]"]
    by (simp add: parse_acl_payload_def check_max_len_def MAX_REMOTE_PAYLOAD_LEN_def MAX_INNER_PAYLOAD_def
        del: length_concat)
qed

theorem acl_payload_entries_witness:
  "parse_acl_payload (replicate 6 0 @ [5, 1, 2, 3, 4, 5, 6, 7]) =
   Ok \<lparr>acl_entries = [\<lparr>acl_pubkey_prefix = [1, 2, 3, 4, 5, 6], acl_mask = 7\<rparr>]\<rparr>"
proof -
  let ?es = "[\<lparr>acl_pubkey_prefix = replicate 6 0, acl_mask = 5\<rparr>,
    \<lparr>acl_pubkey_prefix = [1, 2, 3, 4, 5, 6], acl_mask = 7\<rparr>]"
  have "concat (map encode_acl ?es) = replicate 6 0 @ [5, 1, 2, 3, 4, 5, 6, 7]"
    by (simp add: encode_acl_def)
  with acl_payload_entries [of ?es] show ?thesis by (simp add: numeral_eq_Suc)
qed

section \<open>Neighbour pages\<close>

definition encode_neighbour :: "byte list \<times> u32 \<times> byte \<Rightarrow> byte list" where
  "encode_neighbour e = (case e of (prefix, secs, snr) \<Rightarrow> prefix @ u32_to_le_bytes secs @ [snr])"

definition decoded_neighbour :: "byte list \<times> u32 \<times> byte \<Rightarrow> neighbour_entry" where
  "decoded_neighbour e =
     (case e of (prefix, secs, snr) \<Rightarrow>
        \<lparr>ne_pubkey_prefix = prefix, secs_ago = secs,
         snr_db = flt_div 53 (flt_of_int 53 (sint snr)) (Finite 4)\<rparr>)"

lemma read_u32_le_append: "read_u32_le (a @ u32_to_le_bytes w @ b) (length a) = Ok w"
  using u32_le_roundtrip [of w] by (simp add: read_u32_le_def get_range_def)

lemma neighbour_entries_encoded:
  "(\<And>e. e \<in> set es \<Longrightarrow> length (fst e) = len) \<Longrightarrow>
   neighbour_entries (a @ concat (map encode_neighbour es)) len (length es) (length a) acc =
   Ok (acc @ map decoded_neighbour es)"
proof (induction es arbitrary: a acc)
  case (Cons e es)
  obtain p s b where e: "e = (p, s, b)" by (cases e)
  have p: "length p = len" using Cons.prems [of e] e by simp
  let ?rest = "concat (map encode_neighbour es)"
  define payload where "payload = a @ concat (map encode_neighbour (e # es))"
  have pl: "payload = (a @ p) @ u32_to_le_bytes s @ b # ?rest" "payload = (a @ encode_neighbour e) @ ?rest"
    by (simp_all add: payload_def encode_neighbour_def e)
  have r: "read_u32_le payload (length a + len) = Ok s"
    unfolding pl(1) using read_u32_le_append [of "a @ p" s "b # ?rest"] p by simp
  have "length (encode_neighbour e) = len + 5" using p by (simp add: encode_neighbour_def e)
  then have IH: "neighbour_entries payload len (length es) (length a + (len + 5))
      (acc @ [decoded_neighbour e]) = Ok (acc @ decoded_neighbour e # map decoded_neighbour es)"
    using Cons.IH [of "a @ encode_neighbour e" "acc @ [decoded_neighbour e]"] Cons.prems
    by (simp add: pl(2))
  have sl: "take len (drop (length a) payload) = p" "payload ! (length a + len + 4) = b"
    "length a + len + 5 \<le> length payload"
    unfolding pl(1) using p by (simp_all add: nth_append)
  have d: "decoded_neighbour e = \<lparr>ne_pubkey_prefix = p, secs_ago = s,
      snr_db = flt_div 53 (flt_of_int 53 (sint b)) (Finite 4)\<rparr>"
    by (simp add: decoded_neighbour_def e)
  show ?case
    unfolding payload_def [symmetric] using sl r IH by (simp add: Let_def d)
qed simp

lemma signed_take_bit_small: "n < 2 ^ 15 \<Longrightarrow> signed_take_bit 15 (int n) = int n"
  by (rule signed_take_bit_int_eq_self) auto

lemma sint_u16_small: "unat w < 2 ^ 15 \<Longrightarrow> sint (w :: u16) = int (unat w)"
  using signed_take_bit_small [of "unat w"] by (simp add: sint_uint)

definition encode_page :: "u16 \<Rightarrow> (byte list \<times> u32 \<times> byte) list \<Rightarrow> byte list" where
  "encode_page tot es =
     u16_to_le_bytes tot @ u16_to_le_bytes (of_nat (length es)) @ concat (map encode_neighbour es)"

text \<open>C38: a neighbour page is parsed back from its wire form: counts, key prefixes of the requested
  length, ages and signal ratios, for every page that fits a payload.\<close>

theorem neighbour_page_roundtrip:
  assumes len: "1 \<le> len" "len \<le> 32" and es: "list_all (\<lambda>e. length (fst e) = unat len) es"
    and tot: "length es \<le> unat tot" "unat tot < 2 ^ 15"
    and size: "4 + length es * (unat len + 5) \<le> MAX_REMOTE_PAYLOAD_LEN"
  shows "parse_neighbour_page (encode_page tot es) len =
         Ok \<lparr>total_count = tot, result_count = of_nat (length es),
             np_entries = map decoded_neighbour es\<rparr>"
proof -
  have each: "length (encode_neighbour e) = unat len + 5" if "e \<in> set es" for e
    using es that by (auto simp: list_all_iff encode_neighbour_def split: prod.splits)
  have plen: "length (encode_page tot es) = 4 + length es * (unat len + 5)"
    using length_concat_const [OF each] by (simp add: encode_page_def del: length_concat)
  have cnt: "unat (of_nat (length es) :: u16) = length es"
    using tot by (simp add: unsigned_of_nat take_bit_nat_eq_self)
  have pos: "0 \<le> sint tot" "0 \<le> sint (of_nat (length es) :: u16)"
    using tot cnt by (simp_all add: sint_u16_small)
  have reads: "read_i16_le (encode_page tot es) 0 = Ok tot"
    "read_i16_le (encode_page tot es) 2 = Ok (of_nat (length es))"
    using u16_le_roundtrip [of tot] u16_le_roundtrip [of "of_nat (length es)"]
    by (simp_all add: read_i16_le_def get_range_def encode_page_def nth_append)
  have run: "neighbour_entries (encode_page tot es) (unat len) (length es) 4 [] =
      Ok (map decoded_neighbour es)"
    using neighbour_entries_encoded [of es "unat len"
        "u16_to_le_bytes tot @ u16_to_le_bytes (of_nat (length es))" "[]"] es
    by (simp add: encode_page_def list_all_iff)
  show ?thesis
    using len size pos reads run cnt tot plen
    by (simp add: parse_neighbour_page_def check_max_len_def word_less_nat_alt Let_def)
qed

theorem neighbour_page_roundtrip_witness:
  "parse_neighbour_page (encode_page 5 [([1, 2], 7, 0xfc)]) 2 =
   Ok \<lparr>total_count = 5, result_count = 1, np_entries = [decoded_neighbour ([1, 2], 7, 0xfc)]\<rparr>"
  using neighbour_page_roundtrip [of 2 "[([1, 2], 7, 0xfc)]" 5]
  by (simp add: MAX_REMOTE_PAYLOAD_LEN_def MAX_INNER_PAYLOAD_def)

section \<open>Telemetry\<close>

definition sample_size :: "telemetry_sample \<Rightarrow> nat" where
  "sample_size r =
     2 + (case ts_raw r of
            Some bytes \<Rightarrow> length bytes
          | None \<Rightarrow> fst (data_size_and_count (ts_kind r)) * snd (data_size_and_count (ts_kind r)))"

definition sample_wf :: "telemetry_sample \<Rightarrow> bool" where
  "sample_wf r \<longleftrightarrow>
     ts_channel r \<noteq> 0 \<and>
     (case ts_raw r of
        Some bytes \<Rightarrow> ts_kind r = LK_Polyline \<and> ts_values r = [] \<and>
          LPP_MIN_POLYLINE_SIZE \<le> length bytes \<and> unat (bytes ! 0) = length bytes
      | None \<Rightarrow> ts_kind r \<noteq> LK_Polyline \<and> list_all is_finite (ts_values r) \<and>
          length (ts_values r) = snd (data_size_and_count (ts_kind r)))"

lemma telemetry_step_Some:
  assumes "telemetry_step payload cursor = Ok (Some (r, c'))"
  shows "sample_wf r \<and> c' = cursor + sample_size r \<and> c' \<le> length payload"
  using assms
  by (auto simp: telemetry_step_def rbind_eq_Ok Let_def slice_eq_Ok sample_wf_def sample_size_def
      LPP_MIN_POLYLINE_SIZE_def split: if_splits dest!: decode_values_Ok)

lemma telemetry_step_None:
  "telemetry_step payload cursor = Ok None \<Longrightarrow> list_all (\<lambda>b. b = 0) (drop cursor payload)"
  by (auto simp: telemetry_step_def rbind_eq_Ok Let_def slice_eq_Ok Cons_nth_drop_Suc [symmetric]
      split: if_splits)

lemma telemetry_loop_Ok:
  "telemetry_loop payload cursor acc = Ok rs \<Longrightarrow> cursor \<le> length payload \<Longrightarrow>
   \<exists>new. rs = acc @ new \<and> list_all sample_wf new \<and>
     cursor + sum_list (map sample_size new) \<le> length payload \<and>
     list_all (\<lambda>b. b = 0) (drop (cursor + sum_list (map sample_size new)) payload)"
proof (induction payload cursor acc rule: telemetry_loop.induct)
  case (1 payload cursor acc)
  show ?case
  proof (cases "cursor < length payload")
    case False
    with 1 show ?thesis by (subst (asm) telemetry_loop.simps) auto
  next
    case True
    with "1.prems"(1) have run: "(case telemetry_step payload cursor of
           Ok None \<Rightarrow> Ok acc
         | Ok (Some (r, cursor')) \<Rightarrow> telemetry_loop payload cursor' (acc @ [r])
         | Err e \<Rightarrow> Err e | Panic \<Rightarrow> Panic) = Ok rs"
      by (subst (asm) telemetry_loop.simps) simp
    then obtain o' where st: "telemetry_step payload cursor = Ok o'"
      by (cases "telemetry_step payload cursor") auto
    show ?thesis
    proof (cases o')
      case None
      with st run True telemetry_step_None show ?thesis by (intro exI [of _ "[]"]) simp
    next
      case (Some rc)
      obtain r c' where rc: "rc = (r, c')" by (cases rc)
      with st Some have step: "telemetry_step payload cursor = Ok (Some (r, c'))" by simp
      note wf = telemetry_step_Some [OF step]
      from run step have "telemetry_loop payload c' (acc @ [r]) = Ok rs" by simp
      from "1.IH" [OF True step _ _ this] wf obtain new where
        "rs = (acc @ [r]) @ new" "list_all sample_wf new"
        "c' + sum_list (map sample_size new) \<le> length payload"
        "list_all (\<lambda>b. b = 0) (drop (c' + sum_list (map sample_size new)) payload)"
        by auto
      with wf show ?thesis by (intro exI [of _ "r # new"]) (auto simp: add.assoc)
    qed
  qed
qed

text \<open>C37: a telemetry payload that parses is accounted for byte by byte: the samples are well
  formed (a non-zero channel; as many finite values as the kind prescribes, or a polyline record
  of its declared length), their records fill the payload from its start, and what remains is
  zero padding.\<close>

theorem telemetry_accounts_for_every_byte:
  assumes "parse_telemetry_payload payload = Ok readings"
  shows "list_all sample_wf readings \<and>
         sum_list (map sample_size readings) \<le> length payload \<and>
         list_all (\<lambda>b. b = 0) (drop (sum_list (map sample_size readings)) payload)"
proof (cases "payload = []")
  case True
  with assms show ?thesis
    by (simp add: parse_telemetry_payload_def check_max_len_def split: if_splits)
next
  case False
  with assms have "telemetry_loop payload 0 [] = Ok readings"
    by (simp add: parse_telemetry_payload_def check_max_len_def split: if_splits)
  from telemetry_loop_Ok [OF this] show ?thesis by auto
qed

theorem telemetry_accounts_for_every_byte_witness:
  "list_all sample_wf
     [\<lparr>ts_channel = 1, ts_kind = LK_Temperature, ts_values = [Finite 20], ts_raw = None\<rparr>] \<and>
   parse_telemetry_payload [1, 103, 0, 200, 0, 0] =
     Ok [\<lparr>ts_channel = 1, ts_kind = LK_Temperature, ts_values = [Finite 20], ts_raw = None\<rparr>]"
proof -
  have "parse_telemetry_payload [1, 103, 0, 200, 0, 0] =
      Ok [\<lparr>ts_channel = 1, ts_kind = LK_Temperature, ts_values = [Finite 20], ts_raw = None\<rparr>]"
    by code_simp
  from telemetry_accounts_for_every_byte [OF this] this show ?thesis by blast
qed

section \<open>Regions\<close>

lemma trim_trailing_nul_padded:
  assumes "0 \<notin> set s" shows "trim_trailing_nul (s @ replicate n 0) ctxt = Ok s"
proof (cases n)
  case 0
  with assms show ?thesis by (simp add: trim_trailing_nul_def position_absent)
next
  case (Suc k)
  then have "position 0 (s @ replicate n 0) = Some (length s)"
    using position_append [OF assms, of "replicate n 0"] by simp
  with Suc show ?thesis by (simp add: trim_trailing_nul_def list_ex_iff)
qed

definition region_wf :: "rstr \<Rightarrow> bool" where
  "region_wf n \<longleftrightarrow> n \<noteq> [] \<and> utf8 n \<and> set n \<inter> {0, 0x2c} = {}"

text \<open>C40: a region list is parsed back from its comma-separated form, with or without NUL padding.\<close>

theorem regions_roundtrip:
  assumes "names \<noteq> []" and wf: "list_all region_wf names"
    and size: "4 + length (join 0x2c names) + pad \<le> MAX_REMOTE_PAYLOAD_LEN"
  shows "parse_regions_response (u32_to_le_bytes clock @ join 0x2c names @ replicate pad 0) =
         Ok \<lparr>regions_clock = clock, region_names = names\<rparr>"
proof -
  have w: "region_wf n" if "n \<in> set names" for n using wf that by (simp add: list_all_iff)
  have "join 0x2c names \<noteq> []" using assms(1) w by (subst join_eq_Nil) (auto simp: region_wf_def)
  moreover have "0 \<notin> set (join 0x2c names)"
    using set_join [of "0x2c" names] w by (fastforce simp: region_wf_def)
  then have "trim_trailing_nul (join 0x2c names @ replicate pad 0) ''regions'' = Ok (join 0x2c names)"
    by (rule trim_trailing_nul_padded)
  moreover have "utf8 (join 0x2c names)" using w by (intro utf8_join) (auto simp: region_wf_def)
  moreover have "split_on 0x2c (join 0x2c names) = names"
    using assms(1) w by (intro split_on_join) (auto simp: region_wf_def)
  moreover have "\<not> list_ex (\<lambda>n. n = []) names" using w by (auto simp: list_ex_iff region_wf_def)
  moreover have "read_u32_le (u32_to_le_bytes clock @ join 0x2c names @ replicate pad 0) 0 = Ok clock"
    using u32_le_roundtrip [of clock] by (simp add: read_u32_le_def get_range_def)
  ultimately show ?thesis
    using size assms(1)
    by (simp add: parse_regions_response_def check_max_len_def decode_string_def Let_def)
qed

theorem regions_roundtrip_witness:
  "parse_regions_response (u32_to_le_bytes 9 @ bytes_of ''eu,us'' @ replicate 3 0) =
   Ok \<lparr>regions_clock = 9, region_names = [bytes_of ''eu'', bytes_of ''us'']\<rparr>"
proof -
  have "list_all region_wf [bytes_of ''eu'', bytes_of ''us'']" by code_simp
  moreover have "join 0x2c [bytes_of ''eu'', bytes_of ''us''] = bytes_of ''eu,us''"
    "4 + length (bytes_of ''eu,us'') + 3 \<le> MAX_REMOTE_PAYLOAD_LEN"
    by code_simp+
  ultimately show ?thesis
    using regions_roundtrip [of "[bytes_of ''eu'', bytes_of ''us'']" 3 9] by simp
qed

end
