(* ===== verification/Chars.thy ===== *)
theory Chars
  imports Text
begin

text \<open>
  The characters of a Rust string, where the code looks at them: the scalar values a UTF-8 byte
  list decodes to, the classes \<^verbatim>\<open>char::is_control\<close> and \<^verbatim>\<open>char::is_whitespace\<close> of the standard
  library, \<^verbatim>\<open>str::trim\<close>, \<^verbatim>\<open>str::contains\<close> and the ASCII case conversions.
\<close>

section \<open>Scalar values\<close>

definition scalar :: "byte \<Rightarrow> byte list \<Rightarrow> nat" where
  "scalar b rest =
     foldl (\<lambda>acc c. acc * 64 + (unat c - 0x80))
       (unat b - (if b < 0xE0 then 0xC0 else if b < 0xF0 then 0xE0 else 0xF0)) rest"

text \<open>On valid text every lead byte has its continuation bytes; the last case is not reached.\<close>

fun chars :: "byte list \<Rightarrow> nat list" where
  "chars [] = []"
| "chars (b # r) =
     (if b \<le> 0x7F then unat b # chars r
      else case lead b of
        None \<Rightarrow> 0xFFFD # chars r
      | Some (n, _, _) \<Rightarrow> scalar b (take n r) # chars (drop n r))"

definition is_control :: "nat \<Rightarrow> bool" where
  "is_control c \<longleftrightarrow> c \<le> 0x1F \<or> 0x7F \<le> c \<and> c \<le> 0x9F"

definition is_whitespace :: "nat \<Rightarrow> bool" where
  "is_whitespace c \<longleftrightarrow>
     9 \<le> c \<and> c \<le> 13 \<or> 0x2000 \<le> c \<and> c \<le> 0x200A \<or>
     c \<in> {0x20, 0x85, 0xA0, 0x1680, 0x2028, 0x2029, 0x202F, 0x205F, 0x3000}"

definition has_control :: "rstr \<Rightarrow> bool" where
  "has_control s = list_ex is_control (chars s)"

definition trim_chars :: "nat list \<Rightarrow> nat list" where
  "trim_chars cs = rev (dropWhile is_whitespace (rev (dropWhile is_whitespace cs)))"

text \<open>\<^verbatim>\<open>s.trim() != s\<close> and \<^verbatim>\<open>s.trim().is_empty()\<close>.\<close>

definition is_trimmed :: "rstr \<Rightarrow> bool" where
  "is_trimmed s \<longleftrightarrow> trim_chars (chars s) = chars s"

definition is_blank :: "rstr \<Rightarrow> bool" where
  "is_blank s \<longleftrightarrow> trim_chars (chars s) = []"

lemma is_blank_iff: "is_blank s \<longleftrightarrow> list_all is_whitespace (chars s)"
proof -
  have "list_all is_whitespace (dropWhile is_whitespace cs) = list_all is_whitespace cs" for cs
    by (induction cs) auto
  then show ?thesis by (simp add: is_blank_def trim_chars_def dropWhile_eq_Nil_conv list_all_iff)
qed

lemma chars_ascii: "list_all (\<lambda>b. b \<le> 0x7F) s \<Longrightarrow> chars s = map unat s"
  by (induction s) auto

section \<open>Substrings\<close>

fun contains_sub :: "'a list \<Rightarrow> 'a list \<Rightarrow> bool" where
  "contains_sub [] pat \<longleftrightarrow> pat = []"
| "contains_sub (x # xs) pat \<longleftrightarrow> take (length pat) (x # xs) = pat \<or> contains_sub xs pat"

lemma contains_sub_iff: "contains_sub xs pat \<longleftrightarrow> (\<exists>us vs. xs = us @ pat @ vs)"
proof (induction xs)
  case Nil
  show ?case by auto
next
  case (Cons x xs)
  note IH = Cons.IH
  show ?case
  proof
    assume "contains_sub (x # xs) pat"
    then consider "take (length pat) (x # xs) = pat" | "contains_sub xs pat" by auto
    then show "\<exists>us vs. x # xs = us @ pat @ vs"
    proof cases
      case 1
      then have "x # xs = [] @ pat @ drop (length pat) (x # xs)"
        by (metis append_Nil append_take_drop_id)
      then show ?thesis by blast
    next
      case 2
      with Cons.IH obtain us vs where "xs = us @ pat @ vs" by blast
      then have "x # xs = (x # us) @ pat @ vs" by simp
      then show ?thesis by blast
    qed
  next
    assume "\<exists>us vs. x # xs = us @ pat @ vs"
    then obtain us vs where eq: "x # xs = us @ pat @ vs" by blast
    then show "contains_sub (x # xs) pat"
    proof (cases us)
      case Nil
      with eq have "take (length pat) (x # xs) = pat" by simp
      then show ?thesis unfolding contains_sub.simps by blast
    next
      case (Cons u us')
      with eq have "xs = us' @ pat @ vs" by simp
      with IH show ?thesis unfolding contains_sub.simps by blast
    qed
  qed
qed

section \<open>ASCII case\<close>

definition to_ascii_lowercase :: "rstr \<Rightarrow> rstr" where
  "to_ascii_lowercase = map (\<lambda>b. if 0x41 \<le> b \<and> b \<le> 0x5A then b + 0x20 else b)"

end
