(* ===== verification/Json.thy ===== *)
theory Json
  imports Floats Chars
begin

text \<open>
  JSON values as \<^verbatim>\<open>serde_json\<close> has them, and the conversions \<^verbatim>\<open>serde\<close> derives for the data types of
  the MQTT schema. Parsing and printing the text of a JSON document is that library's work and a
  parameter of the theories that use it. A document keeps repeated members; a \<^verbatim>\<open>Value\<close> keeps the last
  one of each name. A derived struct is read from an object whose members are exactly its fields, or
  from an array of its fields in order.
\<close>

datatype json =
    JNull
  | JBool bool
  | JInt int
  | JFloat flt
  | JString rstr
  | JArray "json list"
  | JObject "(rstr \<times> json) list"

fun is_object :: "json \<Rightarrow> bool" where
  "is_object (JObject ms) = True"
| "is_object _ = False"

fun last_wins :: "(rstr \<times> 'a) list \<Rightarrow> (rstr \<times> 'a) list" where
  "last_wins [] = []"
| "last_wins ((k, v) # ms) = (if k \<in> fst ` set ms then last_wins ms else (k, v) # last_wins ms)"

fun to_value :: "json \<Rightarrow> json" where
  "to_value (JArray js) = JArray (map to_value js)"
| "to_value (JObject ms) = JObject (last_wins (map (\<lambda>(k, v). (k, to_value v)) ms))"
| "to_value j = j"

section \<open>Scalars\<close>

fun json_string :: "json \<Rightarrow> rstr option" where
  "json_string (JString s) = Some s"
| "json_string _ = None"

fun json_uint :: "nat \<Rightarrow> json \<Rightarrow> nat option" where
  "json_uint bits (JInt i) = (if 0 \<le> i \<and> i < 2 ^ bits then Some (nat i) else None)"
| "json_uint bits _ = None"

definition json_u8 :: "json \<Rightarrow> byte option" where
  "json_u8 j = map_option of_nat (json_uint 8 j)"

definition json_u16 :: "json \<Rightarrow> u16 option" where
  "json_u16 j = map_option of_nat (json_uint 16 j)"

definition json_u32 :: "json \<Rightarrow> u32 option" where
  "json_u32 j = map_option of_nat (json_uint 32 j)"

definition json_u64 :: "json \<Rightarrow> u64 option" where
  "json_u64 j = map_option of_nat (json_uint 64 j)"

fun json_sint :: "nat \<Rightarrow> json \<Rightarrow> int option" where
  "json_sint bits (JInt i) = (if - (2 ^ (bits - 1)) \<le> i \<and> i < 2 ^ (bits - 1) then Some i else None)"
| "json_sint bits _ = None"

definition json_i8 :: "json \<Rightarrow> i8 option" where
  "json_i8 j = map_option of_int (json_sint 8 j)"

definition json_i16 :: "json \<Rightarrow> i16 option" where
  "json_i16 j = map_option of_int (json_sint 16 j)"

text \<open>A number is read as a float of the given precision; what is not finite is printed as null.\<close>

fun json_float :: "nat \<Rightarrow> json \<Rightarrow> flt option" where
  "json_float bits (JInt i) = Some (flt_of_int bits i)"
| "json_float bits (JFloat (Finite q)) = Some (Finite (round_to bits q))"
| "json_float bits (JFloat f) = Some f"
| "json_float bits _ = None"

fun float_json :: "flt \<Rightarrow> json" where
  "float_json (Finite q) = JFloat (Finite q)"
| "float_json _ = JNull"

definition word_json :: "'a::len word \<Rightarrow> json" where
  "word_json w = JInt (uint w)"

definition sword_json :: "'a::len word \<Rightarrow> json" where
  "sword_json w = JInt (sint w)"

section \<open>Derived structs and enums\<close>

definition struct_fields :: "string list \<Rightarrow> json \<Rightarrow> (rstr \<rightharpoonup> json) option" where
  "struct_fields names j =
     (case j of
        JObject ms \<Rightarrow>
          if distinct (map fst ms) \<and> fst ` set ms \<subseteq> bytes_of ` set names then Some (map_of ms) else None
      | JArray js \<Rightarrow>
          if length js = length names then Some (map_of (zip (map bytes_of names) js)) else None
      | _ \<Rightarrow> None)"

definition field :: "(rstr \<rightharpoonup> json) \<Rightarrow> string \<Rightarrow> (json \<Rightarrow> 'a option) \<Rightarrow> ('a \<Rightarrow> 'b option) \<Rightarrow> 'b option" where
  "field m name read k = Option.bind (m (bytes_of name)) (\<lambda>j. Option.bind (read j) k)"

text \<open>A field of type \<^verbatim>\<open>Option<T>\<close> may be missing or null.\<close>

definition optional ::
    "(rstr \<rightharpoonup> json) \<Rightarrow> string \<Rightarrow> (json \<Rightarrow> 'a option) \<Rightarrow> ('a option \<Rightarrow> 'b option) \<Rightarrow> 'b option" where
  "optional m name read k =
     (case m (bytes_of name) of
        None \<Rightarrow> k None
      | Some JNull \<Rightarrow> k None
      | Some j \<Rightarrow> Option.bind (read j) (\<lambda>v. k (Some v)))"

text \<open>
  \<^verbatim>\<open>#[serde(tag = "kind")]\<close>: the name of the variant and the rest. A unit variant ignores the rest,
  a struct variant reads it as a struct.
\<close>

definition tagged :: "json \<Rightarrow> (rstr \<times> json) option" where
  "tagged j =
     (case j of
        JObject ms \<Rightarrow>
          (case map snd (filter (\<lambda>(k, _). k = bytes_of ''kind'') ms) of
             [JString variant] \<Rightarrow> Some (variant, JObject (filter (\<lambda>(k, _). k \<noteq> bytes_of ''kind'') ms))
           | _ \<Rightarrow> None)
      | JArray (JString variant # rest) \<Rightarrow> Some (variant, JArray rest)
      | _ \<Rightarrow> None)"

definition kind_json :: "string \<Rightarrow> (string \<times> json) list \<Rightarrow> json" where
  "kind_json variant ms = JObject (map (\<lambda>(k, v). (bytes_of k, v)) ((''kind'', JString (bytes_of variant)) # ms))"

definition struct_json :: "(string \<times> json) list \<Rightarrow> json" where
  "struct_json ms = JObject (map (\<lambda>(k, v). (bytes_of k, v)) ms)"

text \<open>\<^verbatim>\<open>skip_serializing_if = "Option::is_none"\<close>.\<close>

definition opt_member :: "string \<Rightarrow> ('a \<Rightarrow> json) \<Rightarrow> 'a option \<Rightarrow> (string \<times> json) list" where
  "opt_member name f v = (case v of None \<Rightarrow> [] | Some x \<Rightarrow> [(name, f x)])"

section \<open>Round trips of the scalars\<close>

lemma json_words [simp]:
  "json_u8 (word_json b) = Some b"
  "json_u16 (word_json s) = Some s"
  "json_u32 (word_json w) = Some w"
  "json_u64 (word_json q) = Some q"
proof -
  have "uint b < 2 ^ LENGTH(8)" "uint s < 2 ^ LENGTH(16)" "uint w < 2 ^ LENGTH(32)" "uint q < 2 ^ LENGTH(64)"
    by (rule unsigned_less)+
  then show "json_u8 (word_json b) = Some b" "json_u16 (word_json s) = Some s"
    "json_u32 (word_json w) = Some w" "json_u64 (word_json q) = Some q"
    by (simp_all add: json_u8_def json_u16_def json_u32_def json_u64_def word_json_def of_nat_nat)
qed

lemma json_swords [simp]:
  "json_i8 (sword_json b) = Some b"
  "json_i16 (sword_json s) = Some s"
proof -
  have "- (2 ^ (LENGTH(8) - 1)) \<le> sint b" "sint b < 2 ^ (LENGTH(8) - 1)"
    "- (2 ^ (LENGTH(16) - 1)) \<le> sint s" "sint s < 2 ^ (LENGTH(16) - 1)"
    by (rule sint_ge sint_lt)+
  then show "json_i8 (sword_json b) = Some b" "json_i16 (sword_json s) = Some s"
    by (simp_all add: json_i8_def json_i16_def sword_json_def)
qed

definition exact_float :: "nat \<Rightarrow> flt \<Rightarrow> bool" where
  "exact_float bits f \<longleftrightarrow> (\<exists>q. f = Finite q \<and> round_to bits q = q)"

lemma json_float_exact [simp]: "exact_float bits f \<Longrightarrow> json_float bits (float_json f) = Some f"
  by (auto simp: exact_float_def)

end
