(* ===== verification/Mqtt_Command.thy ===== *)
theory Mqtt_Command
  imports Mqtt_Config Json "HOL-Library.Mapping"
begin

text \<open>
  The command gate of the MQTT gateway (\<^verbatim>\<open>meshquill-mqtt/src/command.rs\<close>): the bounded cache of event
  identifiers and the processor that turns a publication on the outbound topic into a send command.
  The JSON parser and the \<^verbatim>\<open>uuid\<close> crate are the parameter \<open>mqtt_externs\<close>. An \<^verbatim>\<open>Instant\<close> is a number of
  nanoseconds.
\<close>

section \<open>The cache of event identifiers\<close>

type_synonym uuid = "128 word"
type_synonym instant = nat

datatype dedupe_decision = Fresh | Duplicate

datatype dedupe_error =
    ZeroCapacity
  | ZeroTtl
  | CapacityExceedsLimit nat nat
  | TtlExceedsLimit nat nat

record event_id_dedupe =
  dd_capacity :: nat
  dd_ttl :: nat
  dd_entries :: "(uuid, instant) mapping"
  dd_order :: "(uuid \<times> instant) list"

definition dedupe_new :: "nat \<Rightarrow> nat \<Rightarrow> (dedupe_error, event_id_dedupe) result" where
  "dedupe_new capacity ttl =
     (if capacity = 0 then Err ZeroCapacity
      else if ttl = 0 then Err ZeroTtl
      else if capacity > MAX_DEDUPE_CAPACITY then Err (CapacityExceedsLimit capacity MAX_DEDUPE_CAPACITY)
      else if ttl > unat MAX_DEDUPE_TTL_SECS * 10 ^ 9
      then Err (TtlExceedsLimit ttl (unat MAX_DEDUPE_TTL_SECS * 10 ^ 9))
      else Ok \<lparr>dd_capacity = capacity, dd_ttl = ttl, dd_entries = Mapping.empty, dd_order = []\<rparr>)"

definition checked_duration_since :: "instant \<Rightarrow> instant \<Rightarrow> nat option" where
  "checked_duration_since now seen = (if seen \<le> now then Some (now - seen) else None)"

definition remove_if_seen :: "uuid \<times> instant \<Rightarrow> (uuid, instant) mapping \<Rightarrow> (uuid, instant) mapping" where
  "remove_if_seen e m = (if Mapping.lookup m (fst e) = Some (snd e) then Mapping.delete (fst e) m else m)"

fun evict_expired_loop ::
    "nat \<Rightarrow> instant \<Rightarrow> (uuid \<times> instant) list \<Rightarrow> (uuid, instant) mapping \<Rightarrow>
     (uuid \<times> instant) list \<times> (uuid, instant) mapping" where
  "evict_expired_loop ttl now [] m = ([], m)"
| "evict_expired_loop ttl now (e # order) m =
     (if (case checked_duration_since now (snd e) of None \<Rightarrow> False | Some elapsed \<Rightarrow> ttl \<le> elapsed)
      then evict_expired_loop ttl now order (remove_if_seen e m)
      else (e # order, m))"

definition evict_expired :: "instant \<Rightarrow> event_id_dedupe \<Rightarrow> event_id_dedupe" where
  "evict_expired now d =
     (case evict_expired_loop (dd_ttl d) now (dd_order d) (dd_entries d) of
        (order, m) \<Rightarrow> d\<lparr>dd_order := order, dd_entries := m\<rparr>)"

fun enforce_capacity_loop ::
    "nat \<Rightarrow> (uuid \<times> instant) list \<Rightarrow> (uuid, instant) mapping \<Rightarrow>
     (uuid \<times> instant) list \<times> (uuid, instant) mapping" where
  "enforce_capacity_loop capacity [] m = ([], m)"
| "enforce_capacity_loop capacity (e # order) m =
     (if Mapping.size m > capacity then enforce_capacity_loop capacity order (remove_if_seen e m)
      else (e # order, m))"

definition enforce_capacity :: "event_id_dedupe \<Rightarrow> event_id_dedupe" where
  "enforce_capacity d =
     (case enforce_capacity_loop (dd_capacity d) (dd_order d) (dd_entries d) of
        (order, m) \<Rightarrow> d\<lparr>dd_order := order, dd_entries := m\<rparr>)"

definition check_and_insert_at :: "uuid \<Rightarrow> instant \<Rightarrow> event_id_dedupe \<Rightarrow> dedupe_decision \<times> event_id_dedupe" where
  "check_and_insert_at event_id now d =
     (let d = evict_expired now d
      in if (case Mapping.lookup (dd_entries d) event_id of
               None \<Rightarrow> False
             | Some seen \<Rightarrow>
                 (case checked_duration_since now seen of None \<Rightarrow> True | Some elapsed \<Rightarrow> elapsed < dd_ttl d))
         then (Duplicate, d)
         else (Fresh, enforce_capacity
           (d\<lparr>dd_entries := Mapping.update event_id now (dd_entries d),
              dd_order := dd_order d @ [(event_id, now)]\<rparr>)))"

section \<open>Its specification\<close>

text \<open>
  The cache stands for the list of the identifiers accepted within the lifetime, at most as many as
  the capacity, the oldest first.
\<close>

definition live :: "nat \<Rightarrow> instant \<Rightarrow> ('k \<times> instant) list \<Rightarrow> ('k \<times> instant) list" where
  "live ttl now xs = filter (\<lambda>(_, seen). now - seen < ttl) xs"

definition recall :: "nat \<Rightarrow> nat \<Rightarrow> 'k \<Rightarrow> instant \<Rightarrow> ('k \<times> instant) list \<Rightarrow>
    dedupe_decision \<times> ('k \<times> instant) list" where
  "recall capacity ttl event_id now xs =
     (if event_id \<in> fst ` set (live ttl now xs) then (Duplicate, live ttl now xs)
      else (Fresh, lastn capacity (live ttl now xs @ [(event_id, now)])))"

definition dedupe_inv :: "instant \<Rightarrow> event_id_dedupe \<Rightarrow> bool" where
  "dedupe_inv now d \<longleftrightarrow>
     0 < dd_capacity d \<and> 0 < dd_ttl d \<and> length (dd_order d) \<le> dd_capacity d \<and>
     distinct (map fst (dd_order d)) \<and> sorted (map snd (dd_order d)) \<and>
     (\<forall>e\<in>set (dd_order d). snd e \<le> now) \<and> Mapping.lookup (dd_entries d) = map_of (dd_order d)"

lemma size_map_of:
  "distinct (map fst xs) \<Longrightarrow> Mapping.lookup m = map_of xs \<Longrightarrow> Mapping.size m = length xs"
  by (simp add: size_def Mapping.keys.rep_eq Mapping.lookup.rep_eq dom_map_of_conv_image_fst
      card_image distinct_map distinct_card)

lemma remove_first:
  assumes "distinct (map fst (e # xs))" and "Mapping.lookup m = map_of (e # xs)"
  shows "Mapping.lookup (remove_if_seen e m) = map_of xs"
proof -
  obtain k t where e: "e = (k, t)" by (cases e)
  with assms(2) have "Mapping.lookup m k = Some t" by simp
  then have "Mapping.lookup (remove_if_seen e m) = (Mapping.lookup m)(k := None)"
    by (simp add: remove_if_seen_def e Mapping.lookup.rep_eq Mapping.delete.rep_eq fun_eq_iff)
  also have "\<dots> = map_of xs"
    using assms e map_of_eq_None_iff [of xs k] by (auto simp: fun_eq_iff)
  finally show ?thesis .
qed

lemma evict_expired_loop_eq:
  assumes "distinct (map fst xs)" and "sorted (map snd xs)" and "\<forall>e\<in>set xs. snd e \<le> now"
    and "Mapping.lookup m = map_of xs" and "evict_expired_loop ttl now xs m = (xs', m')"
  shows "xs' = live ttl now xs \<and> Mapping.lookup m' = map_of xs'"
  using assms
proof (induction xs arbitrary: m)
  case Nil
  then show ?case by (simp add: live_def)
next
  case (Cons e xs)
  show ?case
  proof (cases "ttl \<le> now - snd e")
    case True
    with Cons.prems have "evict_expired_loop ttl now xs (remove_if_seen e m) = (xs', m')"
      by (simp add: checked_duration_since_def)
    moreover have "live ttl now (e # xs) = live ttl now xs" using True by (auto simp: live_def split: prod.split)
    ultimately show ?thesis using Cons.IH [OF _ _ _ remove_first [OF Cons.prems(1,4)]] Cons.prems by simp
  next
    case False
    then have "\<forall>e'\<in>set (e # xs). now - snd e' < ttl"
      using Cons.prems(2) by (auto simp: dest!: bspec)
    then have "live ttl now (e # xs) = e # xs" by (auto simp: live_def case_prod_beta)
    moreover have "xs' = e # xs" "m' = m" using False Cons.prems by (simp_all add: checked_duration_since_def)
    ultimately show ?thesis using Cons.prems(4) by simp
  qed
qed

lemma enforce_capacity_loop_eq:
  assumes "distinct (map fst xs)" and "Mapping.lookup m = map_of xs"
    and "enforce_capacity_loop capacity xs m = (xs', m')"
  shows "xs' = lastn capacity xs \<and> Mapping.lookup m' = map_of xs'"
  using assms
proof (induction xs arbitrary: m)
  case Nil
  then show ?case by (simp add: lastn_def)
next
  case (Cons e xs)
  have n: "Mapping.size m = Suc (length xs)" using size_map_of [OF Cons.prems(1,2)] by simp
  show ?case
  proof (cases "Suc (length xs) > capacity")
    case True
    with Cons.prems n have "enforce_capacity_loop capacity xs (remove_if_seen e m) = (xs', m')" by simp
    moreover have "lastn capacity (e # xs) = lastn capacity xs" using True by (simp add: lastn_def Suc_diff_le)
    ultimately show ?thesis using Cons.IH [OF _ remove_first [OF Cons.prems(1,2)]] Cons.prems by simp
  next
    case False
    with Cons.prems n show ?thesis by (auto simp: lastn_def)
  qed
qed

lemma live_facts:
  "set (live ttl now xs) \<subseteq> set xs"
  "distinct (map fst xs) \<Longrightarrow> distinct (map fst (live ttl now xs))"
  "sorted (map snd xs) \<Longrightarrow> sorted (map snd (live ttl now xs))"
  "length (live ttl now xs) \<le> length xs"
  by (auto simp: live_def distinct_map_filter sorted_filter)

lemma lastn_facts:
  "set (lastn n xs) \<subseteq> set xs" "length (lastn n xs) \<le> n"
  "distinct (map f xs) \<Longrightarrow> distinct (map f (lastn n xs))"
  "sorted (map g xs) \<Longrightarrow> sorted (map g (lastn n xs))"
  by (auto simp: lastn_def drop_map [symmetric] distinct_drop sorted_wrt_drop dest: in_set_dropD)

lemma dedupe_refines:
  assumes inv: "dedupe_inv before d" and mono: "before \<le> now"
    and check: "check_and_insert_at event_id now d = (decision, d')"
  shows "recall (dd_capacity d) (dd_ttl d) event_id now (dd_order d) = (decision, dd_order d')"
    and "dedupe_inv now d'" and "dd_capacity d' = dd_capacity d" and "dd_ttl d' = dd_ttl d"
proof -
  let ?xs = "dd_order d" and ?l = "live (dd_ttl d) now (dd_order d)"
  obtain xs1 m1 where ev: "evict_expired_loop (dd_ttl d) now ?xs (dd_entries d) = (xs1, m1)" by fastforce
  have past: "\<forall>e\<in>set ?xs. snd e \<le> now" using inv mono by (auto simp: dedupe_inv_def)
  have 1: "xs1 = ?l" "Mapping.lookup m1 = map_of ?l"
    using evict_expired_loop_eq [OF _ _ past _ ev] inv by (auto simp: dedupe_inv_def)
  let ?d1 = "d\<lparr>dd_order := ?l, dd_entries := m1\<rparr>"
  have d1: "evict_expired now d = ?d1" using ev 1 by (simp add: evict_expired_def)
  have seen: "(case Mapping.lookup m1 event_id of None \<Rightarrow> False | Some seen \<Rightarrow>
      (case checked_duration_since now seen of None \<Rightarrow> True | Some elapsed \<Rightarrow> elapsed < dd_ttl d)) \<longleftrightarrow>
      event_id \<in> fst ` set ?l"
  proof (cases "map_of ?l event_id")
    case None
    then have "event_id \<notin> fst ` set ?l" by (simp add: map_of_eq_None_iff)
    with None show ?thesis by (simp add: 1)
  next
    case (Some t)
    then have "(event_id, t) \<in> set ?l" by (rule map_of_SomeD)
    then have "now - t < dd_ttl d" "t \<le> now" "event_id \<in> fst ` set ?l"
      using past by (force simp: live_def)+
    with Some show ?thesis by (simp add: 1 checked_duration_since_def)
  qed
  have l: "distinct (map fst ?l)" "sorted (map snd ?l)" "\<forall>e\<in>set ?l. snd e \<le> now" "length ?l \<le> dd_capacity d"
    using inv past live_facts [where ttl = "dd_ttl d" and now = now and xs = ?xs] by (auto simp: dedupe_inv_def)
  have "recall (dd_capacity d) (dd_ttl d) event_id now ?xs = (decision, dd_order d') \<and>
      dedupe_inv now d' \<and> dd_capacity d' = dd_capacity d \<and> dd_ttl d' = dd_ttl d"
  proof (cases "event_id \<in> fst ` set ?l")
    case True
    with check seen have "decision = Duplicate" "d' = ?d1" by (simp_all add: check_and_insert_at_def d1 Let_def cong: option.case_cong)
    with True l 1 inv show ?thesis
      by (simp add: recall_def dedupe_inv_def)
  next
    case False
    let ?ys = "?l @ [(event_id, now)]"
    obtain xs2 m2 where en: "enforce_capacity_loop (dd_capacity d) ?ys (Mapping.update event_id now m1) = (xs2, m2)"
      by fastforce
    have ys: "distinct (map fst ?ys)" "sorted (map snd ?ys)" "\<forall>e\<in>set ?ys. snd e \<le> now"
      using l False by (auto simp: sorted_append image_iff)
    moreover have "map_of ?l event_id = None" using False by (simp add: map_of_eq_None_iff)
    then have "Mapping.lookup (Mapping.update event_id now m1) = map_of ?ys"
      by (auto simp: lookup_update' 1 fun_eq_iff map_of_append map_add_def split: option.splits)
    ultimately have 2: "xs2 = lastn (dd_capacity d) ?ys" "Mapping.lookup m2 = map_of xs2"
      using enforce_capacity_loop_eq [OF _ _ en] by auto
    from False check seen en have "decision = Fresh" "d' = d\<lparr>dd_order := xs2, dd_entries := m2\<rparr>"
      by (simp_all add: check_and_insert_at_def d1 enforce_capacity_def Let_def cong: option.case_cong)
    with False 2 ys inv lastn_facts(1,2) [of "dd_capacity d" ?ys] lastn_facts(3) [of fst ?ys] lastn_facts(4) [of snd ?ys]
    show ?thesis
      by (auto simp: recall_def dedupe_inv_def)
  qed
  then show "recall (dd_capacity d) (dd_ttl d) event_id now ?xs = (decision, dd_order d')"
    and "dedupe_inv now d'" and "dd_capacity d' = dd_capacity d" and "dd_ttl d' = dd_ttl d"
    by blast+
qed

section \<open>Commands\<close>

datatype send_command =
    Send_Direct rstr rstr \<comment> \<open>destination, text\<close>
  | Send_Channel byte rstr

record accepted_command =
  acc_event_id :: uuid
  acc_origin :: rstr
  acc_timestamp :: u64
  acc_command :: send_command

datatype (plugins only: code size) command_error =
    CE_Config config_error
  | CE_Dedupe dedupe_error
  | SendDisabled
  | UnexpectedTopic
  | InvalidTopicEncoding
  | RetainedCommand
  | EmptyPayload
  | PayloadTooLarge nat nat
  | InvalidJson
  | UnsupportedSchema
  | NilEventId
  | InvalidOrigin
  | LocalOriginLoop
  | DataMustBeObject
  | UnsupportedCommand
  | InvalidCommandData
  | InvalidDestination
  | DestinationTooLong nat nat
  | ChannelOutOfRange byte byte
  | InvalidText
  | TextTooLong nat nat
  | DuplicateEvent

record mqtt_externs =
  from_slice :: "byte list \<Rightarrow> json option"
  to_vec :: "json \<Rightarrow> byte list option"
  parse_uuid :: "rstr \<Rightarrow> uuid option"
  hyphenated :: "uuid \<Rightarrow> rstr"

definition deserialize_canonical_uuid :: "mqtt_externs \<Rightarrow> json \<Rightarrow> uuid option" where
  "deserialize_canonical_uuid x j =
     Option.bind (json_string j) (\<lambda>v. Option.bind (parse_uuid x v) (\<lambda>event_id.
       if length v \<noteq> length (hyphenated x event_id) \<or>
         to_ascii_lowercase v \<noteq> to_ascii_lowercase (hyphenated x event_id)
       then None else Some event_id))"

record command_envelope =
  ce_schema :: rstr
  ce_event_id :: uuid
  ce_origin :: rstr
  ce_timestamp :: u64
  ce_kind :: rstr
  ce_data :: json

definition read_envelope :: "mqtt_externs \<Rightarrow> json \<Rightarrow> command_envelope option" where
  "read_envelope x j =
     Option.bind (struct_fields [''schema'', ''event_id'', ''origin'', ''timestamp'', ''type'', ''data''] j) (\<lambda>m.
     field m ''schema'' json_string (\<lambda>schema.
     field m ''event_id'' (deserialize_canonical_uuid x) (\<lambda>event_id.
     field m ''origin'' json_string (\<lambda>origin.
     field m ''timestamp'' json_u64 (\<lambda>timestamp.
     field m ''type'' json_string (\<lambda>kind.
     field m ''data'' (\<lambda>data. Some (to_value data)) (\<lambda>data.
       Some \<lparr>ce_schema = schema, ce_event_id = event_id, ce_origin = origin, ce_timestamp = timestamp,
             ce_kind = kind, ce_data = data\<rparr>)))))))"

definition read_direct_data :: "json \<Rightarrow> send_command option" where
  "read_direct_data j =
     Option.bind (struct_fields [''destination'', ''text''] j) (\<lambda>m.
     field m ''destination'' json_string (\<lambda>destination.
     field m ''text'' json_string (\<lambda>text. Some (Send_Direct destination text))))"

definition read_channel_data :: "json \<Rightarrow> send_command option" where
  "read_channel_data j =
     Option.bind (struct_fields [''channel'', ''text''] j) (\<lambda>m.
     field m ''channel'' json_u8 (\<lambda>chan.
     field m ''text'' json_string (\<lambda>text. Some (Send_Channel chan text))))"

text \<open>\<^verbatim>\<open>schema::validate_origin\<close>, whose error the processor replaces.\<close>

definition origin_ok :: "rstr \<Rightarrow> bool" where
  "origin_ok origin \<longleftrightarrow> \<not> (origin = [] \<or> length origin > 128 \<or> \<not> is_trimmed origin \<or> has_control origin)"

definition validate_destination :: "rstr \<Rightarrow> nat \<Rightarrow> (command_error, unit) result" where
  "validate_destination destination maximum =
     (if destination = [] \<or> \<not> is_trimmed destination then Err InvalidDestination
      else if length destination > maximum then Err (DestinationTooLong (length destination) maximum)
      else if has_control destination then Err InvalidDestination
      else Ok ())"

definition validate_command_text :: "rstr \<Rightarrow> nat \<Rightarrow> (command_error, unit) result" where
  "validate_command_text text maximum =
     (if text = [] \<or> 0 \<in> set text then Err InvalidText
      else if length text > maximum then Err (TextTooLong (length text) maximum)
      else Ok ())"

fun validate_send_command :: "send_command \<Rightarrow> command_limits \<Rightarrow> (command_error, unit) result" where
  "validate_send_command (Send_Direct destination text) limits =
     rbind (validate_destination destination (max_destination_bytes limits)) (\<lambda>_.
       validate_command_text text (max_text_bytes limits))"
| "validate_send_command (Send_Channel chan text) limits =
     (if chan > max_channel limits then Err (ChannelOutOfRange chan (max_channel limits))
      else validate_command_text text (max_text_bytes limits))"

section \<open>The processor\<close>

record command_processor =
  cp_allow_send :: bool
  outbound_topic :: rstr
  local_origin :: rstr
  cp_max_payload_bytes :: nat
  cp_limits :: command_limits
  cp_dedupe :: event_id_dedupe

definition processor_new :: "tls_files \<Rightarrow> mqtt_config \<Rightarrow> (command_error, command_processor) result" where
  "processor_new fs c =
     rbind (map_err CE_Config (validate_config fs c)) (\<lambda>_.
     rbind (map_err CE_Config (topic_set_new (topic_prefix c))) (\<lambda>topics.
     rbind (map_err CE_Dedupe (dedupe_new (dedupe_capacity (mq_dedupe c))
         (unat (dedupe_ttl_secs (mq_dedupe c)) * 10 ^ 9))) (\<lambda>dedupe.
       Ok \<lparr>cp_allow_send = allow_send c, outbound_topic = ts_outbound_send topics,
           local_origin = mq_origin c, cp_max_payload_bytes = max_payload_bytes c,
           cp_limits = mq_limits c, cp_dedupe = dedupe\<rparr>)))"

definition subscription_topic :: "command_processor \<Rightarrow> rstr option" where
  "subscription_topic p = (if cp_allow_send p then Some (outbound_topic p) else None)"

text \<open>The checks of \<^verbatim>\<open>process_at\<close> before the replay cache is asked.\<close>

definition screen_command ::
    "mqtt_externs \<Rightarrow> rstr \<Rightarrow> byte list \<Rightarrow> command_processor \<Rightarrow> (command_error, accepted_command) result" where
  "screen_command x topic payload p =
     (if \<not> cp_allow_send p then Err SendDisabled
      else if topic \<noteq> outbound_topic p then Err UnexpectedTopic
      else if payload = [] then Err EmptyPayload
      else if length payload > cp_max_payload_bytes p
      then Err (PayloadTooLarge (length payload) (cp_max_payload_bytes p))
      else
        rbind (ok_or (Option.bind (from_slice x payload) (read_envelope x)) InvalidJson) (\<lambda>envelope.
        if ce_schema envelope \<noteq> SCHEMA_VERSION then Err UnsupportedSchema
        else if ce_event_id envelope = 0 then Err NilEventId
        else if \<not> origin_ok (ce_origin envelope) then Err InvalidOrigin
        else if ce_origin envelope = local_origin p then Err LocalOriginLoop
        else if \<not> is_object (ce_data envelope) then Err DataMustBeObject
        else
          rbind (if ce_kind envelope = bytes_of ''send_direct''
                 then ok_or (read_direct_data (ce_data envelope)) InvalidCommandData
                 else if ce_kind envelope = bytes_of ''send_channel''
                 then ok_or (read_channel_data (ce_data envelope)) InvalidCommandData
                 else Err UnsupportedCommand) (\<lambda>command.
          rbind (validate_send_command command (cp_limits p)) (\<lambda>_.
            Ok \<lparr>acc_event_id = ce_event_id envelope, acc_origin = ce_origin envelope,
                acc_timestamp = ce_timestamp envelope, acc_command = command\<rparr>))))"

definition process_at ::
    "mqtt_externs \<Rightarrow> rstr \<Rightarrow> byte list \<Rightarrow> instant \<Rightarrow> command_processor \<Rightarrow>
     (command_error, accepted_command) result \<times> command_processor" where
  "process_at x topic payload now p =
     (case screen_command x topic payload p of
        Ok accepted \<Rightarrow>
          (case check_and_insert_at (acc_event_id accepted) now (cp_dedupe p) of
             (Duplicate, d) \<Rightarrow> (Err DuplicateEvent, p\<lparr>cp_dedupe := d\<rparr>)
           | (Fresh, d) \<Rightarrow> (Ok accepted, p\<lparr>cp_dedupe := d\<rparr>))
      | Err e \<Rightarrow> (Err e, p)
      | Panic \<Rightarrow> (Panic, p))"

text \<open>A sequence of publications and the answers to them.\<close>

fun gate ::
    "mqtt_externs \<Rightarrow> (rstr \<times> byte list \<times> instant) list \<Rightarrow> command_processor \<Rightarrow>
     (command_error, accepted_command) result list" where
  "gate x [] p = []"
| "gate x ((topic, payload, now) # inputs) p =
     (case process_at x topic payload now p of (r, p') \<Rightarrow> r # gate x inputs p')"

fun is_ok :: "('e, 'a) result \<Rightarrow> bool" where
  "is_ok (Ok v) = True"
| "is_ok _ = False"

definition held :: "uuid \<Rightarrow> instant \<Rightarrow> nat \<Rightarrow> event_id_dedupe \<Rightarrow> bool" where
  "held k t n d \<longleftrightarrow> (\<exists>older newer. dd_order d = older @ (k, t) # newer \<and> length newer = n)"

lemma live_keeps_newer:
  assumes "sorted (map snd (older @ (k, t) # newer))" and "now - t < ttl"
  shows "live ttl now (older @ (k, t) # newer) = live ttl now older @ (k, t) # newer"
proof -
  have "\<forall>e\<in>set newer. now - snd e < ttl" using assms by (auto simp: sorted_append)
  then have "filter (\<lambda>(_, seen). now - seen < ttl) newer = newer" by (auto simp: filter_id_conv)
  with assms(2) show ?thesis by (simp add: live_def)
qed

lemma check_held:
  assumes "dedupe_inv before d" and "before \<le> now" and "check_and_insert_at k' now d = (decision, d')"
    and "held k t n d" and "now - t < dd_ttl d"
  shows "if decision = Fresh then k' \<noteq> k \<and> (Suc n < dd_capacity d \<longrightarrow> held k t (Suc n) d') else held k t n d'"
proof -
  from assms(4) obtain older newer where d: "dd_order d = older @ (k, t) # newer" "length newer = n"
    by (auto simp: held_def)
  let ?l = "live (dd_ttl d) now older @ (k, t) # newer"
  have l: "live (dd_ttl d) now (dd_order d) = ?l"
    using live_keeps_newer [of older k t newer] assms(1,5) d by (simp add: dedupe_inv_def)
  note r = dedupe_refines(1) [OF assms(1-3)]
  show ?thesis
  proof (cases "k' \<in> fst ` set ?l")
    case True
    with r l have "decision = Duplicate" "dd_order d' = ?l" by (simp_all add: recall_def)
    with d show ?thesis by (auto simp: held_def)
  next
    case False
    with r l have f: "decision = Fresh" "dd_order d' = lastn (dd_capacity d) (?l @ [(k', now)])"
      by (simp_all add: recall_def)
    have "held k t (Suc n) d'" if "Suc n < dd_capacity d"
    proof -
      have "lastn (dd_capacity d) (live (dd_ttl d) now older @ (k, t) # newer @ [(k', now)]) =
          lastn (dd_capacity d - Suc (Suc n)) (live (dd_ttl d) now older) @ (k, t) # newer @ [(k', now)]"
        using that d(2) by (simp add: lastn_def Suc_diff_Suc)
      with f d show ?thesis
        unfolding held_def
        by (intro exI [of _ "lastn (dd_capacity d - Suc (Suc n)) (live (dd_ttl d) now older)"]
            exI [of _ "newer @ [(k', now)]"]) simp
    qed
    with False f show ?thesis by auto
  qed
qed

lemma check_fresh_held:
  assumes "dedupe_inv before d" and "before \<le> now" and "check_and_insert_at k now d = (Fresh, d')"
  shows "held k now 0 d'"
proof -
  have "dd_order d' = lastn (dd_capacity d) (live (dd_ttl d) now (dd_order d) @ [(k, now)])"
    using dedupe_refines(1) [OF assms] by (auto simp: recall_def split: if_splits)
  moreover have "0 < dd_capacity d" using assms(1) by (simp add: dedupe_inv_def)
  ultimately show ?thesis by (auto simp: held_def lastn_snoc)
qed

lemma process_at_cases:
  obtains (rejected) "snd (process_at x topic payload now p) = p" "\<not> is_ok (fst (process_at x topic payload now p))"
  | (checked) a decision d where
      "check_and_insert_at (acc_event_id a) now (cp_dedupe p) = (decision, d)"
      "process_at x topic payload now p =
         (if decision = Fresh then Ok a else Err DuplicateEvent, p\<lparr>cp_dedupe := d\<rparr>)"
proof (cases "screen_command x topic payload p")
  case (Ok a)
  obtain decision d where "check_and_insert_at (acc_event_id a) now (cp_dedupe p) = (decision, d)" by fastforce
  with Ok checked show ?thesis by (cases decision) (auto simp: process_at_def)
qed (use rejected in \<open>auto simp: process_at_def\<close>)

lemma gate_held:
  assumes "dedupe_inv before (cp_dedupe p)" and "\<forall>e\<in>set inputs. before \<le> snd (snd e)"
    and "sorted (map (snd \<circ> snd) inputs)" and "held k t n (cp_dedupe p)" and "t \<le> before"
    and "j < length inputs" and "gate x inputs p ! j = Ok b" and "acc_event_id b = k"
  shows "dd_ttl (cp_dedupe p) \<le> snd (snd (inputs ! j)) - t \<or>
    dd_capacity (cp_dedupe p) \<le> n + length (filter is_ok (take j (gate x inputs p)))"
  using assms
proof (induction inputs arbitrary: p n j before)
  case Nil
  then show ?case by simp
next
  case (Cons e inputs)
  obtain topic payload now where e: "e = (topic, payload, now)" by (cases e)
  obtain r p' where step: "process_at x topic payload now p = (r, p')" by fastforce
  have g: "gate x (e # inputs) p = r # gate x inputs p'" by (simp add: e step)
  have mono: "before \<le> now" using Cons.prems(2) by (simp add: e)
  show ?case
  proof (cases "dd_ttl (cp_dedupe p) \<le> now - t")
    case True
    moreover have "now \<le> snd (snd ((e # inputs) ! j))"
      using Cons.prems(3,6) by (cases j) (auto simp: e)
    ultimately show ?thesis by linarith
  next
    case False
    then have fresh: "now - t < dd_ttl (cp_dedupe p)" by simp
    show ?thesis
    proof (cases rule: process_at_cases [of x topic payload now p])
      case rejected
      with step have p': "p' = p" "\<not> is_ok r" by simp_all
      with Cons.prems(7) g obtain i where j: "j = Suc i" by (cases j) auto
      have "dedupe_inv now (cp_dedupe p)" using Cons.prems(1) mono by (auto simp: dedupe_inv_def)
      with Cons.IH [of now p n i] Cons.prems p' g j mono show ?thesis by (auto simp: e)
    next
      case (checked a decision d)
      note held = check_held [OF Cons.prems(1) mono checked(1) Cons.prems(4) fresh]
      note keep = dedupe_refines(2-4) [OF Cons.prems(1) mono checked(1)]
      from checked(2) step have p': "p' = p\<lparr>cp_dedupe := d\<rparr>" "r = (if decision = Fresh then Ok a else Err DuplicateEvent)"
        by auto
      with Cons.prems(7,8) g held obtain i where j: "j = Suc i"
        by (cases j) (auto split: if_splits)
      show ?thesis
      proof (cases "decision = Fresh")
        case True
        show ?thesis
        proof (cases "Suc n < dd_capacity (cp_dedupe p)")
          case True
          with held \<open>decision = Fresh\<close> have "held k t (Suc n) (cp_dedupe p')" by (simp add: p')
          with Cons.IH [of now p' "Suc n" i] Cons.prems p' g j mono keep \<open>decision = Fresh\<close>
          show ?thesis by (auto simp: e)
        next
          case False
          with p' g j \<open>decision = Fresh\<close> show ?thesis by auto
        qed
      next
        case False
        with held have "held k t n (cp_dedupe p')" by (simp add: p')
        with Cons.IH [of now p' n i] Cons.prems p' g j mono keep False show ?thesis by (auto simp: e)
      qed
    qed
  qed
qed

lemma processor_new_dedupe:
  assumes "processor_new fs c = Ok p"
  shows "dedupe_inv 0 (cp_dedupe p)" and "dd_capacity (cp_dedupe p) = dedupe_capacity (mq_dedupe c)"
    and "dd_ttl (cp_dedupe p) = unat (dedupe_ttl_secs (mq_dedupe c)) * 10 ^ 9" and "dd_order (cp_dedupe p) = []"
proof -
  from assms obtain d where d: "dedupe_new (dedupe_capacity (mq_dedupe c))
      (unat (dedupe_ttl_secs (mq_dedupe c)) * 10 ^ 9) = Ok d" "cp_dedupe p = d"
    unfolding processor_new_def by (auto simp: rbind_eq_Ok map_err_eq_Ok)
  then have "cp_dedupe p = \<lparr>dd_capacity = dedupe_capacity (mq_dedupe c),
      dd_ttl = unat (dedupe_ttl_secs (mq_dedupe c)) * 10 ^ 9, dd_entries = Mapping.empty, dd_order = []\<rparr>"
      "0 < dedupe_capacity (mq_dedupe c)" "0 < unat (dedupe_ttl_secs (mq_dedupe c))"
    by (simp_all add: dedupe_new_def split: if_splits)
  then show "dedupe_inv 0 (cp_dedupe p)" and "dd_capacity (cp_dedupe p) = dedupe_capacity (mq_dedupe c)"
    and "dd_ttl (cp_dedupe p) = unat (dedupe_ttl_secs (mq_dedupe c)) * 10 ^ 9" and "dd_order (cp_dedupe p) = []"
    by (simp_all add: dedupe_inv_def fun_eq_iff)
qed

lemma process_at_keeps:
  assumes "dedupe_inv before (cp_dedupe p)" and "before \<le> now"
    and "process_at x topic payload now p = (r, p')"
  shows "dedupe_inv now (cp_dedupe p')" and "dd_ttl (cp_dedupe p') = dd_ttl (cp_dedupe p)"
    and "dd_capacity (cp_dedupe p') = dd_capacity (cp_dedupe p)"
    and "r = Ok a \<Longrightarrow> held (acc_event_id a) now 0 (cp_dedupe p')"
proof -
  have "dedupe_inv now (cp_dedupe p') \<and> dd_ttl (cp_dedupe p') = dd_ttl (cp_dedupe p) \<and>
      dd_capacity (cp_dedupe p') = dd_capacity (cp_dedupe p) \<and>
      (r = Ok a \<longrightarrow> held (acc_event_id a) now 0 (cp_dedupe p'))"
  proof (cases rule: process_at_cases [of x topic payload now p])
    case rejected
    with assms have "p' = p" "\<not> is_ok r" by simp_all
    with assms(1,2) show ?thesis by (auto simp: dedupe_inv_def)
  next
    case (checked a' decision d)
    with assms(3) have "p' = p\<lparr>cp_dedupe := d\<rparr>" "r = Ok a \<Longrightarrow> decision = Fresh \<and> a' = a"
      by (auto split: if_splits)
    with checked(1) dedupe_refines(2-4) [OF assms(1,2) checked(1)] check_fresh_held [OF assms(1,2)]
    show ?thesis by auto
  qed
  then show "dedupe_inv now (cp_dedupe p')" and "dd_ttl (cp_dedupe p') = dd_ttl (cp_dedupe p)"
    and "dd_capacity (cp_dedupe p') = dd_capacity (cp_dedupe p)"
    and "r = Ok a \<Longrightarrow> held (acc_event_id a) now 0 (cp_dedupe p')"
    by blast+
qed

lemma gate_once:
  assumes "dedupe_inv before (cp_dedupe p)" and "\<forall>e\<in>set inputs. before \<le> snd (snd e)"
    and "sorted (map (snd \<circ> snd) inputs)"
    and "i < j" and "j < length inputs" and "gate x inputs p ! i = Ok a" and "gate x inputs p ! j = Ok b"
    and "acc_event_id a = acc_event_id b"
  shows "dd_ttl (cp_dedupe p) \<le> snd (snd (inputs ! j)) - snd (snd (inputs ! i)) \<or>
    dd_capacity (cp_dedupe p) \<le> length (filter is_ok (drop (Suc i) (take j (gate x inputs p))))"
  using assms
proof (induction inputs arbitrary: p i j before)
  case Nil
  then show ?case by simp
next
  case (Cons e inputs)
  obtain topic payload now where e: "e = (topic, payload, now)" by (cases e)
  obtain r p' where step: "process_at x topic payload now p = (r, p')" by fastforce
  have g: "gate x (e # inputs) p = r # gate x inputs p'" by (simp add: e step)
  have mono: "before \<le> now" using Cons.prems(2) by (simp add: e)
  obtain j' where j: "j = Suc j'" using Cons.prems(4) by (cases j) auto
  note inv = process_at_keeps(1-3) [OF Cons.prems(1) mono step]
  have later: "\<forall>e\<in>set inputs. now \<le> snd (snd e)" "sorted (map (snd \<circ> snd) inputs)"
    using Cons.prems(3) by (auto simp: e o_def)
  show ?case
  proof (cases i)
    case 0
    with Cons.prems(6) g have r: "r = Ok a" by simp
    then have "held (acc_event_id a) now 0 (cp_dedupe p')"
      by (rule process_at_keeps(4) [OF Cons.prems(1) mono step])
    from gate_held [OF inv(1) later this order_refl, of j' x b] Cons.prems j g 0 inv show ?thesis
      by (auto simp: e)
  next
    case (Suc i')
    with Cons.IH [OF inv(1) later, of i' j'] Cons.prems j g inv show ?thesis by auto
  qed
qed

text \<open>C19: The replay cache implements its specification. Asked at times that do not go back, it answers
  that an identifier is a duplicate exactly when that identifier was accepted less than the lifetime ago
  and is among the most recent accepted ones the capacity allows, and it retains just those. The hash map
  and the queue it is made of never disagree.\<close>

theorem dedupe_implements_recall:
  assumes "dedupe_inv before d" and "before \<le> now" and "check_and_insert_at event_id now d = (decision, d')"
  shows "recall (dd_capacity d) (dd_ttl d) event_id now (dd_order d) = (decision, dd_order d') \<and>
    dedupe_inv now d'"
  using dedupe_refines(1,2) [OF assms] ..

text \<open>C4: No MQTT command is carried out twice. In any sequence of publications handed to a processor in
  the order of time, two accepted commands with the same event identifier lie at least the configured
  lifetime apart, or at least as many other commands were accepted between them as the cache holds.\<close>

theorem commands_accepted_at_most_once:
  assumes "processor_new fs c = Ok p" and "sorted (map (snd \<circ> snd) inputs)"
    and "i < j" and "j < length inputs" and "gate x inputs p ! i = Ok a" and "gate x inputs p ! j = Ok b"
    and "acc_event_id a = acc_event_id b"
  shows "unat (dedupe_ttl_secs (mq_dedupe c)) * 10 ^ 9 \<le> snd (snd (inputs ! j)) - snd (snd (inputs ! i)) \<or>
    dedupe_capacity (mq_dedupe c) \<le> length (filter is_ok (drop (Suc i) (take j (gate x inputs p))))"
  using gate_once [OF processor_new_dedupe(1) [OF assms(1)] _ assms(2-)]
  by (simp add: processor_new_dedupe(2,3) [OF assms(1)])

section \<open>Witnesses\<close>

definition no_files :: tls_files where
  "no_files = \<lparr>tf_metadata = (\<lambda>_. Err []), tf_open = (\<lambda>_. Err []), tf_read = (\<lambda>_ _. Err [])\<rparr>"

definition sample_config :: mqtt_config where
  "sample_config = mqtt_default\<lparr>allow_send := True\<rparr>"

definition sample_document :: json where
  "sample_document = struct_json
     [(''schema'', JString SCHEMA_VERSION), (''event_id'', JString []), (''origin'', JString (bytes_of ''site'')),
      (''timestamp'', JInt 1), (''type'', JString (bytes_of ''send_channel'')),
      (''data'', struct_json [(''channel'', JInt 3), (''text'', JString (bytes_of ''hi''))])]"

definition sample_externs :: mqtt_externs where
  "sample_externs =
     \<lparr>from_slice = (\<lambda>_. Some sample_document), to_vec = (\<lambda>_. Some [0]), parse_uuid = (\<lambda>_. Some 5), hyphenated = (\<lambda>_. [])\<rparr>"

definition sample_topic :: rstr where
  "sample_topic = bytes_of ''meshquill'' @ [0x2F] @ SCHEMA_VERSION @ bytes_of ''/outbound/send''"

definition sample_processor :: command_processor where
  "sample_processor =
     \<lparr>cp_allow_send = True, outbound_topic = sample_topic,
      local_origin = bytes_of ''meshquill-mqtt'', cp_max_payload_bytes = 65536, cp_limits = limits_default,
      cp_dedupe = \<lparr>dd_capacity = 4096, dd_ttl = 900 * 10 ^ 9, dd_entries = Mapping.empty, dd_order = []\<rparr>\<rparr>"

lemmas text_checks =
  validate_nonempty_text_def validate_host_def validate_topic_prefix_def is_trimmed_def trim_chars_def
  has_control_def is_whitespace_def is_control_def bytes_of_def

lemma sample_settings:
  "validate_host (bytes_of ''localhost'') = Ok ()"
  "validate_nonempty_text label (bytes_of ''meshquill-mqtt'') 128 = Ok ()"
  "validate_topic_prefix (bytes_of ''meshquill'') = Ok ()"
  by (simp_all add: text_checks)

lemma sample_processor_new: "processor_new no_files sample_config = Ok sample_processor"
  by (simp add: processor_new_def validate_config_def sample_config_def mqtt_default_def sample_settings session_default_def
      validate_reconnect_def reconnect_default_def validate_dedupe_def
      dedupe_default_def validate_command_limits_def
      limits_default_def validate_tls_def tls_default_def
      validate_pem_option_def topic_set_new_def Let_def dedupe_new_def sample_processor_def sample_topic_def)


definition sample_accepted :: accepted_command where
  "sample_accepted =
     \<lparr>acc_event_id = 5, acc_origin = bytes_of ''site'', acc_timestamp = 1,
      acc_command = Send_Channel 3 (bytes_of ''hi'')\<rparr>"

lemmas document_reads =
  struct_json_def struct_fields_def field_def bytes_of_def to_ascii_lowercase_def json_u8_def json_u64_def

lemma sample_envelope:
  "read_envelope sample_externs sample_document =
     Some \<lparr>ce_schema = SCHEMA_VERSION, ce_event_id = 5, ce_origin = bytes_of ''site'', ce_timestamp = 1,
       ce_kind = bytes_of ''send_channel'',
       ce_data = struct_json [(''channel'', JInt 3), (''text'', JString (bytes_of ''hi''))]\<rparr>"
  by (simp add: read_envelope_def sample_document_def sample_externs_def deserialize_canonical_uuid_def
      document_reads)

lemma sample_screened:
  "screen_command sample_externs sample_topic [0] (sample_processor\<lparr>cp_dedupe := d\<rparr>) = Ok sample_accepted"
proof -
  have doc: "from_slice sample_externs [0] = Some sample_document" by (simp add: sample_externs_def)
  have origin: "origin_ok (bytes_of ''site'')" "bytes_of ''site'' \<noteq> bytes_of ''meshquill-mqtt''"
    by (simp_all add: origin_ok_def text_checks)
  have data: "is_object (struct_json [(''channel'', JInt 3), (''text'', JString (bytes_of ''hi''))])"
    "read_channel_data (struct_json [(''channel'', JInt 3), (''text'', JString (bytes_of ''hi''))]) =
       Some (Send_Channel 3 (bytes_of ''hi''))"
    by (simp_all add: read_channel_data_def document_reads)
  have kind: "bytes_of ''send_channel'' \<noteq> bytes_of ''send_direct''" by (simp add: bytes_of_def)
  have "validate_command_text (bytes_of ''hi'') 1024 = Ok ()"
    by (simp add: validate_command_text_def bytes_of_def)
  then show ?thesis
    by (simp add: screen_command_def sample_processor_def doc sample_envelope origin data kind limits_default_def
        sample_accepted_def)
qed

text \<open>The sample command is accepted, refused while the cache remembers it, and accepted again when its
  lifetime is over.\<close>

definition sample_publications :: "(rstr \<times> byte list \<times> instant) list" where
  "sample_publications = map (\<lambda>t. (sample_topic, [0], t)) [0, 1, 900 * 10 ^ 9]"

definition sample_memory :: "(uuid, instant) mapping \<Rightarrow> instant \<Rightarrow> event_id_dedupe" where
  "sample_memory m t =
     \<lparr>dd_capacity = 4096, dd_ttl = 900 * 10 ^ 9, dd_entries = Mapping.update 5 t m, dd_order = [(5, t)]\<rparr>"

lemmas replay_defs =
  check_and_insert_at_def evict_expired_def enforce_capacity_def checked_duration_since_def remove_if_seen_def
  sample_memory_def sample_processor_def Let_def

lemma sample_replay:
  "check_and_insert_at 5 0 (cp_dedupe sample_processor) = (Fresh, sample_memory Mapping.empty 0)"
  "check_and_insert_at 5 1 (sample_memory m 0) = (Duplicate, sample_memory m 0)"
  "check_and_insert_at 5 (900 * 10 ^ 9) (sample_memory Mapping.empty 0) =
     (Fresh, sample_memory (Mapping.delete 5 (Mapping.update 5 0 Mapping.empty)) (900 * 10 ^ 9))"
  by (simp_all add: replay_defs Mapping.size_def)

lemma sample_gate:
  "gate sample_externs sample_publications sample_processor =
     [Ok sample_accepted, Err DuplicateEvent, Ok sample_accepted]"
proof -
  have "screen_command sample_externs sample_topic [0] sample_processor = Ok sample_accepted"
    using sample_screened [of "cp_dedupe sample_processor"] by simp
  moreover have "acc_event_id sample_accepted = 5" by (simp add: sample_accepted_def)
  ultimately show ?thesis
    using sample_replay [simplified]
    by (simp add: sample_publications_def process_at_def sample_screened)
qed

theorem dedupe_implements_recall_witness:
  "recall 4096 (900 * 10 ^ 9) (5 :: uuid) 1 [(5, 0)] = (Duplicate, [(5, 0)])"
proof -
  have "dedupe_inv 0 (sample_memory Mapping.empty 0)"
    by (auto simp: dedupe_inv_def sample_memory_def fun_eq_iff lookup_update')
  from dedupe_implements_recall [OF this _ sample_replay(2)] show ?thesis
    by (simp add: sample_memory_def)
qed

theorem commands_accepted_at_most_once_witness:
  "unat (dedupe_ttl_secs (mq_dedupe sample_config)) * 10 ^ 9
     \<le> snd (snd (sample_publications ! 2)) - snd (snd (sample_publications ! 0)) \<or>
   dedupe_capacity (mq_dedupe sample_config)
     \<le> length (filter is_ok
          (drop (Suc 0) (take 2 (gate sample_externs sample_publications sample_processor))))"
proof (rule commands_accepted_at_most_once [OF sample_processor_new])
  show "gate sample_externs sample_publications sample_processor ! 0 = Ok sample_accepted"
    "gate sample_externs sample_publications sample_processor ! 2 = Ok sample_accepted"
    by (simp_all add: sample_gate)
qed (simp_all add: sample_publications_def)

end
