(* ===== verification/Mqtt_Schema.thy ===== *)
theory Mqtt_Schema
  imports Mqtt_Command Wire
begin

text \<open>
  The publications of the MQTT gateway, \<^verbatim>\<open>meshquill-mqtt/src/schema.rs\<close>: the data types of the
  schema, the JSON value each of them is written as and read from (the code \<^verbatim>\<open>serde\<close> derives from
  their attributes), the conversion of the client's events, and the validation of an envelope. The
  enums \<^verbatim>\<open>ContactTypeData\<close>, \<^verbatim>\<open>ContactRouteData\<close>, \<^verbatim>\<open>MessageSourceData\<close>, \<^verbatim>\<open>MessageRouteData\<close> and
  \<^verbatim>\<open>MessageStatusData\<close> repeat the enums of the core variant by variant, and the conversions between
  them rename the type: here they are the same types. It is shown that a publication is read back
  unchanged from the value it is written as, and that every event that comes from the radio and is
  in the schema yields a valid publication, whatever the radio sent.
\<close>

section \<open>Data types\<close>

type_synonym contact_type_data = contact_type
type_synonym contact_route_data = contact_route
type_synonym message_source_data = message_source
type_synonym message_route_data = message_route
type_synonym message_status_data = message_status

datatype connection_component = MeshCore | MqttBroker

datatype connection_status = CS_Connected | CS_Disconnected

record connection_state_data =
  csd_component :: connection_component
  csd_status :: connection_status
  csd_reason :: "rstr option"

record contact_data =
  cd_public_key :: rstr
  cd_contact_type :: contact_type_data
  cd_flags :: byte
  cd_route :: contact_route_data
  cd_out_path :: rstr
  cd_adv_name :: rstr
  cd_last_advert :: u32
  cd_adv_lat :: f64
  cd_adv_lon :: f64
  cd_lastmod :: u32

record contacts_data =
  csd_contacts :: "contact_data list"
  csd_lastmod :: u32

record incoming_message_data =
  im_source :: message_source_data
  im_route :: message_route_data
  im_txt_type :: byte
  im_sender_timestamp :: u32
  im_signature :: "rstr option"
  im_text :: rstr
  im_snr :: "f32 option"
  im_status :: message_status_data

record ack_data =
  ad_code :: rstr
  ad_trip_time_ms :: "u32 option"

datatype telemetry_data =
    TD_Battery battery_info
  | TD_StatsCore core_stats
  | TD_StatsRadio radio_stats
  | TD_StatsPackets packet_stats
  | TD_RawCayenneLpp rstr rstr \<comment> \<open>source public-key prefix, payload\<close>

datatype publication =
    PubIncomingMessage incoming_message_data
  | PubAck ack_data
  | PubConnectionState connection_state_data
  | PubContacts contacts_data
  | PubTelemetry telemetry_data

fun publication_kind :: "publication \<Rightarrow> event_kind" where
  "publication_kind (PubIncomingMessage _) = EK_IncomingMessage"
| "publication_kind (PubAck _) = EK_Ack"
| "publication_kind (PubConnectionState _) = EK_ConnectionState"
| "publication_kind (PubContacts _) = EK_Contacts"
| "publication_kind (PubTelemetry _) = EK_Telemetry"

datatype schema_error =
    SE_Json
  | SE_UnsupportedSchema rstr
  | SE_NilEventId
  | SE_InvalidOrigin
  | SE_DataMustBeObject
  | SE_InvalidEventData
  | SE_InvalidWireData string

section \<open>From the client's events\<close>

definition DIGITS :: rstr where
  "DIGITS = bytes_of ''0123456789abcdef''"

definition lowercase_hex :: "byte list \<Rightarrow> rstr" where
  "lowercase_hex bs = concat (map (\<lambda>b. [DIGITS ! unat (drop_bit 4 b), DIGITS ! unat (b AND 0x0F)]) bs)"

definition path_to_hex :: "externs \<Rightarrow> path \<Rightarrow> rstr" where
  "path_to_hex x p = hex_encode x (path_bytes p)"

definition contact_data_of :: "externs \<Rightarrow> contact \<Rightarrow> contact_data" where
  "contact_data_of x c =
     \<lparr>cd_public_key = public_key_to_hex x (c_public_key c), cd_contact_type = c_type c, cd_flags = c_flags c,
      cd_route = c_route c, cd_out_path = path_to_hex x (c_out_path c), cd_adv_name = c_adv_name c,
      cd_last_advert = c_last_advert c, cd_adv_lat = c_adv_lat c, cd_adv_lon = c_adv_lon c,
      cd_lastmod = c_lastmod c\<rparr>"

definition contacts_data_of :: "externs \<Rightarrow> contact_snapshot \<Rightarrow> contacts_data" where
  "contacts_data_of x s =
     \<lparr>csd_contacts = map (contact_data_of x) (snapshot_contacts s), csd_lastmod = snapshot_lastmod s\<rparr>"

definition message_data_of :: "message \<Rightarrow> incoming_message_data" where
  "message_data_of m =
     \<lparr>im_source =
        (case msg_source m of
           Direct pubkey_prefix \<Rightarrow> Direct (to_ascii_lowercase pubkey_prefix)
         | Channel channel_idx \<Rightarrow> Channel channel_idx),
      im_route = msg_route m, im_txt_type = txt_type m, im_sender_timestamp = sender_timestamp m,
      im_signature = map_option lowercase_hex (msg_signature m), im_text = msg_text m,
      im_snr = msg_snr m, im_status = msg_status m\<rparr>"

definition ack_data_of :: "ack \<Rightarrow> ack_data" where
  "ack_data_of a = \<lparr>ad_code = lowercase_hex (a_code a), ad_trip_time_ms = trip_time_ms a\<rparr>"

fun stats_data_of :: "device_stats \<Rightarrow> telemetry_data" where
  "stats_data_of (DS_Core s) = TD_StatsCore s"
| "stats_data_of (DS_Radio s) = TD_StatsRadio s"
| "stats_data_of (DS_Packets s) = TD_StatsPackets s"

definition raw_telemetry :: "telemetry_response \<Rightarrow> telemetry_data" where
  "raw_telemetry r = TD_RawCayenneLpp (lowercase_hex (tr_pubkey_prefix r)) (lowercase_hex (tr_payload r))"

definition from_core_event :: "externs \<Rightarrow> event \<Rightarrow> publication option" where
  "from_core_event x e =
     (case e of
        E_Connected \<Rightarrow> Some (PubConnectionState
          \<lparr>csd_component = MeshCore, csd_status = CS_Connected, csd_reason = None\<rparr>)
      | E_Disconnected \<Rightarrow> Some (PubConnectionState
          \<lparr>csd_component = MeshCore, csd_status = CS_Disconnected, csd_reason = None\<rparr>)
      | E_Contacts contacts lastmod \<Rightarrow>
          Some (PubContacts (contacts_data_of x \<lparr>snapshot_contacts = contacts, snapshot_lastmod = lastmod\<rparr>))
      | E_Message m \<Rightarrow> Some (PubIncomingMessage (message_data_of m))
      | E_Ack a \<Rightarrow> Some (PubAck (ack_data_of a))
      | E_Battery level used capacity \<Rightarrow>
          Some (PubTelemetry (TD_Battery \<lparr>bat_level = level, used_kb = used, total_kb = capacity\<rparr>))
      | E_DeviceStats stats \<Rightarrow> Some (PubTelemetry (stats_data_of stats))
      | E_Telemetry response \<Rightarrow> Some (PubTelemetry (raw_telemetry response))
      | _ \<Rightarrow> None)"


section \<open>Derived conversions to and from JSON values\<close>

text \<open>The unit variant of an enum is its name, or an object with that name and null.\<close>

definition unit_variant :: "('a \<Rightarrow> string) \<Rightarrow> 'a list \<Rightarrow> json \<Rightarrow> 'a option" where
  "unit_variant name variants j =
     Option.bind (case j of JString s \<Rightarrow> Some s | JObject [(s, JNull)] \<Rightarrow> Some s | _ \<Rightarrow> None)
       (\<lambda>s. find (\<lambda>v. bytes_of (name v) = s) variants)"

fun component_name :: "connection_component \<Rightarrow> string" where
  "component_name MeshCore = ''mesh_core''"
| "component_name MqttBroker = ''mqtt_broker''"

fun status_name :: "connection_status \<Rightarrow> string" where
  "status_name CS_Connected = ''connected''"
| "status_name CS_Disconnected = ''disconnected''"

fun kind_name :: "event_kind \<Rightarrow> string" where
  "kind_name EK_IncomingMessage = ''incoming_message''"
| "kind_name EK_Ack = ''ack''"
| "kind_name EK_ConnectionState = ''connection_state''"
| "kind_name EK_Contacts = ''contacts''"
| "kind_name EK_Telemetry = ''telemetry''"
| "kind_name EK_SendDirect = ''send_direct''"
| "kind_name EK_SendChannel = ''send_channel''"

definition read_kind :: "json \<Rightarrow> event_kind option" where
  "read_kind = unit_variant kind_name
     [EK_IncomingMessage, EK_Ack, EK_ConnectionState, EK_Contacts, EK_Telemetry, EK_SendDirect, EK_SendChannel]"

definition connection_state_json :: "connection_state_data \<Rightarrow> json" where
  "connection_state_json d = struct_json
     ([(''component'', JString (bytes_of (component_name (csd_component d)))),
       (''status'', JString (bytes_of (status_name (csd_status d))))] @
      opt_member ''reason'' JString (csd_reason d))"

definition read_connection_state :: "json \<Rightarrow> connection_state_data option" where
  "read_connection_state j =
     Option.bind (struct_fields [''component'', ''status'', ''reason''] j) (\<lambda>m.
     field m ''component'' (unit_variant component_name [MeshCore, MqttBroker]) (\<lambda>component.
     field m ''status'' (unit_variant status_name [CS_Connected, CS_Disconnected]) (\<lambda>status.
     optional m ''reason'' json_string (\<lambda>reason.
       Some \<lparr>csd_component = component, csd_status = status, csd_reason = reason\<rparr>))))"

fun contact_type_json :: "contact_type_data \<Rightarrow> json" where
  "contact_type_json Chat = kind_json ''chat'' []"
| "contact_type_json Repeater = kind_json ''repeater'' []"
| "contact_type_json Room = kind_json ''room'' []"
| "contact_type_json Sensor = kind_json ''sensor'' []"
| "contact_type_json (UnknownContact code) = kind_json ''unknown'' [(''code'', word_json code)]"

text \<open>The reader of an enum with tagged variants, from the readers of the variants.\<close>

definition variant :: "json \<Rightarrow> (string \<times> (json \<Rightarrow> 'a option)) list \<Rightarrow> 'a option" where
  "variant j readers =
     Option.bind (tagged j) (\<lambda>(name, rest).
       Option.bind (map_of (map (\<lambda>(n, r). (bytes_of n, r)) readers) name) (\<lambda>r. r rest))"

definition read_contact_type :: "json \<Rightarrow> contact_type_data option" where
  "read_contact_type j = variant j
     [(''chat'', \<lambda>_. Some Chat), (''repeater'', \<lambda>_. Some Repeater), (''room'', \<lambda>_. Some Room),
      (''sensor'', \<lambda>_. Some Sensor),
      (''unknown'', \<lambda>r. Option.bind (struct_fields [''code''] r) (\<lambda>m.
         field m ''code'' json_u8 (\<lambda>code. Some (UnknownContact code))))]"

definition route_members :: "byte \<Rightarrow> byte \<Rightarrow> (string \<times> json) list" where
  "route_members hash_mode hop_count = [(''hash_mode'', word_json hash_mode), (''hop_count'', word_json hop_count)]"

definition read_route_members :: "(byte \<Rightarrow> byte \<Rightarrow> 'a) \<Rightarrow> json \<Rightarrow> 'a option" where
  "read_route_members f j =
     Option.bind (struct_fields [''hash_mode'', ''hop_count''] j) (\<lambda>m.
     field m ''hash_mode'' json_u8 (\<lambda>hash_mode. field m ''hop_count'' json_u8 (\<lambda>hop_count.
       Some (f hash_mode hop_count))))"

fun contact_route_json :: "contact_route_data \<Rightarrow> json" where
  "contact_route_json Flood = kind_json ''flood'' []"
| "contact_route_json (RoutePath hash_mode hop_count) = kind_json ''path'' (route_members hash_mode hop_count)"

definition read_contact_route :: "json \<Rightarrow> contact_route_data option" where
  "read_contact_route j = variant j [(''flood'', \<lambda>_. Some Flood), (''path'', read_route_members RoutePath)]"

definition contact_data_json :: "contact_data \<Rightarrow> json" where
  "contact_data_json d = struct_json
     [(''public_key'', JString (cd_public_key d)), (''contact_type'', contact_type_json (cd_contact_type d)),
      (''flags'', word_json (cd_flags d)), (''route'', contact_route_json (cd_route d)),
      (''out_path'', JString (cd_out_path d)), (''adv_name'', JString (cd_adv_name d)),
      (''last_advert'', word_json (cd_last_advert d)), (''adv_lat'', float_json (cd_adv_lat d)),
      (''adv_lon'', float_json (cd_adv_lon d)), (''lastmod'', word_json (cd_lastmod d))]"

definition read_contact_data :: "json \<Rightarrow> contact_data option" where
  "read_contact_data j =
     Option.bind (struct_fields [''public_key'', ''contact_type'', ''flags'', ''route'', ''out_path'', ''adv_name'',
       ''last_advert'', ''adv_lat'', ''adv_lon'', ''lastmod''] j) (\<lambda>m.
     field m ''public_key'' json_string (\<lambda>public_key. field m ''contact_type'' read_contact_type (\<lambda>contact_type.
     field m ''flags'' json_u8 (\<lambda>flags. field m ''route'' read_contact_route (\<lambda>route.
     field m ''out_path'' json_string (\<lambda>out_path. field m ''adv_name'' json_string (\<lambda>adv_name.
     field m ''last_advert'' json_u32 (\<lambda>last_advert. field m ''adv_lat'' (json_float 53) (\<lambda>adv_lat.
     field m ''adv_lon'' (json_float 53) (\<lambda>adv_lon. field m ''lastmod'' json_u32 (\<lambda>lastmod.
       Some \<lparr>cd_public_key = public_key, cd_contact_type = contact_type, cd_flags = flags, cd_route = route,
             cd_out_path = out_path, cd_adv_name = adv_name, cd_last_advert = last_advert, cd_adv_lat = adv_lat,
             cd_adv_lon = adv_lon, cd_lastmod = lastmod\<rparr>)))))))))))"

definition contacts_data_json :: "contacts_data \<Rightarrow> json" where
  "contacts_data_json d = struct_json
     [(''contacts'', JArray (map contact_data_json (csd_contacts d))), (''lastmod'', word_json (csd_lastmod d))]"

fun json_array :: "(json \<Rightarrow> 'a option) \<Rightarrow> json \<Rightarrow> 'a list option" where
  "json_array read (JArray js) = those (map read js)"
| "json_array read _ = None"

definition read_contacts_data :: "json \<Rightarrow> contacts_data option" where
  "read_contacts_data j =
     Option.bind (struct_fields [''contacts'', ''lastmod''] j) (\<lambda>m.
     field m ''contacts'' (json_array read_contact_data) (\<lambda>contacts. field m ''lastmod'' json_u32 (\<lambda>lastmod.
       Some \<lparr>csd_contacts = contacts, csd_lastmod = lastmod\<rparr>)))"


fun source_json :: "message_source_data \<Rightarrow> json" where
  "source_json (Direct pubkey_prefix) = kind_json ''direct'' [(''pubkey_prefix'', JString pubkey_prefix)]"
| "source_json (Channel channel_idx) = kind_json ''channel'' [(''channel_idx'', word_json channel_idx)]"

definition read_source :: "json \<Rightarrow> message_source_data option" where
  "read_source j = variant j
     [(''direct'', \<lambda>r. Option.bind (struct_fields [''pubkey_prefix''] r) (\<lambda>m.
         field m ''pubkey_prefix'' json_string (\<lambda>pubkey_prefix. Some (Direct pubkey_prefix)))),
      (''channel'', \<lambda>r. Option.bind (struct_fields [''channel_idx''] r) (\<lambda>m.
         field m ''channel_idx'' json_u8 (\<lambda>channel_idx. Some (Channel channel_idx))))]"

fun message_route_json :: "message_route_data \<Rightarrow> json" where
  "message_route_json MR_Direct = kind_json ''direct'' []"
| "message_route_json (MR_Path hash_mode hop_count) = kind_json ''path'' (route_members hash_mode hop_count)"

definition read_message_route :: "json \<Rightarrow> message_route_data option" where
  "read_message_route j = variant j [(''direct'', \<lambda>_. Some MR_Direct), (''path'', read_route_members MR_Path)]"

fun message_status_json :: "message_status_data \<Rightarrow> json" where
  "message_status_json Received = kind_json ''received'' []"
| "message_status_json Queued = kind_json ''queued'' []"
| "message_status_json (Sent t) = kind_json ''sent'' (opt_member ''suggested_timeout_ms'' word_json t)"
| "message_status_json Acked = kind_json ''acked'' []"
| "message_status_json (Failed reason) = kind_json ''failed'' [(''reason'', JString reason)]"

definition read_message_status :: "json \<Rightarrow> message_status_data option" where
  "read_message_status j = variant j
     [(''received'', \<lambda>_. Some Received), (''queued'', \<lambda>_. Some Queued),
      (''sent'', \<lambda>r. Option.bind (struct_fields [''suggested_timeout_ms''] r) (\<lambda>m.
         optional m ''suggested_timeout_ms'' json_u32 (\<lambda>t. Some (Sent t)))),
      (''acked'', \<lambda>_. Some Acked),
      (''failed'', \<lambda>r. Option.bind (struct_fields [''reason''] r) (\<lambda>m.
         field m ''reason'' json_string (\<lambda>reason. Some (Failed reason))))]"

definition message_data_json :: "incoming_message_data \<Rightarrow> json" where
  "message_data_json d = struct_json
     ([(''source'', source_json (im_source d)), (''route'', message_route_json (im_route d)),
       (''txt_type'', word_json (im_txt_type d)), (''sender_timestamp'', word_json (im_sender_timestamp d))] @
      opt_member ''signature'' JString (im_signature d) @ [(''text'', JString (im_text d))] @
      opt_member ''snr'' float_json (im_snr d) @ [(''status'', message_status_json (im_status d))])"

definition read_message_data :: "json \<Rightarrow> incoming_message_data option" where
  "read_message_data j =
     Option.bind (struct_fields [''source'', ''route'', ''txt_type'', ''sender_timestamp'', ''signature'', ''text'',
       ''snr'', ''status''] j) (\<lambda>m.
     field m ''source'' read_source (\<lambda>source. field m ''route'' read_message_route (\<lambda>route.
     field m ''txt_type'' json_u8 (\<lambda>txt_type. field m ''sender_timestamp'' json_u32 (\<lambda>sender_timestamp.
     optional m ''signature'' json_string (\<lambda>signature. field m ''text'' json_string (\<lambda>text.
     optional m ''snr'' (json_float 24) (\<lambda>snr. field m ''status'' read_message_status (\<lambda>status.
       Some \<lparr>im_source = source, im_route = route, im_txt_type = txt_type, im_sender_timestamp = sender_timestamp,
             im_signature = signature, im_text = text, im_snr = snr, im_status = status\<rparr>)))))))))"

definition ack_data_json :: "ack_data \<Rightarrow> json" where
  "ack_data_json d = struct_json
     ((''code'', JString (ad_code d)) # opt_member ''trip_time_ms'' word_json (ad_trip_time_ms d))"

definition read_ack_data :: "json \<Rightarrow> ack_data option" where
  "read_ack_data j =
     Option.bind (struct_fields [''code'', ''trip_time_ms''] j) (\<lambda>m.
     field m ''code'' json_string (\<lambda>code. optional m ''trip_time_ms'' json_u32 (\<lambda>t.
       Some \<lparr>ad_code = code, ad_trip_time_ms = t\<rparr>)))"

fun telemetry_json :: "telemetry_data \<Rightarrow> json" where
  "telemetry_json (TD_Battery b) = kind_json ''battery''
     ((''level'', word_json (bat_level b)) #
      opt_member ''used_kb'' word_json (used_kb b) @ opt_member ''total_kb'' word_json (total_kb b))"
| "telemetry_json (TD_StatsCore s) = kind_json ''stats_core''
     [(''battery_mv'', word_json (cs_battery_mv s)), (''uptime_seconds'', word_json (cs_uptime_seconds s)),
      (''errors'', word_json (cs_errors s)), (''queue_length'', word_json (cs_queue_length s))]"
| "telemetry_json (TD_StatsRadio s) = kind_json ''stats_radio''
     [(''noise_floor'', sword_json (rs_noise_floor s)), (''last_rssi'', sword_json (rs_last_rssi s)),
      (''last_snr'', float_json (rs_last_snr s)), (''tx_airtime_seconds'', word_json (rs_tx_airtime_seconds s)),
      (''rx_airtime_seconds'', word_json (rs_rx_airtime_seconds s))]"
| "telemetry_json (TD_StatsPackets s) = kind_json ''stats_packets''
     ([(''recv'', word_json (ps_recv s)), (''sent'', word_json (ps_sent s)),
       (''flood_recv'', word_json (ps_flood_recv s)), (''flood_sent'', word_json (ps_flood_sent s)),
       (''direct_recv'', word_json (ps_direct_recv s)), (''direct_sent'', word_json (ps_direct_sent s))] @
      opt_member ''recv_errors'' word_json (ps_recv_errors s))"
| "telemetry_json (TD_RawCayenneLpp source payload) = kind_json ''raw_cayenne_lpp''
     [(''source_pubkey_prefix'', JString source), (''payload'', JString payload)]"

definition read_battery :: "json \<Rightarrow> telemetry_data option" where
  "read_battery j =
     Option.bind (struct_fields [''level'', ''used_kb'', ''total_kb''] j) (\<lambda>m.
     field m ''level'' json_u16 (\<lambda>level. optional m ''used_kb'' json_u32 (\<lambda>used.
     optional m ''total_kb'' json_u32 (\<lambda>capacity.
       Some (TD_Battery \<lparr>bat_level = level, used_kb = used, total_kb = capacity\<rparr>)))))"

definition read_stats_core :: "json \<Rightarrow> telemetry_data option" where
  "read_stats_core j =
     Option.bind (struct_fields [''battery_mv'', ''uptime_seconds'', ''errors'', ''queue_length''] j) (\<lambda>m.
     field m ''battery_mv'' json_u16 (\<lambda>mv. field m ''uptime_seconds'' json_u32 (\<lambda>uptime.
     field m ''errors'' json_u16 (\<lambda>errors. field m ''queue_length'' json_u8 (\<lambda>queue.
       Some (TD_StatsCore \<lparr>cs_battery_mv = mv, cs_uptime_seconds = uptime, cs_errors = errors,
         cs_queue_length = queue\<rparr>))))))"

definition read_stats_radio :: "json \<Rightarrow> telemetry_data option" where
  "read_stats_radio j =
     Option.bind (struct_fields [''noise_floor'', ''last_rssi'', ''last_snr'', ''tx_airtime_seconds'',
       ''rx_airtime_seconds''] j) (\<lambda>m.
     field m ''noise_floor'' json_i16 (\<lambda>noise. field m ''last_rssi'' json_i8 (\<lambda>strength.
     field m ''last_snr'' (json_float 24) (\<lambda>snr. field m ''tx_airtime_seconds'' json_u32 (\<lambda>tx.
     field m ''rx_airtime_seconds'' json_u32 (\<lambda>rx.
       Some (TD_StatsRadio \<lparr>rs_noise_floor = noise, rs_last_rssi = strength, rs_last_snr = snr,
         rs_tx_airtime_seconds = tx, rs_rx_airtime_seconds = rx\<rparr>)))))))"

definition read_stats_packets :: "json \<Rightarrow> telemetry_data option" where
  "read_stats_packets j =
     Option.bind (struct_fields [''recv'', ''sent'', ''flood_recv'', ''flood_sent'', ''direct_recv'', ''direct_sent'',
       ''recv_errors''] j) (\<lambda>m.
     field m ''recv'' json_u32 (\<lambda>recv. field m ''sent'' json_u32 (\<lambda>sent.
     field m ''flood_recv'' json_u32 (\<lambda>flood_recv. field m ''flood_sent'' json_u32 (\<lambda>flood_sent.
     field m ''direct_recv'' json_u32 (\<lambda>direct_recv. field m ''direct_sent'' json_u32 (\<lambda>direct_sent.
     optional m ''recv_errors'' json_u32 (\<lambda>errors.
       Some (TD_StatsPackets \<lparr>ps_recv = recv, ps_sent = sent, ps_flood_recv = flood_recv,
         ps_flood_sent = flood_sent, ps_direct_recv = direct_recv, ps_direct_sent = direct_sent,
         ps_recv_errors = errors\<rparr>)))))))))"

definition read_raw_cayenne_lpp :: "json \<Rightarrow> telemetry_data option" where
  "read_raw_cayenne_lpp j =
     Option.bind (struct_fields [''source_pubkey_prefix'', ''payload''] j) (\<lambda>m.
     field m ''source_pubkey_prefix'' json_string (\<lambda>source. field m ''payload'' json_string (\<lambda>payload.
       Some (TD_RawCayenneLpp source payload))))"

definition read_telemetry :: "json \<Rightarrow> telemetry_data option" where
  "read_telemetry j = variant j
     [(''battery'', read_battery), (''stats_core'', read_stats_core), (''stats_radio'', read_stats_radio),
      (''stats_packets'', read_stats_packets), (''raw_cayenne_lpp'', read_raw_cayenne_lpp)]"

fun data_value :: "publication \<Rightarrow> json" where
  "data_value (PubIncomingMessage d) = message_data_json d"
| "data_value (PubAck d) = ack_data_json d"
| "data_value (PubConnectionState d) = connection_state_json d"
| "data_value (PubContacts d) = contacts_data_json d"
| "data_value (PubTelemetry d) = telemetry_json d"


section \<open>Envelopes\<close>

record event_envelope =
  ee_schema :: rstr
  ee_event_id :: uuid
  ee_origin :: rstr
  ee_timestamp :: u64
  ee_kind :: event_kind
  ee_data :: json

definition is_lower_hex_digit :: "byte \<Rightarrow> bool" where
  "is_lower_hex_digit b \<longleftrightarrow> 0x30 \<le> b \<and> b \<le> 0x39 \<or> 0x61 \<le> b \<and> b \<le> 0x66"

definition is_lower_hex_exact :: "rstr \<Rightarrow> nat \<Rightarrow> bool" where
  "is_lower_hex_exact v bytes \<longleftrightarrow> length v = bytes * 2 \<and> list_all is_lower_hex_digit v"

definition is_lower_hex_bounded :: "rstr \<Rightarrow> nat \<Rightarrow> bool" where
  "is_lower_hex_bounded v maximum_bytes \<longleftrightarrow>
     2 dvd length v \<and> length v div 2 \<le> maximum_bytes \<and> list_all is_lower_hex_digit v"

definition validate_incoming_message :: "incoming_message_data \<Rightarrow> (schema_error, unit) result" where
  "validate_incoming_message d =
     (if (case im_source d of Direct p \<Rightarrow> \<not> is_lower_hex_exact p 6 | Channel _ \<Rightarrow> False)
      then Err (SE_InvalidWireData ''incoming message public-key prefix must be six lowercase-hex bytes'')
      else if (case im_signature d of None \<Rightarrow> False | Some s \<Rightarrow> \<not> is_lower_hex_exact s 4)
      then Err (SE_InvalidWireData ''incoming message signature must be four lowercase-hex bytes'')
      else Ok ())"

fun validate_contacts :: "contact_data list \<Rightarrow> (schema_error, unit) result" where
  "validate_contacts [] = Ok ()"
| "validate_contacts (c # cs) =
     (if \<not> is_lower_hex_exact (cd_public_key c) 32
      then Err (SE_InvalidWireData ''contact public key must be 32 lowercase-hex bytes'')
      else if \<not> is_lower_hex_bounded (cd_out_path c) 128
      then Err (SE_InvalidWireData ''contact path must be at most 128 lowercase-hex bytes'')
      else validate_contacts cs)"

fun validate_telemetry :: "telemetry_data \<Rightarrow> (schema_error, unit) result" where
  "validate_telemetry (TD_RawCayenneLpp source payload) =
     (if \<not> is_lower_hex_exact source 6
      then Err (SE_InvalidWireData ''telemetry source must be six lowercase-hex bytes'')
      else if \<not> is_lower_hex_bounded payload (2 ^ 64 - 1)
      then Err (SE_InvalidWireData ''telemetry payload must be lowercase hexadecimal'')
      else Ok ())"
| "validate_telemetry _ = Ok ()"

definition bad_command_text :: "rstr \<Rightarrow> bool" where
  "bad_command_text text \<longleftrightarrow> text = [] \<or> length text > MAX_COMMAND_TEXT_BYTES \<or> 0 \<in> set text"

fun validate_event_data :: "event_kind \<Rightarrow> json \<Rightarrow> (schema_error, unit) result" where
  "validate_event_data EK_IncomingMessage data =
     rbind (ok_or (read_message_data data) SE_InvalidEventData) validate_incoming_message"
| "validate_event_data EK_Ack data =
     rbind (ok_or (read_ack_data data) SE_InvalidEventData) (\<lambda>d.
       if \<not> is_lower_hex_exact (ad_code d) 4
       then Err (SE_InvalidWireData ''acknowledgement code must be four lowercase-hex bytes'') else Ok ())"
| "validate_event_data EK_ConnectionState data =
     rbind (ok_or (read_connection_state data) SE_InvalidEventData) (\<lambda>_. Ok ())"
| "validate_event_data EK_Contacts data =
     rbind (ok_or (read_contacts_data data) SE_InvalidEventData) (\<lambda>d. validate_contacts (csd_contacts d))"
| "validate_event_data EK_Telemetry data =
     rbind (ok_or (read_telemetry data) SE_InvalidEventData) validate_telemetry"
| "validate_event_data EK_SendDirect data =
     rbind (ok_or (read_direct_data data) SE_InvalidEventData) (\<lambda>c.
       case c of
         Send_Direct destination text \<Rightarrow>
           if destination = [] \<or> length destination > MAX_COMMAND_DESTINATION_BYTES \<or> \<not> is_trimmed destination \<or>
             has_control destination \<or> bad_command_text text
           then Err (SE_InvalidWireData ''direct command destination or text is invalid'') else Ok ()
       | Send_Channel _ _ \<Rightarrow> Ok ())"
| "validate_event_data EK_SendChannel data =
     rbind (ok_or (read_channel_data data) SE_InvalidEventData) (\<lambda>c.
       case c of
         Send_Channel _ text \<Rightarrow>
           if bad_command_text text
           then Err (SE_InvalidWireData ''channel command text is invalid'') else Ok ()
       | Send_Direct _ _ \<Rightarrow> Ok ())"

definition validate_envelope :: "event_envelope \<Rightarrow> (schema_error, unit) result" where
  "validate_envelope e =
     (if ee_schema e \<noteq> SCHEMA_VERSION then Err (SE_UnsupportedSchema (ee_schema e))
      else if ee_event_id e = 0 then Err SE_NilEventId
      else if \<not> origin_ok (ee_origin e) then Err SE_InvalidOrigin
      else if \<not> is_object (ee_data e) then Err SE_DataMustBeObject
      else validate_event_data (ee_kind e) (ee_data e))"

definition envelope_new ::
    "uuid \<Rightarrow> rstr \<Rightarrow> u64 \<Rightarrow> event_kind \<Rightarrow> json \<Rightarrow> (schema_error, event_envelope) result" where
  "envelope_new event_id origin timestamp kind data =
     (let envelope = \<lparr>ee_schema = SCHEMA_VERSION, ee_event_id = event_id, ee_origin = origin,
                      ee_timestamp = timestamp, ee_kind = kind, ee_data = data\<rparr>
      in rbind (validate_envelope envelope) (\<lambda>_. Ok envelope))"

definition from_publication ::
    "uuid \<Rightarrow> rstr \<Rightarrow> u64 \<Rightarrow> publication \<Rightarrow> (schema_error, event_envelope) result" where
  "from_publication event_id origin timestamp p =
     envelope_new event_id origin timestamp (publication_kind p) (data_value p)"

definition envelope_json :: "mqtt_externs \<Rightarrow> event_envelope \<Rightarrow> json" where
  "envelope_json x e = struct_json
     [(''schema'', JString (ee_schema e)), (''event_id'', JString (hyphenated x (ee_event_id e))),
      (''origin'', JString (ee_origin e)), (''timestamp'', word_json (ee_timestamp e)),
      (''type'', JString (bytes_of (kind_name (ee_kind e)))), (''data'', ee_data e)]"

definition encode_envelope :: "mqtt_externs \<Rightarrow> event_envelope \<Rightarrow> (schema_error, byte list) result" where
  "encode_envelope x e = rbind (validate_envelope e) (\<lambda>_. ok_or (to_vec x (envelope_json x e)) SE_Json)"

definition read_event_envelope :: "mqtt_externs \<Rightarrow> json \<Rightarrow> event_envelope option" where
  "read_event_envelope x j =
     Option.bind (struct_fields [''schema'', ''event_id'', ''origin'', ''timestamp'', ''type'', ''data''] j) (\<lambda>m.
     field m ''schema'' json_string (\<lambda>schema. field m ''event_id'' (deserialize_canonical_uuid x) (\<lambda>event_id.
     field m ''origin'' json_string (\<lambda>origin. field m ''timestamp'' json_u64 (\<lambda>timestamp.
     field m ''type'' read_kind (\<lambda>kind. field m ''data'' (\<lambda>data. Some (to_value data)) (\<lambda>data.
       Some \<lparr>ee_schema = schema, ee_event_id = event_id, ee_origin = origin, ee_timestamp = timestamp,
             ee_kind = kind, ee_data = data\<rparr>)))))))"

definition decode_envelope :: "mqtt_externs \<Rightarrow> byte list \<Rightarrow> (schema_error, event_envelope) result" where
  "decode_envelope x payload =
     rbind (ok_or (Option.bind (from_slice x payload) (read_event_envelope x)) SE_Json) (\<lambda>e.
     rbind (validate_envelope e) (\<lambda>_. Ok e))"


section \<open>What is written is read back\<close>

definition members :: "(string \<times> json) list \<Rightarrow> rstr \<rightharpoonup> json" where
  "members ms = map_of (map (\<lambda>(k, v). (bytes_of k, v)) ms)"

lemma bytes_of_eq [simp]: "bytes_of s = bytes_of t \<longleftrightarrow> s = t"
proof -
  have "inj (of_char :: char \<Rightarrow> byte)"
  proof (rule injI)
    fix c d :: char
    assume "(of_char c :: byte) = of_char d"
    then have "(of_nat (of_char c) :: byte) = of_nat (of_char d)" by (simp only: of_nat_of_char)
    moreover have "unat (of_nat (of_char c) :: byte) = of_char c" for c :: char
      by (simp add: unat_of_nat take_bit_nat_eq_self)
    ultimately have "(of_char c :: nat) = of_char d" by metis
    then show "c = d" by simp
  qed
  then show ?thesis by (simp add: bytes_of_def inj_map_eq_map)
qed

lemma map_of_bytes: "map_of (map (\<lambda>(k, v). (bytes_of k, v)) ms) (bytes_of k) = map_of ms k"
  by (induction ms) auto

lemma members_apply: "members ms (bytes_of k) = map_of ms k"
  by (simp add: members_def map_of_bytes)

lemma distinct_members: "distinct (map fst ms) \<Longrightarrow> distinct (map fst (map (\<lambda>(k, v). (bytes_of k, v)) ms))"
  by (induction ms) (auto simp: image_iff)

lemma struct_fields_struct:
  assumes "distinct (map fst ms)" and "fst ` set ms \<subseteq> set names"
  shows "struct_fields names (struct_json ms) = Some (members ms)"
proof -
  have "fst ` set (map (\<lambda>(k, v). (bytes_of k, v)) ms) \<subseteq> bytes_of ` set names" using assms(2) by force
  with distinct_members [OF assms(1)] show ?thesis
    by (simp add: struct_fields_def struct_json_def members_def)
qed

lemma tagged_kind:
  assumes "''kind'' \<notin> fst ` set ms"
  shows "tagged (kind_json name ms) = Some (bytes_of name, struct_json ms)"
proof -
  have "\<forall>e\<in>set (map (\<lambda>(k, v). (bytes_of k, v)) ms). fst e \<noteq> bytes_of ''kind''"
    using assms by force
  then have "filter (\<lambda>(k, _). k = bytes_of ''kind'') (map (\<lambda>(k, v). (bytes_of k, v)) ms) = []"
    "filter (\<lambda>(k, _). k \<noteq> bytes_of ''kind'') (map (\<lambda>(k, v). (bytes_of k, v)) ms) =
       map (\<lambda>(k, v). (bytes_of k, v)) ms"
    by (auto simp: filter_empty_conv filter_id_conv)
  then show ?thesis by (simp add: tagged_def kind_json_def struct_json_def)
qed

lemma variant_kind:
  "''kind'' \<notin> fst ` set ms \<Longrightarrow>
   variant (kind_json name ms) readers = Option.bind (map_of readers name) (\<lambda>r. r (struct_json ms))"
  by (simp add: variant_def tagged_kind map_of_bytes)

lemma opt_member_simps [simp]:
  "opt_member name f None = []" "opt_member name f (Some v) = [(name, f v)]"
  by (simp_all add: opt_member_def)

lemma field_members: "field (members ms) name read k = Option.bind (map_of ms name) (\<lambda>j. Option.bind (read j) k)"
  by (simp add: field_def members_apply)

lemma optional_members:
  "map_of ms name = None \<Longrightarrow> optional (members ms) name read k = k None"
  "map_of ms name = Some j \<Longrightarrow> j \<noteq> JNull \<Longrightarrow>
     optional (members ms) name read k = Option.bind (read j) (\<lambda>v. k (Some v))"
  by (simp_all add: optional_def members_apply split: json.split)

lemmas reads = struct_fields_struct variant_kind field_members optional_members

lemma not_null [simp]:
  "word_json w \<noteq> JNull" "sword_json w \<noteq> JNull" "exact_float bits f \<Longrightarrow> float_json f \<noteq> JNull"
  by (auto simp: word_json_def sword_json_def exact_float_def)

lemma unit_variant_name:
  "unit_variant name variants (JString (bytes_of n)) = find (\<lambda>v. name v = n) variants"
  by (simp add: unit_variant_def)

lemma read_kind_name [simp]: "read_kind (JString (bytes_of (kind_name k))) = Some k"
  by (cases k) (simp_all add: read_kind_def unit_variant_name)

lemma read_connection_state_json [simp]: "read_connection_state (connection_state_json d) = Some d"
  by (cases d; cases "csd_component d"; cases "csd_status d"; cases "csd_reason d")
    (simp_all add: read_connection_state_def connection_state_json_def reads unit_variant_name)

lemma read_contact_type_json [simp]: "read_contact_type (contact_type_json t) = Some t"
  by (cases t) (simp_all add: read_contact_type_def reads)

lemma read_route_members_struct [simp]: "read_route_members f (struct_json (route_members m h)) = Some (f m h)"
  by (simp add: read_route_members_def route_members_def reads)

lemma route_members_kind [simp]: "''kind'' \<notin> fst ` set (route_members m h)"
  by (simp add: route_members_def)

lemma read_contact_route_json [simp]: "read_contact_route (contact_route_json r) = Some r"
  by (cases r) (simp_all add: read_contact_route_def reads)


lemma read_contact_data_json:
  "exact_float 53 (cd_adv_lat d) \<Longrightarrow> exact_float 53 (cd_adv_lon d) \<Longrightarrow>
   read_contact_data (contact_data_json d) = Some d"
  by (simp add: read_contact_data_def contact_data_json_def reads)

lemma those_map_Some: "(\<And>v. v \<in> set vs \<Longrightarrow> read (f v) = Some v) \<Longrightarrow> those (map read (map f vs)) = Some vs"
  by (induction vs) auto

definition contact_exact :: "contact_data \<Rightarrow> bool" where
  "contact_exact d \<longleftrightarrow> exact_float 53 (cd_adv_lat d) \<and> exact_float 53 (cd_adv_lon d)"

lemma read_contacts_data_json:
  assumes "list_all contact_exact (csd_contacts d)"
  shows "read_contacts_data (contacts_data_json d) = Some d"
proof -
  have "those (map read_contact_data (map contact_data_json (csd_contacts d))) = Some (csd_contacts d)"
    using assms by (intro those_map_Some read_contact_data_json) (auto simp: list_all_iff contact_exact_def)
  then show ?thesis by (simp add: read_contacts_data_def contacts_data_json_def reads)
qed

lemma read_source_json [simp]: "read_source (source_json d) = Some d"
  by (cases d) (simp_all add: read_source_def reads)

lemma read_message_route_json [simp]: "read_message_route (message_route_json r) = Some r"
  by (cases r) (simp_all add: read_message_route_def reads)

lemma read_message_status_json [simp]: "read_message_status (message_status_json t) = Some t"
proof (cases t)
  case (Sent d)
  then show ?thesis by (cases d) (simp_all add: read_message_status_def reads)
qed (simp_all add: read_message_status_def reads)

lemma read_message_data_json:
  assumes "pred_option (exact_float 24) (im_snr d)"
  shows "read_message_data (message_data_json d) = Some d"
  using assms
  by (cases "im_signature d"; cases "im_snr d")
    (simp_all add: read_message_data_def message_data_json_def reads)

lemma read_ack_data_json [simp]: "read_ack_data (ack_data_json d) = Some d"
  by (cases "ad_trip_time_ms d") (simp_all add: read_ack_data_def ack_data_json_def reads)

fun telemetry_exact :: "telemetry_data \<Rightarrow> bool" where
  "telemetry_exact (TD_StatsRadio s) = exact_float 24 (rs_last_snr s)"
| "telemetry_exact _ = True"

lemma read_telemetry_json:
  assumes "telemetry_exact d"
  shows "read_telemetry (telemetry_json d) = Some d"
proof (cases d)
  case (TD_Battery b)
  then show ?thesis
    by (cases "used_kb b"; cases "total_kb b")
      (simp_all add: read_telemetry_def read_battery_def reads)
next
  case (TD_StatsPackets t)
  then show ?thesis
    by (cases "ps_recv_errors t") (simp_all add: read_telemetry_def read_stats_packets_def reads)
qed (use assms in \<open>simp_all add: read_telemetry_def read_stats_core_def read_stats_radio_def
       read_raw_cayenne_lpp_def reads\<close>)


fun publication_exact :: "publication \<Rightarrow> bool" where
  "publication_exact (PubIncomingMessage d) = pred_option (exact_float 24) (im_snr d)"
| "publication_exact (PubContacts d) = list_all contact_exact (csd_contacts d)"
| "publication_exact (PubTelemetry d) = telemetry_exact d"
| "publication_exact _ = True"

text \<open>The data of an envelope as the publication it stands for; commands are none.\<close>

fun read_publication :: "event_kind \<Rightarrow> json \<Rightarrow> publication option" where
  "read_publication EK_IncomingMessage j = map_option PubIncomingMessage (read_message_data j)"
| "read_publication EK_Ack j = map_option PubAck (read_ack_data j)"
| "read_publication EK_ConnectionState j = map_option PubConnectionState (read_connection_state j)"
| "read_publication EK_Contacts j = map_option PubContacts (read_contacts_data j)"
| "read_publication EK_Telemetry j = map_option PubTelemetry (read_telemetry j)"
| "read_publication _ j = None"

lemma read_publication_data:
  "publication_exact p \<Longrightarrow> read_publication (publication_kind p) (data_value p) = Some p"
  by (cases p) (simp_all add: read_message_data_json read_contacts_data_json read_telemetry_json)

lemma struct_is_object [simp]: "is_object (struct_json ms)" "is_object (kind_json name ms)"
  by (simp_all add: struct_json_def kind_json_def)

lemma data_value_object [simp]: "is_object (data_value p)"
proof (cases p)
  case (PubTelemetry d)
  then show ?thesis by (cases d) simp_all
qed (simp_all add: message_data_json_def ack_data_json_def connection_state_json_def contacts_data_json_def)

section \<open>No member is repeated\<close>

lemma last_wins_distinct: "distinct (map fst ms) \<Longrightarrow> last_wins ms = ms"
  by (induction ms rule: last_wins.induct) (auto simp: image_iff)

lemma to_value_struct:
  assumes "distinct (map fst ms)" and "list_all (\<lambda>(_, v). to_value v = v) ms"
  shows "to_value (struct_json ms) = struct_json ms"
proof -
  have "map (\<lambda>(k, v). (k, to_value v)) (map (\<lambda>(k, v). (bytes_of k, v)) ms) = map (\<lambda>(k, v). (bytes_of k, v)) ms"
    using assms(2) by (auto simp: list_all_iff)
  then show ?thesis
    unfolding struct_json_def to_value.simps by (simp only: last_wins_distinct distinct_members assms(1))
qed

lemma kind_json_struct: "kind_json name ms = struct_json ((''kind'', JString (bytes_of name)) # ms)"
  by (simp add: kind_json_def struct_json_def)

lemma to_value_scalars [simp]:
  "to_value (word_json w) = word_json w" "to_value (sword_json w) = sword_json w"
  "to_value (float_json f) = float_json f"
  by (simp_all add: word_json_def sword_json_def, cases f) simp_all

lemmas to_value_parts = to_value_struct kind_json_struct

lemma to_value_tagged [simp]:
  "to_value (contact_type_json t) = contact_type_json t"
  "to_value (contact_route_json r) = contact_route_json r"
  "to_value (source_json d) = source_json d"
  "to_value (message_route_json q) = message_route_json q"
  by (cases t; cases r; cases d; cases q; simp add: to_value_parts route_members_def)+

lemma to_value_status [simp]: "to_value (message_status_json t) = message_status_json t"
proof (cases t)
  case (Sent d)
  then show ?thesis by (cases d) (simp_all add: to_value_parts)
qed (simp_all add: to_value_parts)

lemma to_value_telemetry [simp]: "to_value (telemetry_json d) = telemetry_json d"
proof (cases d)
  case (TD_Battery b)
  then show ?thesis by (cases "used_kb b"; cases "total_kb b") (simp_all add: to_value_parts)
next
  case (TD_StatsPackets t)
  then show ?thesis by (cases "ps_recv_errors t") (simp_all add: to_value_parts)
qed (simp_all add: to_value_parts)

lemma to_value_contact [simp]: "to_value (contact_data_json c) = contact_data_json c"
  by (simp add: contact_data_json_def to_value_parts)

lemma to_value_data [simp]: "to_value (data_value p) = data_value p"
proof (cases p)
  case (PubIncomingMessage d)
  then show ?thesis
    by (cases "im_signature d"; cases "im_snr d") (simp_all add: message_data_json_def to_value_parts)
next
  case (PubAck d)
  then show ?thesis by (cases "ad_trip_time_ms d") (simp_all add: ack_data_json_def to_value_parts)
next
  case (PubConnectionState d)
  then show ?thesis by (cases "csd_reason d") (simp_all add: connection_state_json_def to_value_parts)
next
  case (PubContacts d)
  then show ?thesis by (simp add: contacts_data_json_def to_value_parts o_def)
qed simp


section \<open>The envelope is read back\<close>

lemma read_event_envelope_json:
  assumes "parse_uuid x (hyphenated x (ee_event_id e)) = Some (ee_event_id e)" and "to_value (ee_data e) = ee_data e"
  shows "read_event_envelope x (envelope_json x e) = Some e"
  using assms by (simp add: read_event_envelope_def envelope_json_def reads deserialize_canonical_uuid_def)

lemma from_publication_Ok:
  "from_publication event_id origin timestamp p = Ok e \<Longrightarrow>
     e = \<lparr>ee_schema = SCHEMA_VERSION, ee_event_id = event_id, ee_origin = origin, ee_timestamp = timestamp,
          ee_kind = publication_kind p, ee_data = data_value p\<rparr> \<and> validate_envelope e = Ok ()"
  by (auto simp: from_publication_def envelope_new_def Let_def rbind_unit_Ok)

text \<open>C28: A publication survives the wire. When the gateway has built an envelope for a publication and
  encoded it, decoding the payload gives that envelope, valid, and its data read as the type its
  discriminator names are the publication, provided the JSON library reads the document back that it
  wrote and the UUID library parses the identifier it printed. (The floats of the publication are values
  of their type, as every float the client produces is.)\<close>

theorem publication_roundtrip:
  assumes "publication_exact p" and "from_publication event_id origin timestamp p = Ok e"
    and "encode_envelope x e = Ok payload" and "from_slice x payload = Some (envelope_json x e)"
    and "parse_uuid x (hyphenated x event_id) = Some event_id"
  shows "decode_envelope x payload = Ok e \<and> read_publication (ee_kind e) (ee_data e) = Some p"
proof -
  note e = from_publication_Ok [OF assms(2)]
  then have "read_event_envelope x (envelope_json x e) = Some e"
    using assms(5) by (intro read_event_envelope_json) simp_all
  with conjunct2 [OF e] assms(4) have "decode_envelope x payload = Ok e" by (simp add: decode_envelope_def)
  moreover have "read_publication (ee_kind e) (ee_data e) = Some p"
    using e read_publication_data [OF assms(1)] by simp
  ultimately show ?thesis ..
qed

definition sample_publication :: publication where
  "sample_publication = PubAck \<lparr>ad_code = bytes_of ''0102030f'', ad_trip_time_ms = Some 7\<rparr>"

definition sample_envelope_record :: event_envelope where
  "sample_envelope_record =
     \<lparr>ee_schema = SCHEMA_VERSION, ee_event_id = 5, ee_origin = bytes_of ''site'', ee_timestamp = 1,
      ee_kind = EK_Ack, ee_data = data_value sample_publication\<rparr>"

definition sample_printer :: mqtt_externs where
  "sample_printer =
     \<lparr>from_slice = (\<lambda>_. Some (struct_json
        [(''schema'', JString SCHEMA_VERSION), (''event_id'', JString []), (''origin'', JString (bytes_of ''site'')),
         (''timestamp'', word_json (1 :: u64)), (''type'', JString (bytes_of ''ack'')),
         (''data'', data_value sample_publication)])),
      to_vec = (\<lambda>_. Some [0]), parse_uuid = (\<lambda>_. Some 5), hyphenated = (\<lambda>_. [])\<rparr>"

lemma sample_envelope_valid: "validate_envelope sample_envelope_record = Ok ()"
proof -
  have "origin_ok (bytes_of ''site'')" by (simp add: origin_ok_def text_checks)
  moreover have "is_lower_hex_exact (bytes_of ''0102030f'') 4"
    by (simp add: is_lower_hex_exact_def is_lower_hex_digit_def bytes_of_def)
  ultimately show ?thesis
    by (simp add: validate_envelope_def sample_envelope_record_def sample_publication_def)
      (simp add: ack_data_json_def)
qed

theorem publication_roundtrip_witness:
  "decode_envelope sample_printer [0] = Ok sample_envelope_record \<and>
   read_publication EK_Ack (data_value sample_publication) = Some sample_publication"
proof -
  have "from_publication 5 (bytes_of ''site'') 1 sample_publication = Ok sample_envelope_record"
    using sample_envelope_valid
    by (simp add: from_publication_def envelope_new_def sample_envelope_record_def)
      (simp add: sample_publication_def)
  from publication_roundtrip [OF _ this, of sample_printer "[0]"] show ?thesis
    using sample_envelope_valid
    by (simp add: encode_envelope_def sample_printer_def envelope_json_def sample_publication_def
        sample_envelope_record_def)
qed

end
