(* ===== verification/Transport.thy ===== *)
theory Transport
  imports Framing
begin

text \<open>
  The transport interface of \<^verbatim>\<open>meshquill-core/src/transport.rs\<close> and its in-memory implementation
  \<^verbatim>\<open>ScriptedTransport\<close>. The trait is the record \<open>transport_ops\<close> of its methods over a transport
  state. A read is given the time the enclosing \<^verbatim>\<open>tokio::time::timeout\<close> allows (in nanoseconds;
  none when there is no timeout) and either completes or is still pending when that time is over;
  a pending read has consumed no packet, which is the cancellation-safety contract of the trait.
  The passage of time is part of the transport state: \<open>t_now\<close> is the clock of the asynchronous
  runtime, which a deadline over several reads is measured with.
\<close>

type_synonym duration = nat

datatype transport_kind = Scripted | Serial | Ble | Tcp | UnknownTransport

datatype ready_read = RR_Pending | RR_Closed | RR_Packet "byte list"

record 't transport_ops =
  t_kind :: "'t \<Rightarrow> transport_kind"
  t_connect :: "'t \<Rightarrow> (transport_error, unit) result \<times> 't"
  t_disconnect :: "'t \<Rightarrow> (transport_error, unit) result \<times> 't"
  t_write :: "byte list \<Rightarrow> 't \<Rightarrow> (transport_error, unit) result \<times> 't"
  t_read :: "duration option \<Rightarrow> 't \<Rightarrow> (transport_error, byte list option) result polled \<times> 't"
  t_try_read :: "'t \<Rightarrow> (transport_error, ready_read) result \<times> 't"
  t_reconnect :: "'t \<Rightarrow> (transport_error, unit) result \<times> 't"
  t_now :: "'t \<Rightarrow> duration"

text \<open>The default methods: one poll of \<^verbatim>\<open>read\<close>, and a disconnect followed by a connect.\<close>

definition default_try_read ::
    "(duration option \<Rightarrow> 't \<Rightarrow> (transport_error, byte list option) result polled \<times> 't) \<Rightarrow>
     't \<Rightarrow> (transport_error, ready_read) result \<times> 't" where
  "default_try_read read_op t =
     (case read_op (Some 0) t of
        (Pending, t') \<Rightarrow> (Ok RR_Pending, t')
      | (Ready (Ok (Some packet)), t') \<Rightarrow> (Ok (RR_Packet packet), t')
      | (Ready (Ok None), t') \<Rightarrow> (Ok RR_Closed, t')
      | (Ready (Err e), t') \<Rightarrow> (Err e, t')
      | (Ready Panic, t') \<Rightarrow> (Panic, t'))"

definition default_reconnect ::
    "('t \<Rightarrow> (transport_error, unit) result \<times> 't) \<Rightarrow> ('t \<Rightarrow> (transport_error, unit) result \<times> 't) \<Rightarrow>
     't \<Rightarrow> (transport_error, unit) result \<times> 't" where
  "default_reconnect disconnect_op connect_op t =
     (case disconnect_op t of (Ok _, t') \<Rightarrow> connect_op t' | (r, t') \<Rightarrow> (r, t'))"

section \<open>The scripted transport\<close>

record scripted_transport =
  st_kind :: transport_kind
  st_connected :: bool
  incoming :: "byte list list"
  outgoing :: "byte list list"

definition scripted_default :: scripted_transport where
  "scripted_default = \<lparr>st_kind = Scripted, st_connected = False, incoming = [], outgoing = []\<rparr>"

definition with_inbound_frames :: "byte list list \<Rightarrow> scripted_transport" where
  "with_inbound_frames frames =
     \<lparr>st_kind = Scripted, st_connected = True, incoming = frames, outgoing = []\<rparr>"

definition enqueue_inbound :: "byte list \<Rightarrow> scripted_transport \<Rightarrow> scripted_transport" where
  "enqueue_inbound payload t = t\<lparr>incoming := incoming t @ [payload]\<rparr>"

definition pop_outbound :: "scripted_transport \<Rightarrow> byte list option \<times> scripted_transport" where
  "pop_outbound t =
     (case outgoing t of [] \<Rightarrow> (None, t) | p # ps \<Rightarrow> (Some p, t\<lparr>outgoing := ps\<rparr>))"

definition outbound_frames :: "scripted_transport \<Rightarrow> byte list list" where
  "outbound_frames t = outgoing t"

definition drain_outbound :: "scripted_transport \<Rightarrow> byte list list \<times> scripted_transport" where
  "drain_outbound t = (outgoing t, t\<lparr>outgoing := []\<rparr>)"

definition scripted_connect :: "scripted_transport \<Rightarrow> (transport_error, unit) result \<times> scripted_transport" where
  "scripted_connect t = (Ok (), t\<lparr>st_connected := True\<rparr>)"

definition scripted_disconnect :: "scripted_transport \<Rightarrow> (transport_error, unit) result \<times> scripted_transport" where
  "scripted_disconnect t = (Ok (), t\<lparr>st_connected := False\<rparr>)"

definition scripted_write ::
    "byte list \<Rightarrow> scripted_transport \<Rightarrow> (transport_error, unit) result \<times> scripted_transport" where
  "scripted_write payload t =
     (if \<not> st_connected t then (Err NotConnected, t)
      else (Ok (), t\<lparr>outgoing := outgoing t @ [payload]\<rparr>))"

definition scripted_read ::
    "duration option \<Rightarrow> scripted_transport \<Rightarrow>
     (transport_error, byte list option) result polled \<times> scripted_transport" where
  "scripted_read limit t =
     (if \<not> st_connected t then (Ready (Err NotConnected), t)
      else
        case incoming t of
          [] \<Rightarrow> (Ready (Ok None), t)
        | p # ps \<Rightarrow> (Ready (Ok (Some p)), t\<lparr>incoming := ps\<rparr>))"

definition scripted_try_read ::
    "scripted_transport \<Rightarrow> (transport_error, ready_read) result \<times> scripted_transport" where
  "scripted_try_read t =
     (if \<not> st_connected t then (Err NotConnected, t) else (Ok RR_Pending, t))"

text \<open>A scripted transport answers every read at once, so its clock stands still.\<close>

definition scripted_ops :: "scripted_transport transport_ops" where
  "scripted_ops =
     \<lparr>t_kind = st_kind, t_connect = scripted_connect, t_disconnect = scripted_disconnect,
      t_write = scripted_write, t_read = scripted_read, t_try_read = scripted_try_read,
      t_reconnect = default_reconnect scripted_disconnect scripted_connect, t_now = (\<lambda>_. 0)\<rparr>"

section \<open>Interfaces\<close>

text \<open>
  What a client needs of a transport for its receive loops to return: every packet a read
  delivers is taken from a finite backlog.
\<close>

locale finite_transport =
  fixes ops :: "'t transport_ops" and backlog :: "'t \<Rightarrow> nat"
  assumes read_consumes:
    "t_read ops limit t = (Ready (Ok (Some raw)), t') \<Longrightarrow> backlog t' < backlog t"

text \<open>
  What it needs to account for what was sent: the packets handed over so far are a log, a successful
  write appends exactly its payload, a failed one either appends it or not, and no other operation
  changes the log.
\<close>

locale logged_transport =
  fixes ops :: "'t transport_ops" and sent :: "'t \<Rightarrow> byte list list"
  assumes write_logs: "t_write ops payload t = (r, t') \<Longrightarrow>
      sent t' = sent t @ [payload] \<or> (sent t' = sent t \<and> (\<forall>v. r \<noteq> Ok v))"
    and read_logs: "sent (snd (t_read ops limit t)) = sent t"
    and try_read_logs: "sent (snd (t_try_read ops t)) = sent t"
    and connect_logs: "sent (snd (t_connect ops t)) = sent t"
    and disconnect_logs: "sent (snd (t_disconnect ops t)) = sent t"
    and reconnect_logs: "sent (snd (t_reconnect ops t)) = sent t"

lemmas scripted_defs =
  scripted_ops_def scripted_connect_def scripted_disconnect_def scripted_write_def scripted_read_def
  scripted_try_read_def default_reconnect_def

interpretation scripted: finite_transport scripted_ops "\<lambda>t. length (incoming t)"
  by unfold_locales (auto simp: scripted_defs split: if_splits list.splits)

interpretation scripted_log: logged_transport scripted_ops outgoing
  by unfold_locales (auto simp: scripted_defs split: if_splits list.splits)

end
