(* ===== verification/Client.thy ===== *)
theory Client
  imports Transport Packet
begin

text \<open>
  The client state machine of \<^verbatim>\<open>meshquill-core/src/client.rs\<close>. The state is the record
  \<open>client\<close>; the broadcast channel is the list of the events sent to it, a \<^verbatim>\<open>HashMap\<close> is a map and
  a \<^verbatim>\<open>VecDeque\<close> a list. An asynchronous operation is an \<open>action\<close>: a function of the state that
  returns the result and the new state, or nothing when it never completes. The
  \<^verbatim>\<open>loop { read; match }\<close> of the operations is \<open>recv_loop\<close>, given the arms of the match as a
  handler. The transport's methods \<open>T\<close> and the third-party functions \<open>x\<close> are parameters.
  Durations are nanoseconds.
\<close>

section \<open>State\<close>

definition CLIENT_REQUEST_TIMEOUT :: duration where
  "CLIENT_REQUEST_TIMEOUT = 5 * 10 ^ 9"

definition MAX_OPERATION_TIMEOUT :: duration where
  "MAX_OPERATION_TIMEOUT = 24 * 60 * 60 * 10 ^ 9"

definition CLIENT_COMPLETED_ACK_CAPACITY :: nat where
  "CLIENT_COMPLETED_ACK_CAPACITY = 256"

definition CLIENT_PENDING_ACK_CAPACITY :: nat where
  "CLIENT_PENDING_ACK_CAPACITY = 256"

definition CLIENT_SYNC_READY_DRAIN_CAPACITY :: nat where
  "CLIENT_SYNC_READY_DRAIN_CAPACITY = 256"

definition MAX_REMOTE_RESPONSE_TIMEOUT :: duration where
  "MAX_REMOTE_RESPONSE_TIMEOUT = 60 * 10 ^ 9"

definition SIGNING_CHUNK_BYTES :: nat where
  "SIGNING_CHUNK_BYTES = 120"

datatype 'r packet_wait = PW_Ready 'r | PW_Continue packet | PW_Fail core_error

datatype ready_sync = RS_Message message | RS_NoMoreMessages | RS_Error

datatype sync_state = Idle | AwaitingResponse

record contact_collection =
  cc_contacts :: "contact list"
  cc_lastmod :: "u32 option"

record 't client =
  cl_transport :: 't
  cl_events :: "event list"
  request_timeout :: duration
  cl_connected :: bool
  pending_acks :: "byte list \<rightharpoonup> command_tracking"
  pending_ack_order :: "byte list list"
  completed_acks :: "byte list \<rightharpoonup> ack"
  completed_ack_order :: "byte list list"
  next_message_observation_id :: u64
  sync_state :: sync_state
  deferred_sync :: "ready_sync option"

type_synonym ('t, 'r) action = "'t client \<Rightarrow> ('r outcome \<times> 't client) option"

definition with_valid_timeout :: "'t \<Rightarrow> duration \<Rightarrow> 't client" where
  "with_valid_timeout t d =
     \<lparr>cl_transport = t, cl_events = [], request_timeout = d, cl_connected = False,
      pending_acks = Map.empty, pending_ack_order = [], completed_acks = Map.empty,
      completed_ack_order = [], next_message_observation_id = 1, sync_state = Idle,
      deferred_sync = None\<rparr>"

definition client_new :: "'t \<Rightarrow> 't client" where
  "client_new t = with_valid_timeout t CLIENT_REQUEST_TIMEOUT"

definition validate_operation_timeout :: "duration \<Rightarrow> unit outcome" where
  "validate_operation_timeout d =
     (if d = 0 \<or> d > MAX_OPERATION_TIMEOUT
      then Err (InvalidArgument ''timeout'' ''must be greater than zero and at most 24 hours'')
      else Ok ())"

definition with_timeout :: "'t \<Rightarrow> duration \<Rightarrow> 't client outcome" where
  "with_timeout t d = rbind (validate_operation_timeout d) (\<lambda>_. Ok (with_valid_timeout t d))"

definition pending_ack_codes :: "'t client \<Rightarrow> byte list list" where
  "pending_ack_codes c = pending_ack_order c"

definition ensure_connected :: "'t client \<Rightarrow> unit outcome" where
  "ensure_connected c = (if cl_connected c then Ok () else Err Disconnected)"

definition emit :: "event \<Rightarrow> 't client \<Rightarrow> 't client" where
  "emit e c = c\<lparr>cl_events := cl_events c @ [e]\<rparr>"

section \<open>Tracking of acknowledgements\<close>

text \<open>
  The \<^verbatim>\<open>while\<close> loop that makes room for one more entry: the oldest code is popped and its entry
  removed until fewer than \<open>cap\<close> are left.
\<close>

fun evict :: "nat \<Rightarrow> 'k list \<Rightarrow> ('k \<rightharpoonup> 'v) \<Rightarrow> 'k list \<times> ('k \<rightharpoonup> 'v)" where
  "evict cap [] m = ([], m)"
| "evict cap (oldest # order) m =
     (if cap \<le> length (oldest # order) then evict cap order (m(oldest := None))
      else (oldest # order, m))"

definition discard_pending_ack :: "byte list \<Rightarrow> 't client \<Rightarrow> 't client" where
  "discard_pending_ack code c =
     c\<lparr>pending_acks := (pending_acks c)(code := None),
       pending_ack_order := filter (\<lambda>k. k \<noteq> code) (pending_ack_order c)\<rparr>"

definition remember_pending_ack :: "command_tracking \<Rightarrow> 't client \<Rightarrow> 't client" where
  "remember_pending_ack tracking c =
     (let c = discard_pending_ack (ack_code tracking) c;
          (order, m) = evict CLIENT_PENDING_ACK_CAPACITY (pending_ack_order c) (pending_acks c)
      in c\<lparr>pending_ack_order := order @ [ack_code tracking],
           pending_acks := m(ack_code tracking \<mapsto> tracking)\<rparr>)"

definition take_pending_ack :: "byte list \<Rightarrow> 't client \<Rightarrow> command_tracking option \<times> 't client" where
  "take_pending_ack code c =
     (case pending_acks c code of
        None \<Rightarrow> (None, c)
      | Some tracking \<Rightarrow>
          (Some tracking,
           c\<lparr>pending_acks := (pending_acks c)(code := None),
             pending_ack_order := filter (\<lambda>k. k \<noteq> code) (pending_ack_order c)\<rparr>))"

definition discard_completed_ack :: "byte list \<Rightarrow> 't client \<Rightarrow> 't client" where
  "discard_completed_ack code c =
     c\<lparr>completed_acks := (completed_acks c)(code := None),
       completed_ack_order := filter (\<lambda>k. k \<noteq> code) (completed_ack_order c)\<rparr>"

definition remember_completed_ack :: "ack \<Rightarrow> 't client \<Rightarrow> 't client" where
  "remember_completed_ack a c =
     (let c = discard_completed_ack (a_code a) c;
          (order, m) = evict CLIENT_COMPLETED_ACK_CAPACITY (completed_ack_order c) (completed_acks c)
      in c\<lparr>completed_ack_order := order @ [a_code a], completed_acks := m(a_code a \<mapsto> a)\<rparr>)"

definition take_completed_ack :: "byte list \<Rightarrow> 't client \<Rightarrow> ack option \<times> 't client" where
  "take_completed_ack code c =
     (case completed_acks c code of
        None \<Rightarrow> (None, c)
      | Some a \<Rightarrow>
          (Some a,
           c\<lparr>completed_acks := (completed_acks c)(code := None),
             completed_ack_order := filter (\<lambda>k. k \<noteq> code) (completed_ack_order c)\<rparr>))"

definition clear_tracking :: "'t client \<Rightarrow> 't client" where
  "clear_tracking c =
     c\<lparr>pending_acks := Map.empty, pending_ack_order := [], completed_acks := Map.empty,
       completed_ack_order := []\<rparr>"

definition clear_sync_tracking :: "'t client \<Rightarrow> 't client" where
  "clear_sync_tracking c = c\<lparr>sync_state := Idle, deferred_sync := None\<rparr>"

definition mark_disconnected :: "'t client \<Rightarrow> 't client" where
  "mark_disconnected c =
     (let c = clear_sync_tracking (clear_tracking c)
      in if cl_connected c then emit E_Disconnected (c\<lparr>cl_connected := False\<rparr>) else c)"

definition update_tracking :: "packet \<Rightarrow> 't client \<Rightarrow> 't client" where
  "update_tracking packet c =
     (case packet of
        P_MsgSent _ expected_ack suggested \<Rightarrow>
          remember_pending_ack \<lparr>ack_code = expected_ack, timeout_ms = suggested\<rparr>
            (discard_completed_ack expected_ack c)
      | P_Ack a \<Rightarrow>
          (case take_pending_ack (a_code a) c of
             (Some _, c') \<Rightarrow> remember_completed_ack a c'
           | (None, c') \<Rightarrow> c')
      | _ \<Rightarrow> c)"

section \<open>Publication and inbox synchronisation\<close>

definition retain_sync_response :: "packet \<Rightarrow> 't client \<Rightarrow> 't client" where
  "retain_sync_response packet c =
     (if sync_state c \<noteq> AwaitingResponse then c
      else
        case (case packet of
                P_ContactMsg m \<Rightarrow> Some (RS_Message m)
              | P_ChannelMsg m \<Rightarrow> Some (RS_Message m)
              | P_NoMoreMsgs \<Rightarrow> Some RS_NoMoreMessages
              | P_Error _ \<Rightarrow> Some RS_Error
              | _ \<Rightarrow> None) of
          Some ready \<Rightarrow> c\<lparr>deferred_sync := Some ready, sync_state := Idle\<rparr>
        | None \<Rightarrow> c)"

definition publish_event :: "packet \<Rightarrow> 't client \<Rightarrow> 't client" where
  "publish_event packet c =
     (let c = retain_sync_response packet c
      in case into_event packet of Some e \<Rightarrow> emit e c | None \<Rightarrow> c)"

text \<open>The arm \<^verbatim>\<open>other => { publish_event; update_tracking }\<close> the receive loops share.\<close>

definition pass_on :: "packet \<Rightarrow> 't client \<Rightarrow> 't client" where
  "pass_on packet c = update_tracking packet (publish_event packet c)"

fun ready_sync_result :: "ready_sync \<Rightarrow> message option outcome" where
  "ready_sync_result (RS_Message m) = Ok (Some m)"
| "ready_sync_result RS_NoMoreMessages = Ok None"
| "ready_sync_result RS_Error = Err (ProtocolInvariant ''sync next message returned an error'')"

section \<open>Reading and writing\<close>

definition is_disconnect_error :: "transport_error \<Rightarrow> bool" where
  "is_disconnect_error e =
     (case e of
        NotConnected \<Rightarrow> True
      | Closed \<Rightarrow> True
      | Io err \<Rightarrow> io_kind err \<in> {ConnectionAborted, ConnectionReset, BrokenPipe, IoNotConnected, UnexpectedEof}
      | _ \<Rightarrow> False)"

definition is_terminal_write_error :: "transport_error \<Rightarrow> bool" where
  "is_terminal_write_error e =
     (case e of
        NotConnected \<Rightarrow> True
      | Closed \<Rightarrow> True
      | TransportTimeout \<Rightarrow> True
      | ReconnectFailed _ \<Rightarrow> True
      | Io _ \<Rightarrow> True
      | _ \<Rightarrow> False)"

text \<open>\<^verbatim>\<open>wrapping_add(1)\<close> on the identifier skips zero.\<close>

definition next_observation_id :: "u64 \<Rightarrow> u64" where
  "next_observation_id n = (if n + 1 = 0 then 1 else n + 1)"

definition parse_packet :: "externs \<Rightarrow> byte list \<Rightarrow> 't client \<Rightarrow> packet outcome \<times> 't client" where
  "parse_packet x raw c =
     (case map_err Parse (parse x raw) of
        Ok (P_ContactMsg m) \<Rightarrow>
          (Ok (P_ContactMsg (m\<lparr>observation_id := Some (next_message_observation_id c)\<rparr>)),
           c\<lparr>next_message_observation_id := next_observation_id (next_message_observation_id c)\<rparr>)
      | Ok (P_ChannelMsg m) \<Rightarrow>
          (Ok (P_ChannelMsg (m\<lparr>observation_id := Some (next_message_observation_id c)\<rparr>)),
           c\<lparr>next_message_observation_id := next_observation_id (next_message_observation_id c)\<rparr>)
      | r \<Rightarrow> (r, c))"

definition read_next_packet ::
    "'t transport_ops \<Rightarrow> externs \<Rightarrow> duration option \<Rightarrow> 't client \<Rightarrow> packet outcome polled \<times> 't client" where
  "read_next_packet T x limit c =
     (case t_read T limit (cl_transport c) of
        (Pending, t) \<Rightarrow> (Pending, c\<lparr>cl_transport := t\<rparr>)
      | (Ready (Ok (Some raw)), t) \<Rightarrow>
          (case parse_packet x raw (c\<lparr>cl_transport := t\<rparr>) of (r, c') \<Rightarrow> (Ready r, c'))
      | (Ready (Ok None), t) \<Rightarrow>
          (Ready (Err Disconnected), mark_disconnected (c\<lparr>cl_transport := t\<rparr>))
      | (Ready (Err e), t) \<Rightarrow>
          (Ready (Err (Transport e)),
           if is_disconnect_error e then mark_disconnected (c\<lparr>cl_transport := t\<rparr>)
           else c\<lparr>cl_transport := t\<rparr>)
      | (Ready Panic, t) \<Rightarrow> (Ready Panic, c\<lparr>cl_transport := t\<rparr>))"

text \<open>\<^verbatim>\<open>timeout(d, self.read_next_packet())\<close>, and a read inside a loop under \<^verbatim>\<open>timeout(d, ..)\<close>.\<close>

definition read_within :: "'t transport_ops \<Rightarrow> externs \<Rightarrow> duration \<Rightarrow> 't client \<Rightarrow> packet outcome \<times> 't client" where
  "read_within T x d c =
     (case read_next_packet T x (Some d) c of
        (Pending, c') \<Rightarrow> (Err Timeout, c')
      | (Ready r, c') \<Rightarrow> (r, c'))"

definition write_raw :: "'t transport_ops \<Rightarrow> byte list \<Rightarrow> 't client \<Rightarrow> unit outcome \<times> 't client" where
  "write_raw T payload c =
     (if payload = [] then (Err (ProtocolInvariant ''cannot send an empty companion packet''), c)
      else if length payload > MAX_INNER_PAYLOAD
      then (Err (Parse (OversizedPacketPayload (length payload) MAX_INNER_PAYLOAD)), c)
      else
        case t_write T payload (cl_transport c) of
          (Ok _, t) \<Rightarrow> (Ok (), c\<lparr>cl_transport := t\<rparr>)
        | (Err e, t) \<Rightarrow>
            (Err (Transport e),
             if is_terminal_write_error e then mark_disconnected (c\<lparr>cl_transport := t\<rparr>)
             else c\<lparr>cl_transport := t\<rparr>)
        | (Panic, t) \<Rightarrow> (Panic, c\<lparr>cl_transport := t\<rparr>))"

definition send_raw :: "'t transport_ops \<Rightarrow> byte list \<Rightarrow> 't client \<Rightarrow> unit outcome \<times> 't client" where
  "send_raw T payload c =
     (if sync_state c = AwaitingResponse
      then (Err (ProtocolInvariant
        ''a prior inbox synchronization response must be reconciled before another command''), c)
      else write_raw T payload c)"

section \<open>Actions\<close>

definition act_of :: "'r outcome \<Rightarrow> ('t, 'r) action" where
  "act_of r c = Some (r, c)"

definition act_bind :: "('t, 'a) action \<Rightarrow> ('a \<Rightarrow> ('t, 'b) action) \<Rightarrow> ('t, 'b) action" where
  "act_bind a k c =
     (case a c of
        None \<Rightarrow> None
      | Some (Ok v, c') \<Rightarrow> k v c'
      | Some (Err e, c') \<Rightarrow> Some (Err e, c')
      | Some (Panic, c') \<Rightarrow> Some (Panic, c'))"

definition ensure :: "('t, unit) action" where
  "ensure c = Some (ensure_connected c, c)"

text \<open>
  The receive loop: read a packet within what the \<open>budget\<close> allows and hand it to the arms of the
  match. \<open>Inl\<close> is a \<^verbatim>\<open>return\<close>, \<open>Inr\<close> goes round again with the loop's local variables.
\<close>

partial_function (option) recv_loop ::
    "'t transport_ops \<Rightarrow> externs \<Rightarrow> ('t client \<Rightarrow> duration) \<Rightarrow>
     (packet \<Rightarrow> 'l \<Rightarrow> 't client \<Rightarrow> ('r outcome + 'l) \<times> 't client) \<Rightarrow> 'l \<Rightarrow> 't client \<Rightarrow>
     ('r outcome \<times> 't client) option" where
  "recv_loop T x budget handler l c =
     (case read_within T x (budget c) c of
        (Ok packet, c1) \<Rightarrow>
          (case handler packet l c1 of
             (Inl r, c2) \<Rightarrow> Some (r, c2)
           | (Inr l', c2) \<Rightarrow> recv_loop T x budget handler l' c2)
      | (Err e, c1) \<Rightarrow> Some (Err e, c1)
      | (Panic, c1) \<Rightarrow> Some (Panic, c1))"

text \<open>
  A loop around \<^verbatim>\<open>read_next_packet_with_timeout\<close> gives every read the request timeout; a loop
  inside \<^verbatim>\<open>timeout(d, ..)\<close> has one deadline. Both answer \<open>Timeout\<close> when a read is still pending.
\<close>

definition await_reply ::
    "'t transport_ops \<Rightarrow> externs \<Rightarrow> (packet \<Rightarrow> 'l \<Rightarrow> 't client \<Rightarrow> ('r outcome + 'l) \<times> 't client) \<Rightarrow> 'l \<Rightarrow>
     ('t, 'r) action" where
  "await_reply T x handler l = recv_loop T x request_timeout handler l"

definition await_until ::
    "'t transport_ops \<Rightarrow> externs \<Rightarrow> duration \<Rightarrow>
     (packet \<Rightarrow> 'l \<Rightarrow> 't client \<Rightarrow> ('r outcome + 'l) \<times> 't client) \<Rightarrow> 'l \<Rightarrow> ('t, 'r) action" where
  "await_until T x d handler l c =
     (let deadline = t_now T (cl_transport c) + d
      in recv_loop T x (\<lambda>c'. deadline - t_now T (cl_transport c')) handler l c)"

text \<open>
  Most loops return on some packets and pass every other one on: \<open>extract\<close> gives the value the
  match returns.
\<close>

definition returning ::
    "(packet \<Rightarrow> 'r outcome option) \<Rightarrow> packet \<Rightarrow> 'l \<Rightarrow> 't client \<Rightarrow> ('r outcome + 'l) \<times> 't client" where
  "returning extract packet l c =
     (case extract packet of Some r \<Rightarrow> (Inl r, c) | None \<Rightarrow> (Inr l, pass_on packet c))"

section \<open>Request helpers\<close>

definition send_encoded :: "'t transport_ops \<Rightarrow> command \<Rightarrow> ('t, unit) action" where
  "send_encoded T command c = Some (send_raw T (into_encoded command) c)"

definition send_only :: "'t transport_ops \<Rightarrow> command \<Rightarrow> ('t, unit) action" where
  "send_only T command = act_bind ensure (\<lambda>_. send_encoded T command)"

definition msg_sent_arm ::
    "bool \<Rightarrow> packet \<Rightarrow> unit \<Rightarrow> 't client \<Rightarrow> (command_tracking outcome + unit) \<times> 't client" where
  "msg_sent_arm track_ack packet l c =
     (case packet of
        P_MsgSent _ expected_ack suggested_timeout_ms \<Rightarrow>
          let tracking = \<lparr>ack_code = expected_ack, timeout_ms = suggested_timeout_ms\<rparr>
          in (Inl (Ok tracking),
              if track_ack then remember_pending_ack tracking (discard_completed_ack expected_ack c)
              else c)
      | P_Error code \<Rightarrow> (Inl (Err (DeviceRejected ''message send'' code)), c)
      | other \<Rightarrow> (Inr l, pass_on other c))"

definition send_command_expect_msg_sent_inner ::
    "'t transport_ops \<Rightarrow> externs \<Rightarrow> command \<Rightarrow> bool \<Rightarrow> ('t, command_tracking) action" where
  "send_command_expect_msg_sent_inner T x command track_ack =
     act_bind ensure (\<lambda>_. act_bind (send_encoded T command) (\<lambda>_.
       await_reply T x (msg_sent_arm track_ack) ()))"

definition send_command_expect_msg_sent ::
    "'t transport_ops \<Rightarrow> externs \<Rightarrow> command \<Rightarrow> ('t, command_tracking) action" where
  "send_command_expect_msg_sent T x command = send_command_expect_msg_sent_inner T x command True"

definition send_command_expect_msg_sent_untracked ::
    "'t transport_ops \<Rightarrow> externs \<Rightarrow> command \<Rightarrow> ('t, command_tracking) action" where
  "send_command_expect_msg_sent_untracked T x command =
     send_command_expect_msg_sent_inner T x command False"

fun ok_reply :: "string \<Rightarrow> string \<Rightarrow> packet \<Rightarrow> unit outcome option" where
  "ok_reply feature operation (P_Ok _) = Some (Ok ())"
| "ok_reply feature operation P_Disabled = Some (Err (FeatureDisabled feature))"
| "ok_reply feature operation (P_Error code) = Some (Err (DeviceRejected operation code))"
| "ok_reply feature operation _ = None"

definition send_command_expect_ok :: "'t transport_ops \<Rightarrow> externs \<Rightarrow> command \<Rightarrow> ('t, unit) action" where
  "send_command_expect_ok T x command =
     act_bind ensure (\<lambda>_. act_bind (send_encoded T command) (\<lambda>_.
       await_reply T x (returning (ok_reply ''requested operation'' ''command'')) ()))"

text \<open>The closure \<^verbatim>\<open>extract\<close> gives a value, or hands the packet back.\<close>

definition expected_reply :: "string \<Rightarrow> (packet \<Rightarrow> 'r option) \<Rightarrow> packet \<Rightarrow> 'r outcome option" where
  "expected_reply error_context extract packet =
     (case extract packet of
        Some r \<Rightarrow> Some (Ok r)
      | None \<Rightarrow>
          (case packet of
             P_Disabled \<Rightarrow> Some (Err (FeatureDisabled error_context))
           | P_Error code \<Rightarrow> Some (Err (DeviceRejected error_context code))
           | _ \<Rightarrow> None))"

definition send_command_expect ::
    "'t transport_ops \<Rightarrow> externs \<Rightarrow> command \<Rightarrow> string \<Rightarrow> (packet \<Rightarrow> 'r option) \<Rightarrow> ('t, 'r) action" where
  "send_command_expect T x command error_context extract =
     act_bind ensure (\<lambda>_. act_bind (send_encoded T command) (\<lambda>_.
       await_reply T x (returning (expected_reply error_context extract)) ()))"

text \<open>\<^verbatim>\<open>let _ = self.transport.disconnect().await; self.mark_disconnected();\<close>\<close>

definition close_with :: "'t transport_ops \<Rightarrow> 'r outcome \<Rightarrow> 't client \<Rightarrow> 'r outcome \<times> 't client" where
  "close_with T r c =
     (case t_disconnect T (cl_transport c) of
        (Panic, t) \<Rightarrow> (Panic, c\<lparr>cl_transport := t\<rparr>)
      | (_, t) \<Rightarrow> (r, mark_disconnected (c\<lparr>cl_transport := t\<rparr>)))"

definition send_disconnect_command :: "'t transport_ops \<Rightarrow> command \<Rightarrow> ('t, unit) action" where
  "send_disconnect_command T command =
     act_bind ensure (\<lambda>_. act_bind (send_encoded T command) (\<lambda>_ c. Some (close_with T (Ok ()) c)))"

definition remote_response_timeout :: "u32 \<Rightarrow> 't client \<Rightarrow> duration" where
  "remote_response_timeout suggested_timeout_ms c =
     (let suggested = unat suggested_timeout_ms * 10 ^ 6 + 10 ^ 9
      in min (max (request_timeout c) suggested) MAX_REMOTE_RESPONSE_TIMEOUT)"

definition packet_wait_reply :: "string \<Rightarrow> (packet \<Rightarrow> 'r packet_wait) \<Rightarrow> packet \<Rightarrow> 't client \<Rightarrow>
    ('r outcome + unit) \<times> 't client" where
  "packet_wait_reply operation extract packet c =
     (case extract packet of
        PW_Ready v \<Rightarrow> (Inl (Ok v), c)
      | PW_Fail e \<Rightarrow> (Inl (Err e), c)
      | PW_Continue (P_Error code) \<Rightarrow> (Inl (Err (DeviceRejected operation code)), c)
      | PW_Continue P_Disabled \<Rightarrow> (Inl (Err (FeatureDisabled operation)), c)
      | PW_Continue other \<Rightarrow> (Inr (), pass_on other c))"

definition wait_for_packet ::
    "'t transport_ops \<Rightarrow> externs \<Rightarrow> duration \<Rightarrow> string \<Rightarrow> (packet \<Rightarrow> 'r packet_wait) \<Rightarrow> ('t, 'r) action" where
  "wait_for_packet T x response_timeout operation extract =
     await_until T x response_timeout (\<lambda>packet _. packet_wait_reply operation extract packet) ()"

end
