(* ===== verification/Operations.thy ===== *)
theory Operations
  imports Client
begin

text \<open>
  The public operations of \<^verbatim>\<open>Client\<close> in \<^verbatim>\<open>meshquill-core/src/client.rs\<close>, in source order; the
  name is the method's, with the prefix \<open>op_\<close>. \<^verbatim>\<open>Utc::now().timestamp()\<close> is the argument \<open>now\<close> of
  the sends. A closure given to \<^verbatim>\<open>send_command_expect\<close> is a function to an option.
\<close>

section \<open>Session\<close>

definition init_arm :: "packet \<Rightarrow> unit \<Rightarrow> 't client \<Rightarrow> (self_info outcome + unit) \<times> 't client" where
  "init_arm packet l c =
     (case packet of
        P_SelfInfo info \<Rightarrow> (Inl (Ok info), publish_event (P_SelfInfo info) c)
      | P_Error _ \<Rightarrow> (Inl (Err (ProtocolInvariant ''APP_START returned an error'')), c)
      | other \<Rightarrow> (Inr l, pass_on other c))"

definition op_init :: "'t transport_ops \<Rightarrow> externs \<Rightarrow> ('t, self_info) action" where
  "op_init T x =
     act_bind ensure (\<lambda>_. act_bind (send_only T cmd_app_start) (\<lambda>_. await_reply T x init_arm ()))"

text \<open>The common end of \<^verbatim>\<open>connect\<close> and \<^verbatim>\<open>reconnect\<close>, from the point where the transport is open.\<close>

definition start_session :: "'t transport_ops \<Rightarrow> externs \<Rightarrow> ('t, self_info) action" where
  "start_session T x c =
     (case op_init T x (c\<lparr>cl_connected := True\<rparr>) of
        None \<Rightarrow> None
      | Some (Ok info, c') \<Rightarrow> Some (Ok info, emit E_Connected c')
      | Some (Err e, c') \<Rightarrow> Some (close_with T (Err e) c')
      | Some (Panic, c') \<Rightarrow> Some (Panic, c'))"

definition open_with ::
    "('t \<Rightarrow> (transport_error, unit) result \<times> 't) \<Rightarrow> ('t, unit) action" where
  "open_with connect_op c =
     (case connect_op (cl_transport c) of
        (r, t) \<Rightarrow> Some (map_err Transport r, c\<lparr>cl_transport := t\<rparr>))"

definition op_connect :: "'t transport_ops \<Rightarrow> externs \<Rightarrow> ('t, self_info) action" where
  "op_connect T x c =
     act_bind (open_with (t_connect T)) (\<lambda>_. start_session T x) (clear_sync_tracking (clear_tracking c))"

definition op_disconnect :: "'t transport_ops \<Rightarrow> ('t, unit) action" where
  "op_disconnect T c =
     (case t_disconnect T (cl_transport c) of
        (Panic, t) \<Rightarrow> Some (Panic, c\<lparr>cl_transport := t\<rparr>)
      | (r, t) \<Rightarrow> Some (map_err Transport r, mark_disconnected (c\<lparr>cl_transport := t\<rparr>)))"

definition op_reconnect :: "'t transport_ops \<Rightarrow> externs \<Rightarrow> ('t, self_info) action" where
  "op_reconnect T x c =
     act_bind (open_with (t_reconnect T)) (\<lambda>_. start_session T x) (mark_disconnected c)"

definition next_packet :: "'t transport_ops \<Rightarrow> externs \<Rightarrow> ('t, packet) action" where
  "next_packet T x c =
     (case read_next_packet T x None c of
        (Pending, _) \<Rightarrow> None
      | (Ready r, c') \<Rightarrow> Some (r, c'))"

definition publish_idle :: "packet \<Rightarrow> ('t, event option) action" where
  "publish_idle packet c =
     (let c = update_tracking packet (retain_sync_response packet c)
      in case into_event packet of
           None \<Rightarrow> Some (Ok None, c)
         | Some e \<Rightarrow> Some (Ok (Some e), emit e c))"

definition op_next_event :: "'t transport_ops \<Rightarrow> externs \<Rightarrow> ('t, event option) action" where
  "op_next_event T x = act_bind ensure (\<lambda>_. act_bind (next_packet T x) publish_idle)"

section \<open>Contacts and device data\<close>

definition contacts_arm ::
    "packet \<Rightarrow> contact list \<Rightarrow> 't client \<Rightarrow> (contact_collection outcome + contact list) \<times> 't client" where
  "contacts_arm packet contacts c =
     (case packet of
        P_Contact contact \<Rightarrow> (Inr (contacts @ [contact]), c)
      | P_ContactEnd lastmod \<Rightarrow> (Inl (Ok \<lparr>cc_contacts = contacts, cc_lastmod = Some lastmod\<rparr>), c)
      | P_NoMoreMsgs \<Rightarrow> (Inl (Ok \<lparr>cc_contacts = contacts, cc_lastmod = None\<rparr>), c)
      | P_Error _ \<Rightarrow> (Inl (Err (ProtocolInvariant ''contact request returned an error'')), c)
      | other \<Rightarrow> (Inr contacts, pass_on other c))"

definition collect_contacts ::
    "'t transport_ops \<Rightarrow> externs \<Rightarrow> u32 option \<Rightarrow> ('t, contact_collection) action" where
  "collect_contacts T x lastmod =
     act_bind ensure (\<lambda>_. act_bind (send_only T (cmd_get_contacts lastmod)) (\<lambda>_.
       await_reply T x contacts_arm []))"

definition op_list_contacts :: "'t transport_ops \<Rightarrow> externs \<Rightarrow> u32 option \<Rightarrow> ('t, contact list) action" where
  "op_list_contacts T x lastmod =
     act_bind (collect_contacts T x lastmod) (\<lambda>collection. act_of (Ok (cc_contacts collection)))"

definition op_list_contacts_snapshot ::
    "'t transport_ops \<Rightarrow> externs \<Rightarrow> u32 option \<Rightarrow> ('t, contact_snapshot) action" where
  "op_list_contacts_snapshot T x lastmod =
     act_bind (collect_contacts T x lastmod) (\<lambda>collection.
       act_of
         (case cc_lastmod collection of
            None \<Rightarrow>
              Err (ProtocolInvariant ''contact snapshot ended without a last-modified marker'')
          | Some lastmod \<Rightarrow>
              Ok \<lparr>snapshot_contacts = cc_contacts collection, snapshot_lastmod = lastmod\<rparr>))"

fun device_info_reply :: "packet \<Rightarrow> device_info outcome option" where
  "device_info_reply (P_DeviceInfo info) = Some (Ok info)"
| "device_info_reply (P_Error _) = Some (Err (ProtocolInvariant ''device query returned an error''))"
| "device_info_reply _ = None"

definition op_query_device_info :: "'t transport_ops \<Rightarrow> externs \<Rightarrow> ('t, device_info) action" where
  "op_query_device_info T x =
     act_bind ensure (\<lambda>_. act_bind (send_only T cmd_device_query) (\<lambda>_.
       await_reply T x (returning device_info_reply) ()))"

text \<open>The operations that send a fallible command and wait for \<^verbatim>\<open>Packet::Ok\<close>.\<close>

definition expect_ok_of ::
    "'t transport_ops \<Rightarrow> externs \<Rightarrow> command outcome \<Rightarrow> ('t, unit) action" where
  "expect_ok_of T x command = act_bind (act_of command) (send_command_expect_ok T x)"

fun time_of :: "packet \<Rightarrow> u32 option" where
  "time_of (P_CurrentTime v) = Some v"
| "time_of _ = None"

definition op_get_time :: "'t transport_ops \<Rightarrow> externs \<Rightarrow> ('t, u32) action" where
  "op_get_time T x =
     send_command_expect T x cmd_get_time ''time query'' time_of"

definition op_set_time :: "'t transport_ops \<Rightarrow> externs \<Rightarrow> u32 \<Rightarrow> ('t, unit) action" where
  "op_set_time T x v = send_command_expect_ok T x (cmd_set_time v)"

fun battery_of :: "packet \<Rightarrow> battery_info option" where
  "battery_of (P_Battery v) = Some v"
| "battery_of _ = None"

definition op_get_battery :: "'t transport_ops \<Rightarrow> externs \<Rightarrow> ('t, battery_info) action" where
  "op_get_battery T x =
     send_command_expect T x cmd_get_battery ''battery query'' battery_of"

definition op_send_self_advert :: "'t transport_ops \<Rightarrow> externs \<Rightarrow> bool \<Rightarrow> ('t, unit) action" where
  "op_send_self_advert T x flood = send_command_expect_ok T x (cmd_send_self_advert flood)"

definition op_set_advert_name :: "'t transport_ops \<Rightarrow> externs \<Rightarrow> rstr \<Rightarrow> ('t, unit) action" where
  "op_set_advert_name T x name = expect_ok_of T x (cmd_set_advert_name name)"

definition op_set_coordinates :: "'t transport_ops \<Rightarrow> externs \<Rightarrow> f64 \<Rightarrow> f64 \<Rightarrow> ('t, unit) action" where
  "op_set_coordinates T x latitude longitude = expect_ok_of T x (cmd_set_coordinates latitude longitude)"

definition op_set_tx_power :: "'t transport_ops \<Rightarrow> externs \<Rightarrow> i8 \<Rightarrow> ('t, unit) action" where
  "op_set_tx_power T x power_dbm = expect_ok_of T x (cmd_set_tx_power power_dbm)"

definition op_set_radio_params :: "'t transport_ops \<Rightarrow> externs \<Rightarrow> radio_params \<Rightarrow> ('t, unit) action" where
  "op_set_radio_params T x params = expect_ok_of T x (cmd_set_radio_params params)"

definition op_set_tuning :: "'t transport_ops \<Rightarrow> externs \<Rightarrow> tuning_params \<Rightarrow> ('t, unit) action" where
  "op_set_tuning T x params = send_command_expect_ok T x (cmd_set_tuning params)"

fun tuning_of :: "packet \<Rightarrow> tuning_params option" where
  "tuning_of (P_TuningParams v) = Some v"
| "tuning_of _ = None"

definition op_get_tuning :: "'t transport_ops \<Rightarrow> externs \<Rightarrow> ('t, tuning_params) action" where
  "op_get_tuning T x =
     send_command_expect T x cmd_get_tuning ''tuning query'' tuning_of"

definition op_reset_path :: "'t transport_ops \<Rightarrow> externs \<Rightarrow> byte list \<Rightarrow> ('t, unit) action" where
  "op_reset_path T x public_key = expect_ok_of T x (cmd_reset_path public_key)"

definition op_update_contact :: "'t transport_ops \<Rightarrow> externs \<Rightarrow> contact \<Rightarrow> ('t, unit) action" where
  "op_update_contact T x contact = expect_ok_of T x (cmd_update_contact contact)"

definition op_share_contact :: "'t transport_ops \<Rightarrow> externs \<Rightarrow> byte list \<Rightarrow> ('t, unit) action" where
  "op_share_contact T x public_key = expect_ok_of T x (cmd_share_contact public_key)"

fun export_contact_of :: "packet \<Rightarrow> contact_uri option" where
  "export_contact_of (P_ContactUri v) = Some v"
| "export_contact_of _ = None"

definition op_export_contact :: "'t transport_ops \<Rightarrow> externs \<Rightarrow> byte list option \<Rightarrow> ('t, contact_uri) action" where
  "op_export_contact T x public_key =
     act_bind (act_of (cmd_export_contact public_key)) (\<lambda>command.
       send_command_expect T x command ''contact export'' export_contact_of)"

definition op_import_contact :: "'t transport_ops \<Rightarrow> externs \<Rightarrow> byte list \<Rightarrow> ('t, unit) action" where
  "op_import_contact T x card_data = expect_ok_of T x (cmd_import_contact card_data)"

fun contact_of :: "packet \<Rightarrow> contact option" where
  "contact_of (P_Contact v) = Some v"
| "contact_of _ = None"

definition op_get_contact :: "'t transport_ops \<Rightarrow> externs \<Rightarrow> byte list \<Rightarrow> ('t, contact) action" where
  "op_get_contact T x public_key =
     act_bind (act_of (cmd_get_contact public_key)) (\<lambda>command.
       send_command_expect T x command ''contact query'' contact_of)"

fun advert_path_of :: "packet \<Rightarrow> advert_path option" where
  "advert_path_of (P_AdvertPath v) = Some v"
| "advert_path_of _ = None"

definition op_get_advert_path :: "'t transport_ops \<Rightarrow> externs \<Rightarrow> byte list \<Rightarrow> ('t, advert_path) action" where
  "op_get_advert_path T x public_key =
     act_bind (act_of (cmd_get_advert_path public_key)) (\<lambda>command.
       send_command_expect T x command ''advert path query'' advert_path_of)"

definition op_set_auto_add_config :: "'t transport_ops \<Rightarrow> externs \<Rightarrow> auto_add_config \<Rightarrow> ('t, unit) action" where
  "op_set_auto_add_config T x config = expect_ok_of T x (cmd_set_auto_add_config config)"

fun auto_add_config_of :: "packet \<Rightarrow> auto_add_config option" where
  "auto_add_config_of (P_AutoAddConfig v) = Some v"
| "auto_add_config_of _ = None"

definition op_get_auto_add_config :: "'t transport_ops \<Rightarrow> externs \<Rightarrow> ('t, auto_add_config) action" where
  "op_get_auto_add_config T x =
     send_command_expect T x cmd_get_auto_add_config ''auto-add config query'' auto_add_config_of"

fun custom_vars_of :: "packet \<Rightarrow> custom_variables option" where
  "custom_vars_of (P_CustomVariables v) = Some v"
| "custom_vars_of _ = None"

definition op_get_custom_vars :: "'t transport_ops \<Rightarrow> externs \<Rightarrow> ('t, custom_variables) action" where
  "op_get_custom_vars T x =
     send_command_expect T x cmd_get_custom_vars ''custom-variable query'' custom_vars_of"

definition op_set_custom_var :: "'t transport_ops \<Rightarrow> externs \<Rightarrow> rstr \<Rightarrow> rstr \<Rightarrow> ('t, unit) action" where
  "op_set_custom_var T x key v = expect_ok_of T x (cmd_set_custom_var key v)"

fun stats_of :: "packet \<Rightarrow> device_stats option" where
  "stats_of (P_DeviceStats v) = Some v"
| "stats_of _ = None"

definition op_get_stats :: "'t transport_ops \<Rightarrow> externs \<Rightarrow> stats_type \<Rightarrow> ('t, device_stats) action" where
  "op_get_stats T x stats_type =
     send_command_expect T x (cmd_get_stats stats_type) ''statistics query'' stats_of"

fun allowed_repeat_frequencies_of :: "packet \<Rightarrow> frequency_range list option" where
  "allowed_repeat_frequencies_of (P_AllowedRepeatFrequencies v) = Some v"
| "allowed_repeat_frequencies_of _ = None"

definition op_get_allowed_repeat_frequencies :: "'t transport_ops \<Rightarrow> externs \<Rightarrow> ('t, frequency_range list) action" where
  "op_get_allowed_repeat_frequencies T x =
     send_command_expect T x cmd_get_allowed_repeat_frequencies ''allowed repeat-frequency query'' allowed_repeat_frequencies_of"

definition op_set_path_hash_mode :: "'t transport_ops \<Rightarrow> externs \<Rightarrow> byte \<Rightarrow> ('t, unit) action" where
  "op_set_path_hash_mode T x mode = expect_ok_of T x (cmd_set_path_hash_mode mode)"

definition op_get_path_hash_mode :: "'t transport_ops \<Rightarrow> externs \<Rightarrow> ('t, byte) action" where
  "op_get_path_hash_mode T x =
     act_bind (op_query_device_info T x) (\<lambda>info.
       act_of (ok_or (path_hash_mode info)
         (ProtocolInvariant ''device info does not include path hash mode'')))"

definition op_set_flood_scope :: "'t transport_ops \<Rightarrow> externs \<Rightarrow> flood_scope \<Rightarrow> ('t, unit) action" where
  "op_set_flood_scope T x scope = send_command_expect_ok T x (cmd_set_flood_scope scope)"

definition op_set_default_flood_scope :: "'t transport_ops \<Rightarrow> externs \<Rightarrow> rstr \<Rightarrow> byte list \<Rightarrow> ('t, unit) action" where
  "op_set_default_flood_scope T x name key = expect_ok_of T x (cmd_set_default_flood_scope name key)"

definition op_clear_default_flood_scope :: "'t transport_ops \<Rightarrow> externs \<Rightarrow> ('t, unit) action" where
  "op_clear_default_flood_scope T x = send_command_expect_ok T x cmd_clear_default_flood_scope"

fun default_flood_scope_of :: "packet \<Rightarrow> default_flood_scope option" where
  "default_flood_scope_of (P_DefaultFloodScope v) = Some v"
| "default_flood_scope_of _ = None"

definition op_get_default_flood_scope :: "'t transport_ops \<Rightarrow> externs \<Rightarrow> ('t, default_flood_scope) action" where
  "op_get_default_flood_scope T x =
     send_command_expect T x cmd_get_default_flood_scope ''default flood-scope query'' default_flood_scope_of"

fun channel_of :: "packet \<Rightarrow> channel_info option" where
  "channel_of (P_ChannelInfo v) = Some v"
| "channel_of _ = None"

definition op_get_channel :: "'t transport_ops \<Rightarrow> externs \<Rightarrow> byte \<Rightarrow> ('t, channel_info) action" where
  "op_get_channel T x i =
     send_command_expect T x (cmd_get_channel i) ''channel query'' channel_of"

definition op_set_channel :: "'t transport_ops \<Rightarrow> externs \<Rightarrow> byte \<Rightarrow> rstr \<Rightarrow> byte list \<Rightarrow> ('t, unit) action" where
  "op_set_channel T x i name secret = expect_ok_of T x (cmd_set_channel i name secret)"

definition op_clear_channel :: "'t transport_ops \<Rightarrow> externs \<Rightarrow> byte \<Rightarrow> ('t, unit) action" where
  "op_clear_channel T x i = send_command_expect_ok T x (cmd_clear_channel i)"

definition op_remove_contact :: "'t transport_ops \<Rightarrow> externs \<Rightarrow> byte list \<Rightarrow> ('t, unit) action" where
  "op_remove_contact T x public_key = expect_ok_of T x (cmd_remove_contact public_key)"

section \<open>Remote operations\<close>

definition key_prefix :: "byte list \<Rightarrow> byte list outcome" where
  "key_prefix public_key =
     (if length public_key \<noteq> 32
      then Err (InvalidArgument ''public_key''
             (''expected exactly 32 bytes, got '' @ show_nat (length public_key)))
      else slice public_key 0 6 Ok)"

text \<open>
  The remote requests share a shape: send a command, wait for \<^verbatim>\<open>MsgSent\<close> without tracking its code,
  then wait for a packet that answers it.
\<close>

definition remote_request ::
    "'t transport_ops \<Rightarrow> externs \<Rightarrow> command outcome \<Rightarrow> string \<Rightarrow>
     (command_tracking \<Rightarrow> packet \<Rightarrow> 'r packet_wait) \<Rightarrow> ('t, 'r) action" where
  "remote_request T x command operation extract =
     act_bind (act_of command) (\<lambda>command.
     act_bind (send_command_expect_msg_sent_untracked T x command) (\<lambda>tracking c.
       wait_for_packet T x (remote_response_timeout (timeout_ms tracking) c) operation
         (extract tracking) c))"

definition login_wait :: "byte list \<Rightarrow> packet \<Rightarrow> login_session packet_wait" where
  "login_wait expected_prefix packet =
     (case packet of
        P_LoginSuccess session \<Rightarrow>
          if ls_pubkey_prefix session = expected_prefix then PW_Ready session else PW_Continue packet
      | P_LoginFailed pubkey_prefix \<Rightarrow>
          if pubkey_prefix = expected_prefix then PW_Fail AuthenticationFailed else PW_Continue packet
      | other \<Rightarrow> PW_Continue other)"

definition op_login :: "'t transport_ops \<Rightarrow> externs \<Rightarrow> byte list \<Rightarrow> rstr \<Rightarrow> ('t, login_session) action" where
  "op_login T x public_key password =
     act_bind (act_of (key_prefix public_key)) (\<lambda>expected_prefix.
       remote_request T x (cmd_send_login public_key password) ''remote login''
         (\<lambda>_. login_wait expected_prefix))"

definition op_logout :: "'t transport_ops \<Rightarrow> externs \<Rightarrow> byte list \<Rightarrow> ('t, unit) action" where
  "op_logout T x public_key = expect_ok_of T x (cmd_logout public_key)"

definition has_connection_reply :: "packet \<Rightarrow> bool outcome option" where
  "has_connection_reply packet =
     (case packet of
        P_Ok _ \<Rightarrow> Some (Ok True)
      | P_Error code \<Rightarrow>
          if code = Some 2 then Some (Ok False)
          else Some (Err (DeviceRejected ''remote connection query'' code))
      | _ \<Rightarrow> None)"

definition op_has_connection :: "'t transport_ops \<Rightarrow> externs \<Rightarrow> byte list \<Rightarrow> ('t, bool) action" where
  "op_has_connection T x public_key =
     act_bind ensure (\<lambda>_. act_bind (act_of (cmd_has_connection public_key)) (\<lambda>command.
     act_bind (send_encoded T command) (\<lambda>_. await_reply T x (returning has_connection_reply) ())))"

definition status_wait :: "byte list \<Rightarrow> packet \<Rightarrow> remote_status packet_wait" where
  "status_wait expected_prefix packet =
     (case packet of
        P_RemoteStatus status \<Rightarrow>
          if rst_pubkey_prefix status = expected_prefix then PW_Ready status else PW_Continue packet
      | other \<Rightarrow> PW_Continue other)"

definition op_remote_status :: "'t transport_ops \<Rightarrow> externs \<Rightarrow> byte list \<Rightarrow> ('t, remote_status) action" where
  "op_remote_status T x public_key =
     act_bind (act_of (key_prefix public_key)) (\<lambda>expected_prefix.
       remote_request T x (cmd_send_status_request public_key) ''remote status''
         (\<lambda>_. status_wait expected_prefix))"

fun self_telemetry_of :: "packet \<Rightarrow> telemetry_response option" where
  "self_telemetry_of (P_TelemetryResponse v) = Some v"
| "self_telemetry_of _ = None"

definition op_get_self_telemetry :: "'t transport_ops \<Rightarrow> externs \<Rightarrow> ('t, telemetry_response) action" where
  "op_get_self_telemetry T x =
     send_command_expect T x cmd_get_self_telemetry ''self telemetry query'' self_telemetry_of"

definition binary_wait :: "byte list \<Rightarrow> packet \<Rightarrow> binary_response packet_wait" where
  "binary_wait expected_tag packet =
     (case packet of
        P_BinaryResponse response \<Rightarrow>
          if br_tag response = expected_tag then PW_Ready response else PW_Continue packet
      | other \<Rightarrow> PW_Continue other)"

definition op_binary_request ::
    "'t transport_ops \<Rightarrow> externs \<Rightarrow> byte list \<Rightarrow> byte \<Rightarrow> byte list \<Rightarrow> ('t, binary_response) action" where
  "op_binary_request T x public_key request_type data =
     remote_request T x (cmd_send_binary_request public_key request_type data) ''binary request''
       (\<lambda>tracking. binary_wait (ack_code tracking))"

definition op_anonymous_request ::
    "'t transport_ops \<Rightarrow> externs \<Rightarrow> byte list \<Rightarrow> byte \<Rightarrow> contact_route \<Rightarrow> path \<Rightarrow>
     ('t, binary_response) action" where
  "op_anonymous_request T x public_key request_type reply_route reply_path =
     remote_request T x (cmd_send_anonymous_request public_key request_type reply_route reply_path)
       ''anonymous request'' (\<lambda>tracking. binary_wait (ack_code tracking))"

definition op_send_node_discovery ::
    "'t transport_ops \<Rightarrow> externs \<Rightarrow> byte \<Rightarrow> bool \<Rightarrow> u32 \<Rightarrow> u32 option \<Rightarrow> ('t, unit) action" where
  "op_send_node_discovery T x type_filter prefix_only tag since =
     expect_ok_of T x (cmd_send_node_discovery type_filter prefix_only tag since)"

definition path_wait :: "byte list \<Rightarrow> packet \<Rightarrow> path_discovery packet_wait" where
  "path_wait expected_prefix packet =
     (case packet of
        P_PathDiscovery path \<Rightarrow>
          if pd_pubkey_prefix path = expected_prefix then PW_Ready path else PW_Continue packet
      | other \<Rightarrow> PW_Continue other)"

definition op_discover_path :: "'t transport_ops \<Rightarrow> externs \<Rightarrow> byte list \<Rightarrow> ('t, path_discovery) action" where
  "op_discover_path T x public_key =
     act_bind (act_of (key_prefix public_key)) (\<lambda>expected_prefix.
       remote_request T x (cmd_discover_path public_key) ''path discovery''
         (\<lambda>_. path_wait expected_prefix))"

section \<open>Keys and device control\<close>

fun sign_start_of :: "packet \<Rightarrow> u32 option" where
  "sign_start_of (P_SignStart max_data_bytes) = Some max_data_bytes"
| "sign_start_of _ = None"

fun signature_of :: "packet \<Rightarrow> signature option" where
  "signature_of (P_Signature signature) = Some signature"
| "signature_of _ = None"

primrec sign_chunks :: "'t transport_ops \<Rightarrow> externs \<Rightarrow> byte list list \<Rightarrow> ('t, unit) action" where
  "sign_chunks T x [] = act_of (Ok ())"
| "sign_chunks T x (chunk # rest) =
     act_bind (expect_ok_of T x (cmd_sign_data chunk)) (\<lambda>_. sign_chunks T x rest)"

definition op_sign :: "'t transport_ops \<Rightarrow> externs \<Rightarrow> byte list \<Rightarrow> ('t, signature) action" where
  "op_sign T x data =
     act_bind (send_command_expect T x cmd_sign_start ''signing start'' sign_start_of) (\<lambda>max_data_bytes.
       if length data > unat max_data_bytes
       then act_of (Err (InvalidArgument ''data''
              (show_nat (length data) @ '' bytes exceeds device signing limit '' @
               show_nat (unat max_data_bytes))))
       else
         act_bind (sign_chunks T x (chunks SIGNING_CHUNK_BYTES data)) (\<lambda>_.
           send_command_expect T x cmd_sign_finish ''signing finish'' signature_of))"

fun private_key_reply :: "packet \<Rightarrow> private_key outcome option" where
  "private_key_reply (P_PrivateKey key) = Some (Ok key)"
| "private_key_reply P_Disabled = Some (Err (FeatureDisabled ''private-key export''))"
| "private_key_reply (P_Error code) = Some (Err (DeviceRejected ''private-key export'' code))"
| "private_key_reply _ = None"

definition op_export_private_key :: "'t transport_ops \<Rightarrow> externs \<Rightarrow> ('t, private_key) action" where
  "op_export_private_key T x =
     act_bind ensure (\<lambda>_. act_bind (send_encoded T cmd_export_private_key) (\<lambda>_.
       await_reply T x (returning private_key_reply) ()))"

definition op_import_private_key :: "'t transport_ops \<Rightarrow> externs \<Rightarrow> private_key \<Rightarrow> ('t, unit) action" where
  "op_import_private_key T x key =
     act_bind ensure (\<lambda>_. act_bind (send_encoded T (cmd_import_private_key key)) (\<lambda>_.
       await_reply T x (returning (ok_reply ''private-key import'' ''private-key import'')) ()))"

definition op_set_device_pin :: "'t transport_ops \<Rightarrow> externs \<Rightarrow> u32 \<Rightarrow> ('t, unit) action" where
  "op_set_device_pin T x pin = expect_ok_of T x (cmd_set_device_pin pin)"

definition op_reboot :: "'t transport_ops \<Rightarrow> ('t, unit) action" where
  "op_reboot T = send_disconnect_command T cmd_reboot"

definition op_factory_reset :: "'t transport_ops \<Rightarrow> ('t, unit) action" where
  "op_factory_reset T = send_disconnect_command T cmd_factory_reset"

section \<open>Messages\<close>

definition validate_destination_prefix :: "byte list \<Rightarrow> unit outcome" where
  "validate_destination_prefix prefix =
     (if length prefix \<noteq> 6
      then Err (InvalidArgument ''destination_prefix''
             (''expected exactly 6 bytes, got '' @ show_nat (length prefix)))
      else Ok ())"

definition validate_text :: "rstr \<Rightarrow> nat \<Rightarrow> string \<Rightarrow> unit outcome" where
  "validate_text text_bytes maximum_bytes field =
     (if text_bytes = [] then Err (InvalidArgument field ''must not be empty'')
      else if length text_bytes > maximum_bytes
      then Err (InvalidArgument field
             (''UTF-8 payload is '' @ show_nat (length text_bytes) @ '' bytes; maximum is '' @
              show_nat maximum_bytes))
      else Ok ())"

text \<open>\<^verbatim>\<open>u32::try_from(Utc::now().timestamp()).unwrap_or(0)\<close>\<close>

definition timestamp_of :: "int \<Rightarrow> u32" where
  "timestamp_of now = (if 0 \<le> now \<and> now < 2 ^ 32 then of_int now else 0)"

definition op_send_direct_text ::
    "'t transport_ops \<Rightarrow> externs \<Rightarrow> int \<Rightarrow> byte list \<Rightarrow> byte \<Rightarrow> rstr \<Rightarrow> ('t, command_tracking) action" where
  "op_send_direct_text T x now destination_prefix attempt text_bytes =
     act_bind (act_of (validate_destination_prefix destination_prefix)) (\<lambda>_.
     act_bind (act_of (validate_text text_bytes (MAX_INNER_PAYLOAD - 13) ''text'')) (\<lambda>_.
       send_command_expect_msg_sent T x
         (cmd_send_direct_text destination_prefix (timestamp_of now) attempt text_bytes)))"

definition op_send_direct_command ::
    "'t transport_ops \<Rightarrow> externs \<Rightarrow> int \<Rightarrow> byte list \<Rightarrow> byte \<Rightarrow> rstr \<Rightarrow> ('t, command_tracking) action" where
  "op_send_direct_command T x now destination_prefix attempt command_text =
     act_bind (act_of (validate_destination_prefix destination_prefix)) (\<lambda>_.
     act_bind (act_of (validate_text command_text (MAX_INNER_PAYLOAD - 13) ''command'')) (\<lambda>_.
       send_command_expect_msg_sent T x
         (cmd_send_direct_command destination_prefix (timestamp_of now) attempt command_text)))"

definition op_send_channel_message ::
    "'t transport_ops \<Rightarrow> externs \<Rightarrow> int \<Rightarrow> byte \<Rightarrow> byte \<Rightarrow> rstr \<Rightarrow> ('t, unit) action" where
  "op_send_channel_message T x now chan text_type text_bytes =
     act_bind (act_of (validate_text text_bytes (MAX_INNER_PAYLOAD - 7) ''text'')) (\<lambda>_.
       send_command_expect_ok T x (cmd_send_channel chan text_type (timestamp_of now) text_bytes))"

section \<open>Inbox synchronisation\<close>

definition sync_arm :: "packet \<Rightarrow> unit \<Rightarrow> 't client \<Rightarrow> (message option outcome + unit) \<times> 't client" where
  "sync_arm packet l c =
     (case packet of
        P_ContactMsg m \<Rightarrow>
          (Inl (Ok (Some m)), publish_event (P_ContactMsg m) (c\<lparr>sync_state := Idle\<rparr>))
      | P_ChannelMsg m \<Rightarrow>
          (Inl (Ok (Some m)), publish_event (P_ChannelMsg m) (c\<lparr>sync_state := Idle\<rparr>))
      | P_NoMoreMsgs \<Rightarrow> (Inl (Ok None), c\<lparr>sync_state := Idle\<rparr>)
      | P_Error _ \<Rightarrow>
          (Inl (Err (ProtocolInvariant ''sync next message returned an error'')),
           c\<lparr>sync_state := Idle\<rparr>)
      | other \<Rightarrow> (Inr l, pass_on other c))"

definition wait_for_sync_response :: "'t transport_ops \<Rightarrow> externs \<Rightarrow> ('t, message option) action" where
  "wait_for_sync_response T x = await_reply T x sync_arm ()"

definition drain_arm :: "packet \<Rightarrow> 't client \<Rightarrow> ready_sync option \<times> 't client" where
  "drain_arm packet c =
     (case packet of
        P_ContactMsg m \<Rightarrow>
          (Some (RS_Message m), publish_event (P_ContactMsg m) (c\<lparr>sync_state := Idle\<rparr>))
      | P_ChannelMsg m \<Rightarrow>
          (Some (RS_Message m), publish_event (P_ChannelMsg m) (c\<lparr>sync_state := Idle\<rparr>))
      | P_NoMoreMsgs \<Rightarrow> (Some RS_NoMoreMessages, c\<lparr>sync_state := Idle\<rparr>)
      | P_Error _ \<Rightarrow> (Some RS_Error, c\<lparr>sync_state := Idle\<rparr>)
      | other \<Rightarrow> (None, pass_on other c))"

definition try_next_packet ::
    "'t transport_ops \<Rightarrow> externs \<Rightarrow> 't client \<Rightarrow> packet option outcome \<times> 't client" where
  "try_next_packet T x c =
     (case t_try_read T (cl_transport c) of
        (Ok RR_Pending, t) \<Rightarrow> (Ok None, c\<lparr>cl_transport := t\<rparr>)
      | (Ok RR_Closed, t) \<Rightarrow> (Err Disconnected, mark_disconnected (c\<lparr>cl_transport := t\<rparr>))
      | (Ok (RR_Packet raw), t) \<Rightarrow>
          (case parse_packet x raw (c\<lparr>cl_transport := t\<rparr>) of (r, c') \<Rightarrow> (map_ok Some r, c'))
      | (Err e, t) \<Rightarrow>
          (Err (Transport e),
           if is_disconnect_error e then mark_disconnected (c\<lparr>cl_transport := t\<rparr>)
           else c\<lparr>cl_transport := t\<rparr>)
      | (Panic, t) \<Rightarrow> (Panic, c\<lparr>cl_transport := t\<rparr>))"

text \<open>
  The loop \<^verbatim>\<open>for index in 0..=CAPACITY\<close>: \<open>n\<close> is the number of rounds left after this one, so the
  last round is the one with \<open>n = 0\<close>.
\<close>

fun drain_loop ::
    "'t transport_ops \<Rightarrow> externs \<Rightarrow> nat \<Rightarrow> 't client \<Rightarrow> ready_sync option outcome \<times> 't client" where
  "drain_loop T x n c =
     (case try_next_packet T x c of
        (Ok None, c') \<Rightarrow> (Ok None, c')
      | (Ok (Some packet), c') \<Rightarrow>
          (case drain_arm packet c' of
             (Some ready, c'') \<Rightarrow> (Ok (Some ready), c'')
           | (None, c'') \<Rightarrow>
               (case n of
                  0 \<Rightarrow>
                    (Err (ProtocolInvariant ''too many buffered packets before inbox synchronization''),
                     c'')
                | Suc m \<Rightarrow> drain_loop T x m c''))
      | (Err e, c') \<Rightarrow> (Err e, c')
      | (Panic, c') \<Rightarrow> (Panic, c'))"

declare drain_loop.simps [simp del]

definition drain_ready_packets_before_sync ::
    "'t transport_ops \<Rightarrow> externs \<Rightarrow> ('t, ready_sync option) action" where
  "drain_ready_packets_before_sync T x c = Some (drain_loop T x CLIENT_SYNC_READY_DRAIN_CAPACITY c)"

text \<open>
  The part of \<^verbatim>\<open>sync_next_message\<close> after the ready packets: the state is set before the write, so
  that a response that was asked for is never taken for an answer to another command.
\<close>

definition request_sync :: "'t transport_ops \<Rightarrow> externs \<Rightarrow> ('t, message option) action" where
  "request_sync T x c =
     (if sync_state c = AwaitingResponse then wait_for_sync_response T x c
      else
        act_bind (\<lambda>c. Some (write_raw T (into_encoded cmd_sync_next_message) c))
          (\<lambda>_. wait_for_sync_response T x) (c\<lparr>sync_state := AwaitingResponse\<rparr>))"

definition op_sync_next_message :: "'t transport_ops \<Rightarrow> externs \<Rightarrow> ('t, message option) action" where
  "op_sync_next_message T x =
     act_bind ensure (\<lambda>_ c.
       case deferred_sync c of
         Some ready \<Rightarrow> Some (ready_sync_result ready, c\<lparr>deferred_sync := None\<rparr>)
       | None \<Rightarrow>
           act_bind (drain_ready_packets_before_sync T x) (\<lambda>ready.
             case ready of
               Some r \<Rightarrow> act_of (ready_sync_result r)
             | None \<Rightarrow> request_sync T x) c)"

section \<open>Acknowledgements\<close>

definition ack_arm ::
    "byte list \<Rightarrow> packet \<Rightarrow> unit \<Rightarrow> 't client \<Rightarrow> (ack outcome + unit) \<times> 't client" where
  "ack_arm code packet l c =
     (case packet of
        P_Ack a \<Rightarrow>
          if a_code a = code
          then (Inl (Ok a), publish_event (P_Ack a) (discard_pending_ack code c))
          else (Inr l, pass_on (P_Ack a) c)
      | P_Error _ \<Rightarrow> (Inl (Err (ProtocolInvariant ''ack request returned an error'')), c)
      | other \<Rightarrow> (Inr l, publish_event other c))"

definition forget_ack :: "byte list \<Rightarrow> 't client \<Rightarrow> 't client" where
  "forget_ack code c = discard_completed_ack code (discard_pending_ack code c)"

definition await_ack ::
    "'t transport_ops \<Rightarrow> externs \<Rightarrow> byte list \<Rightarrow> duration \<Rightarrow> ('t, ack) action" where
  "await_ack T x code d c =
     (case await_until T x d (ack_arm code) () c of
        Some (Err e, c') \<Rightarrow> Some (Err e, forget_ack code c')
      | r \<Rightarrow> r)"

definition op_wait_for_ack ::
    "'t transport_ops \<Rightarrow> externs \<Rightarrow> byte list \<Rightarrow> duration option \<Rightarrow> ('t, ack) action" where
  "op_wait_for_ack T x code requested =
     act_bind (act_of (case requested of Some d \<Rightarrow> validate_operation_timeout d | None \<Rightarrow> Ok ())) (\<lambda>_.
     act_bind ensure (\<lambda>_ c.
       case take_completed_ack code c of
         (Some a, c') \<Rightarrow> Some (Ok a, c')
       | (None, c') \<Rightarrow>
           await_ack T x code (case requested of Some d \<Rightarrow> d | None \<Rightarrow> request_timeout c') c'))"

end
