(* ===== verification/Tracking.thy ===== *)
theory Tracking
  imports Client
begin

text \<open>
  The two acknowledgement tables of the client as one interface: a bounded first-in-first-out
  table of entries under distinct keys. The locale \<open>ack_table\<close> gives the laws, proves that the
  table stays consistent and within its capacity, and that it holds the most recent distinct
  keys; it is interpreted on the pending and on the completed table.
\<close>

section \<open>Eviction\<close>

lemma evict_eq:
  "evict cap order m =
     (drop (Suc (length order) - cap) order, m |` (- set (take (Suc (length order) - cap) order)))"
  if "0 < cap"
  using that
proof (induction cap order m rule: evict.induct)
  case (1 cap m)
  then show ?case by simp
next
  case (2 cap oldest order m)
  show ?case
  proof (cases "cap \<le> length (oldest # order)")
    case True
    then have "Suc (length (oldest # order)) - cap = Suc (Suc (length order) - cap)" by simp
    with 2 True show ?thesis
      by (simp add: restrict_map_def fun_upd_def) (auto simp: fun_eq_iff)
  next
    case False
    then show ?thesis by (simp add: restrict_map_def)
  qed
qed

section \<open>The interface\<close>

text \<open>The order and the map of a table agree, and each entry is filed under its own key.\<close>

definition tracked :: "nat \<Rightarrow> ('v \<Rightarrow> 'k) \<Rightarrow> 'k list \<Rightarrow> ('k \<rightharpoonup> 'v) \<Rightarrow> bool" where
  "tracked cap key order m \<longleftrightarrow>
     distinct order \<and> dom m = set order \<and> length order \<le> cap \<and> (\<forall>k v. m k = Some v \<longrightarrow> key v = k)"

lemma tracked_empty [simp]: "tracked cap key [] Map.empty"
  by (simp add: tracked_def)

locale ack_table =
  fixes order :: "'s \<Rightarrow> 'k list" and entries :: "'s \<Rightarrow> 'k \<rightharpoonup> 'v" and key :: "'v \<Rightarrow> 'k"
    and cap :: nat and discard :: "'k \<Rightarrow> 's \<Rightarrow> 's" and remember :: "'v \<Rightarrow> 's \<Rightarrow> 's"
    and take_entry :: "'k \<Rightarrow> 's \<Rightarrow> 'v option \<times> 's"
  assumes cap_pos: "0 < cap"
    and discard_order: "order (discard k s) = filter (\<lambda>y. y \<noteq> k) (order s)"
    and discard_entries: "entries (discard k s) = (entries s)(k := None)"
    and remember_order:
      "order (remember v s) = lastn (cap - 1) (filter (\<lambda>y. y \<noteq> key v) (order s)) @ [key v]"
    and remember_entries:
      "distinct (order s) \<Longrightarrow> entries (remember v s) k =
         (if k = key v then Some v
          else if k \<in> set (order s) \<and> k \<notin> set (order (remember v s)) then None
          else entries s k)"
    and take_entry: "take_entry k s = (entries s k, if entries s k = None then s else discard k s)"
begin

lemma discard_tracked:
  assumes "tracked cap key (order s) (entries s)"
  shows "tracked cap key (order (discard k s)) (entries (discard k s))"
  using assms le_trans [OF length_filter_le]
  by (auto simp: tracked_def discard_order discard_entries)

lemma take_entry_tracked:
  "tracked cap key (order s) (entries s) \<Longrightarrow> take_entry k s = (r, s') \<Longrightarrow>
   tracked cap key (order s') (entries s')"
  by (auto simp: take_entry discard_tracked split: if_splits)

lemma remember_tracked:
  assumes "tracked cap key (order s) (entries s)"
  shows "tracked cap key (order (remember v s)) (entries (remember v s))"
proof -
  from assms have d: "distinct (order s)" by (simp add: tracked_def)
  let ?o = "lastn (cap - 1) (filter (\<lambda>y. y \<noteq> key v) (order s))"
  have o: "set ?o \<subseteq> set (order s)" "key v \<notin> set ?o" "distinct ?o"
    using assms by (auto simp: lastn_def tracked_def dest: in_set_dropD)
  have "length ?o \<le> cap - 1" by (simp add: lastn_def)
  then have len: "length (order (remember v s)) \<le> cap" using cap_pos by (simp add: remember_order)
  have dom: "dom (entries (remember v s)) = set (order (remember v s))"
  proof (intro set_eqI iffI)
    fix k
    assume "k \<in> dom (entries (remember v s))"
    then show "k \<in> set (order (remember v s))"
      using assms by (auto simp: remember_entries [OF d] remember_order tracked_def split: if_splits)
  next
    fix k
    assume "k \<in> set (order (remember v s))"
    with o(1) have "k = key v \<or> k \<in> set (order s)" by (auto simp: remember_order)
    with \<open>k \<in> set (order (remember v s))\<close> show "k \<in> dom (entries (remember v s))"
      using assms by (auto simp: remember_entries [OF d] tracked_def dest: equalityD2 [THEN subsetD])
  qed
  have keyed: "entries (remember v s) k = Some w \<Longrightarrow> key w = k" for k w
    using assms by (auto simp: remember_entries [OF d] tracked_def split: if_splits)
  have "distinct (order (remember v s))"
    using o by (simp add: remember_order)
  with len dom keyed show ?thesis by (auto simp: tracked_def)
qed

text \<open>
  From the empty table, remembering a sequence of entries leaves the keys of the most recent ones:
  the last \<open>cap\<close> of the distinct keys, ordered by their last occurrence.
\<close>

lemma remember_all_order:
  assumes "order s = []"
  shows "order (fold remember vs s) = lastn cap (remdups (map key vs))"
proof (induction vs rule: rev_induct)
  case Nil
  with assms show ?case by (simp add: lastn_def)
next
  case (snoc v vs)
  then show ?case
    using lastn_move_to_end [of "remdups (map key vs)" cap "key v"] cap_pos
    by (simp add: remember_order remdups_snoc lastn_snoc)
qed

end

section \<open>The client's tables\<close>

lemma evict_table:
  assumes "0 < cap" and "evict cap order m = (order', m')"
  shows "order' = lastn (cap - 1) order"
    and "distinct order \<Longrightarrow> m' j = (if j \<in> set order \<and> j \<notin> set order' then None else m j)"
proof -
  let ?n = "length order - (cap - 1)"
  have d: "Suc (length order) - cap = ?n" using assms(1) by simp
  from assms(2) have o: "order' = drop ?n order" and m: "m' = m |` (- set (take ?n order))"
    by (simp_all add: evict_eq [OF assms(1)] d)
  from o show "order' = lastn (cap - 1) order" by (simp add: lastn_def)
  have "set order = set (take ?n order) \<union> set (drop ?n order)"
    by (metis append_take_drop_id set_append)
  moreover have "distinct order \<Longrightarrow> set (take ?n order) \<inter> set (drop ?n order) = {}"
    by (metis append_take_drop_id distinct_append)
  ultimately show "distinct order \<Longrightarrow> m' j = (if j \<in> set order \<and> j \<notin> set order' then None else m j)"
    using m o by (auto simp: restrict_map_def)
qed

lemmas pending_defs =
  discard_pending_ack_def remember_pending_ack_def take_pending_ack_def Let_def

lemmas completed_defs =
  discard_completed_ack_def remember_completed_ack_def take_completed_ack_def Let_def

lemma remember_pending_ack_order:
  "pending_ack_order (remember_pending_ack v s) =
     lastn (CLIENT_PENDING_ACK_CAPACITY - 1)
       (filter (\<lambda>y. y \<noteq> ack_code v) (pending_ack_order s)) @ [ack_code v]"
  by (auto simp: pending_defs CLIENT_PENDING_ACK_CAPACITY_def dest: evict_table(1) [rotated]
      split: prod.split)

lemma remember_completed_ack_order:
  "completed_ack_order (remember_completed_ack v s) =
     lastn (CLIENT_COMPLETED_ACK_CAPACITY - 1)
       (filter (\<lambda>y. y \<noteq> a_code v) (completed_ack_order s)) @ [a_code v]"
  by (auto simp: completed_defs CLIENT_COMPLETED_ACK_CAPACITY_def dest: evict_table(1) [rotated]
      split: prod.split)

text \<open>The entries after a \<^verbatim>\<open>remember\<close>, given those of the eviction loop.\<close>

lemma remember_pending_ack_entries:
  assumes "distinct (pending_ack_order s)"
  shows "pending_acks (remember_pending_ack v s) k =
     (if k = ack_code v then Some v
      else if k \<in> set (pending_ack_order s) \<and> k \<notin> set (pending_ack_order (remember_pending_ack v s))
      then None else pending_acks s k)"
proof (cases "evict CLIENT_PENDING_ACK_CAPACITY (filter (\<lambda>y. y \<noteq> ack_code v) (pending_ack_order s))
    ((pending_acks s)(ack_code v := None))")
  case (Pair order m)
  then show ?thesis
    using evict_table(2) [OF _ Pair, of k] assms
    by (auto simp: pending_defs CLIENT_PENDING_ACK_CAPACITY_def)
qed

lemma remember_completed_ack_entries:
  assumes "distinct (completed_ack_order s)"
  shows "completed_acks (remember_completed_ack v s) k =
     (if k = a_code v then Some v
      else if k \<in> set (completed_ack_order s) \<and> k \<notin> set (completed_ack_order (remember_completed_ack v s))
      then None else completed_acks s k)"
proof (cases "evict CLIENT_COMPLETED_ACK_CAPACITY (filter (\<lambda>y. y \<noteq> a_code v) (completed_ack_order s))
    ((completed_acks s)(a_code v := None))")
  case (Pair order m)
  then show ?thesis
    using evict_table(2) [OF _ Pair, of k] assms
    by (auto simp: completed_defs CLIENT_COMPLETED_ACK_CAPACITY_def)
qed

interpretation pending: ack_table pending_ack_order pending_acks ack_code
    CLIENT_PENDING_ACK_CAPACITY discard_pending_ack remember_pending_ack take_pending_ack
  by unfold_locales
    (auto simp: remember_pending_ack_order remember_pending_ack_entries CLIENT_PENDING_ACK_CAPACITY_def
      discard_pending_ack_def take_pending_ack_def split: option.splits)

interpretation completed: ack_table completed_ack_order completed_acks a_code
    CLIENT_COMPLETED_ACK_CAPACITY discard_completed_ack remember_completed_ack take_completed_ack
  by unfold_locales
    (auto simp: remember_completed_ack_order remember_completed_ack_entries CLIENT_COMPLETED_ACK_CAPACITY_def
      discard_completed_ack_def take_completed_ack_def split: option.splits)

text \<open>C24: The codes a client tracks after a sequence of sends that are not yet acknowledged are
  the 256 most recent distinct codes, in the order of their last send: only the oldest are dropped.\<close>

theorem pending_codes_are_most_recent:
  "pending_ack_codes (fold remember_pending_ack ts (with_valid_timeout t d)) =
     lastn 256 (remdups (map ack_code ts))"
  using pending.remember_all_order [of "with_valid_timeout t d" ts]
  by (simp add: pending_ack_codes_def with_valid_timeout_def CLIENT_PENDING_ACK_CAPACITY_def)

end
