(* ===== verification/Session.thy ===== *)
theory Session
  imports Operations Tracking "HOL-Library.Sublist"
begin

text \<open>
  A calculus for the client's operations. \<open>keeps I P Q a\<close> says that the action \<open>a\<close>, started in a
  state with \<open>P\<close>, ends in a state with \<open>I\<close>, and with \<open>Q\<close> when it succeeds. The locale
  \<open>session_calculus\<close> lists what the elementary steps of the client (a read, a write, the tracking
  updates, the changes of connection) must keep, and shows it for every public operation once; it
  is interpreted on the state invariant and on the history of events.
\<close>

section \<open>Contracts of actions\<close>

named_theorems contract \<open>contracts of actions\<close>

definition keeps ::
    "('t client \<Rightarrow> bool) \<Rightarrow> ('t client \<Rightarrow> bool) \<Rightarrow> ('t client \<Rightarrow> bool) \<Rightarrow> ('t, 'r) action \<Rightarrow> bool" where
  "keeps I P Q a \<longleftrightarrow>
     (\<forall>c r c'. P c \<longrightarrow> a c = Some (r, c') \<longrightarrow> I c' \<and> (\<forall>v. r = Ok v \<longrightarrow> Q c'))"

lemma keepsI:
  "(\<And>c r c'. P c \<Longrightarrow> a c = Some (r, c') \<Longrightarrow> I c' \<and> (\<forall>v. r = Ok v \<longrightarrow> Q c')) \<Longrightarrow> keeps I P Q a"
  by (simp add: keeps_def)

lemma keepsD: "keeps I P Q a \<Longrightarrow> P c \<Longrightarrow> a c = Some (r, c') \<Longrightarrow> I c'"
  by (auto simp: keeps_def)

lemma keeps_OkD: "keeps I P Q a \<Longrightarrow> P c \<Longrightarrow> a c = Some (Ok v, c') \<Longrightarrow> Q c'"
  by (auto simp: keeps_def)

lemma keeps_weaken:
  "keeps I P Q a \<Longrightarrow> (\<And>c. P' c \<Longrightarrow> P c) \<Longrightarrow> (\<And>c. Q c \<Longrightarrow> Q' c) \<Longrightarrow> keeps I P' Q' a"
  unfolding keeps_def by blast

lemma act_bind_eq_Some:
  "act_bind a k c = Some (r, c') \<longleftrightarrow>
     (\<exists>v c1. a c = Some (Ok v, c1) \<and> k v c1 = Some (r, c')) \<or>
     (\<exists>e. a c = Some (Err e, c') \<and> r = Err e) \<or> (a c = Some (Panic, c') \<and> r = Panic)"
  by (auto simp: act_bind_def split: option.split result.split)

lemma keeps_bind [contract]:
  "keeps I P M a \<Longrightarrow> (\<And>v. keeps I M Q (k v)) \<Longrightarrow> keeps I P Q (act_bind a k)"
  by (rule keepsI) (auto simp: act_bind_eq_Some dest: keepsD keeps_OkD)

text \<open>
  The rule for the receive loop: \<open>L\<close> is the loop invariant over the local variables and the state,
  \<open>Q\<close> what holds of the result.
\<close>

lemma recv_loop_rule [consumes 1, case_names start failed panicked return again]:
  assumes loop: "recv_loop T x budget handler l c = Some (r, c')"
    and start: "L l c"
    and failed: "\<And>l c e c1. L l c \<Longrightarrow> read_within T x (budget c) c = (Err e, c1) \<Longrightarrow> Q (Err e) c1"
    and panicked: "\<And>l c c1. L l c \<Longrightarrow> read_within T x (budget c) c = (Panic, c1) \<Longrightarrow> Q Panic c1"
    and return: "\<And>l c p c1 r c2. L l c \<Longrightarrow> read_within T x (budget c) c = (Ok p, c1) \<Longrightarrow>
      handler p l c1 = (Inl r, c2) \<Longrightarrow> Q r c2"
    and again: "\<And>l c p c1 l' c2. L l c \<Longrightarrow> read_within T x (budget c) c = (Ok p, c1) \<Longrightarrow>
      handler p l c1 = (Inr l', c2) \<Longrightarrow> L l' c2"
  shows "Q r c'"
proof -
  let ?P = "\<lambda>T' x' b h l c p. T' = T \<and> x' = x \<and> b = budget \<and> h = handler \<and> L l c \<longrightarrow> Q (fst p) (snd p)"
  have "?P T x budget handler l c (r, c')"
  proof (rule recv_loop.raw_induct [where P = ?P and xa = "(((((T, x), budget), handler), l), c)",
        unfolded prod.case, OF _ loop], intro impI)
    fix f T' x' b h l c p
    assume IH: "\<And>T' x' b h l c p. f T' x' b h l c = Some p \<Longrightarrow> ?P T' x' b h l c p"
      and body: "(case read_within T' x' (b c) c of
        (Ok packet, c1) \<Rightarrow>
          (case h packet l c1 of (Inl r, c2) \<Rightarrow> Some (r, c2) | (Inr l', c2) \<Rightarrow> f T' x' b h l' c2)
      | (Err e, c1) \<Rightarrow> Some (Err e, c1)
      | (Panic, c1) \<Rightarrow> Some (Panic, c1)) = Some p"
      and h: "T' = T \<and> x' = x \<and> b = budget \<and> h = handler \<and> L l c"
    then have L: "L l c" by simp
    show "Q (fst p) (snd p)"
    proof (cases "read_within T x (budget c) c")
      case (Pair r1 c1)
      show ?thesis
      proof (cases r1)
        case (Ok packet)
        with Pair have r: "read_within T x (budget c) c = (Ok packet, c1)" by simp
        show ?thesis
        proof (cases "handler packet l c1")
          fix q c2
          assume q: "handler packet l c1 = (q, c2)"
          show ?thesis
          proof (cases q)
            case (Inl v)
            with return [OF L r] q body h r show ?thesis by auto
          next
            case (Inr l')
            with again [OF L r] q have "L l' c2" by simp
            moreover from body h r q Inr have "f T' x' b h l' c2 = Some p" by simp
            ultimately show ?thesis using IH [of T' x' b h l' c2 p] h by blast
          qed
        qed
      qed (use failed [OF L] panicked [OF L] Pair body h in auto)
    qed
  qed
  with start show ?thesis by simp
qed

lemma keeps_recv_loop:
  assumes read: "\<And>d c r c'. J c \<Longrightarrow> read_within T x d c = (r, c') \<Longrightarrow>
      (\<forall>p. r = Ok p \<longrightarrow> K p c') \<and> ((\<forall>p. r \<noteq> Ok p) \<longrightarrow> I c')"
    and handler: "\<And>p l c. K p c \<Longrightarrow> J (snd (handler p l c))"
    and "\<And>c. J c \<Longrightarrow> I c"
  shows "keeps I J J (recv_loop T x budget handler l)"
proof (rule keepsI)
  fix c r c'
  assume "J c" and loop: "recv_loop T x budget handler l c = Some (r, c')"
  from loop show "I c' \<and> (\<forall>v. r = Ok v \<longrightarrow> J c')"
  proof (rule recv_loop_rule [where L = "\<lambda>_. J"])
    show "J c" by fact
  next
    fix l c p c1 r c2
    assume "J c" "read_within T x (budget c) c = (Ok p, c1)" "handler p l c1 = (Inl r, c2)"
    with read handler [of p c1 l] assms(3) show "I c2 \<and> (\<forall>v. r = Ok v \<longrightarrow> J c2)" by fastforce
  next
    fix l c p c1 l' c2
    assume "J c" "read_within T x (budget c) c = (Ok p, c1)" "handler p l c1 = (Inr l', c2)"
    with read handler [of p c1 l] show "J c2" by fastforce
  qed (use read in fastforce)+
qed

section \<open>What the elementary steps leave alone\<close>

named_theorems frames \<open>fields an elementary step does not change\<close>

lemma tracking_frames [frames, simp]:
  "cl_transport (discard_pending_ack k c) = cl_transport c"
  "cl_transport (discard_completed_ack k c) = cl_transport c"
  "cl_transport (remember_pending_ack t c) = cl_transport c"
  "cl_transport (remember_completed_ack a c) = cl_transport c"
  "cl_connected (discard_pending_ack k c) = cl_connected c"
  "cl_connected (discard_completed_ack k c) = cl_connected c"
  "cl_connected (remember_pending_ack t c) = cl_connected c"
  "cl_connected (remember_completed_ack a c) = cl_connected c"
  "cl_events (discard_pending_ack k c) = cl_events c"
  "cl_events (discard_completed_ack k c) = cl_events c"
  "cl_events (remember_pending_ack t c) = cl_events c"
  "cl_events (remember_completed_ack a c) = cl_events c"
  "request_timeout (discard_pending_ack k c) = request_timeout c"
  "request_timeout (discard_completed_ack k c) = request_timeout c"
  "request_timeout (remember_pending_ack t c) = request_timeout c"
  "request_timeout (remember_completed_ack a c) = request_timeout c"
  "next_message_observation_id (discard_pending_ack k c) = next_message_observation_id c"
  "next_message_observation_id (discard_completed_ack k c) = next_message_observation_id c"
  "next_message_observation_id (remember_pending_ack t c) = next_message_observation_id c"
  "next_message_observation_id (remember_completed_ack a c) = next_message_observation_id c"
  "sync_state (discard_pending_ack k c) = sync_state c"
  "sync_state (discard_completed_ack k c) = sync_state c"
  "sync_state (remember_pending_ack t c) = sync_state c"
  "sync_state (remember_completed_ack a c) = sync_state c"
  "deferred_sync (discard_pending_ack k c) = deferred_sync c"
  "deferred_sync (discard_completed_ack k c) = deferred_sync c"
  "deferred_sync (remember_pending_ack t c) = deferred_sync c"
  "deferred_sync (remember_completed_ack a c) = deferred_sync c"
  by (simp_all add: pending_defs completed_defs split: prod.split)

lemma take_pending_ack_eq:
  "take_pending_ack k c =
     (pending_acks c k, if pending_acks c k = None then c else discard_pending_ack k c)"
  by (rule pending.take_entry)

lemma take_completed_ack_eq:
  "take_completed_ack k c =
     (completed_acks c k, if completed_acks c k = None then c else discard_completed_ack k c)"
  by (rule completed.take_entry)

text \<open>\<^verbatim>\<open>update_tracking\<close> by the kind of packet.\<close>

lemma update_tracking_cases:
  obtains (sent) d code ms where "p = P_MsgSent d code ms"
      "update_tracking p c = remember_pending_ack \<lparr>ack_code = code, timeout_ms = ms\<rparr> (discard_completed_ack code c)"
  | (acked) a where "p = P_Ack a" "pending_acks c (a_code a) \<noteq> None"
      "update_tracking p c = remember_completed_ack a (discard_pending_ack (a_code a) c)"
  | (other) "update_tracking p c = c"
proof -
  consider (1) d code ms where "p = P_MsgSent d code ms" | (2) a where "p = P_Ack a"
    | (3) "update_tracking p c = c"
    by (cases p) (simp_all add: update_tracking_def)
  then show ?thesis
  proof cases
    case 1
    then show ?thesis using sent by (simp add: update_tracking_def)
  next
    case (2 a)
    then show ?thesis
      using acked other by (cases "pending_acks c (a_code a)") (simp_all add: update_tracking_def take_pending_ack_eq)
  next
    case 3
    then show ?thesis by (rule other)
  qed
qed

lemma update_tracking_frames [frames, simp]:
  "cl_transport (update_tracking p c) = cl_transport c"
  "cl_connected (update_tracking p c) = cl_connected c"
  "cl_events (update_tracking p c) = cl_events c"
  "request_timeout (update_tracking p c) = request_timeout c"
  "next_message_observation_id (update_tracking p c) = next_message_observation_id c"
  "sync_state (update_tracking p c) = sync_state c"
  "deferred_sync (update_tracking p c) = deferred_sync c"
  by (cases rule: update_tracking_cases [of p c]; simp)+

lemma retain_cases:
  obtains (kept) "retain_sync_response p c = c"
  | (ready) s where "sync_state c = AwaitingResponse"
      "retain_sync_response p c = c\<lparr>deferred_sync := Some s, sync_state := Idle\<rparr>"
proof (cases "sync_state c")
  case Idle
  then have "retain_sync_response p c = c" by (simp add: retain_sync_response_def)
  then show ?thesis by (rule kept)
next
  case AwaitingResponse
  then have "\<exists>o'. retain_sync_response p c =
      (case o' of Some s \<Rightarrow> c\<lparr>deferred_sync := Some s, sync_state := Idle\<rparr> | None \<Rightarrow> c)"
    unfolding retain_sync_response_def by (intro exI) (simp only: simp_thms if_False)
  then obtain o' where "retain_sync_response p c =
      (case o' of Some s \<Rightarrow> c\<lparr>deferred_sync := Some s, sync_state := Idle\<rparr> | None \<Rightarrow> c)" ..
  note eq = this
  show ?thesis
  proof (cases o')
    case None
    with eq show ?thesis by (intro kept) (simp only: option.case)
  next
    case (Some s)
    with eq AwaitingResponse show ?thesis by (intro ready) (simp_all only: option.case)
  qed
qed

lemma retain_frames [frames, simp]:
  "cl_transport (retain_sync_response p c) = cl_transport c"
  "cl_connected (retain_sync_response p c) = cl_connected c"
  "cl_events (retain_sync_response p c) = cl_events c"
  "request_timeout (retain_sync_response p c) = request_timeout c"
  "next_message_observation_id (retain_sync_response p c) = next_message_observation_id c"
  "pending_acks (retain_sync_response p c) = pending_acks c"
  "pending_ack_order (retain_sync_response p c) = pending_ack_order c"
  "completed_acks (retain_sync_response p c) = completed_acks c"
  "completed_ack_order (retain_sync_response p c) = completed_ack_order c"
  by (cases rule: retain_cases [of p c]; simp)+

lemma emit_frames [frames, simp]:
  "cl_transport (emit e c) = cl_transport c"
  "cl_connected (emit e c) = cl_connected c"
  "cl_events (emit e c) = cl_events c @ [e]"
  "request_timeout (emit e c) = request_timeout c"
  "next_message_observation_id (emit e c) = next_message_observation_id c"
  "sync_state (emit e c) = sync_state c"
  "deferred_sync (emit e c) = deferred_sync c"
  "pending_acks (emit e c) = pending_acks c"
  "pending_ack_order (emit e c) = pending_ack_order c"
  "completed_acks (emit e c) = completed_acks c"
  "completed_ack_order (emit e c) = completed_ack_order c"
  by (simp_all add: emit_def)

lemma publish_frames [frames, simp]:
  "cl_transport (publish_event p c) = cl_transport c"
  "cl_connected (publish_event p c) = cl_connected c"
  "request_timeout (publish_event p c) = request_timeout c"
  "next_message_observation_id (publish_event p c) = next_message_observation_id c"
  "cl_events (publish_event p c) = cl_events c @ (case into_event p of Some e \<Rightarrow> [e] | None \<Rightarrow> [])"
  "sync_state c = Idle \<Longrightarrow> sync_state (publish_event p c) = Idle"
  "sync_state c = Idle \<Longrightarrow> deferred_sync (publish_event p c) = deferred_sync c"
  by (simp_all add: publish_event_def Let_def retain_sync_response_def split: option.split)

lemma pass_on_transport [frames, simp]: "cl_transport (pass_on p c) = cl_transport c"
  by (simp add: pass_on_def)

lemma parse_packet_frames [frames]:
  assumes "parse_packet x raw c = (r, c')"
  shows "cl_transport c' = cl_transport c" "cl_connected c' = cl_connected c"
    "cl_events c' = cl_events c" "request_timeout c' = request_timeout c"
    "sync_state c' = sync_state c" "deferred_sync c' = deferred_sync c"
    "pending_acks c' = pending_acks c" "pending_ack_order c' = pending_ack_order c"
    "completed_acks c' = completed_acks c" "completed_ack_order c' = completed_ack_order c"
  using assms by (auto simp: parse_packet_def split: result.splits packet.splits)

lemma drain_arm_deferred: "deferred_sync (snd (drain_arm p c)) = deferred_sync c"
  by (cases p) (simp_all add: drain_arm_def pass_on_def publish_event_def Let_def
      retain_sync_response_def split: option.split)

lemma try_next_packet_deferred: "try_next_packet T x c = (Ok p, c') \<Longrightarrow> deferred_sync c' = deferred_sync c"
  by (auto simp: try_next_packet_def dest: parse_packet_frames(6)
      split: prod.splits result.splits ready_read.splits)

section \<open>The calculus\<close>

text \<open>
  Between the read of a packet and its publication a property may be suspended: \<open>K p\<close> is what holds
  while the packet \<open>p\<close> has been read and not handled yet. A packet other than a message may be
  dropped; a message must be published.
\<close>

fun is_message :: "packet \<Rightarrow> bool" where
  "is_message (P_ContactMsg m) = True"
| "is_message (P_ChannelMsg m) = True"
| "is_message p = False"

text \<open>The replies an operation waits for are never messages.\<close>

definition skips_messages :: "(packet \<Rightarrow> 'r option) \<Rightarrow> bool" where
  "skips_messages extract \<longleftrightarrow> (\<forall>p. is_message p \<longrightarrow> extract p = None)"

lemma skips_messagesI:
  "(\<And>m. extract (P_ContactMsg m) = None) \<Longrightarrow> (\<And>m. extract (P_ChannelMsg m) = None) \<Longrightarrow> skips_messages extract"
  unfolding skips_messages_def by (auto elim!: is_message.elims)

lemma skips_replies:
  "skips_messages (ok_reply feature operation)"
  "skips_messages private_key_reply"
  "skips_messages device_info_reply"
  "skips_messages has_connection_reply"
  by (rule skips_messagesI; simp add: has_connection_reply_def)+

lemma skips_expected: "skips_messages extract \<Longrightarrow> skips_messages (expected_reply ctxt extract)"
  by (rule skips_messagesI) (simp_all add: skips_messages_def expected_reply_def)

lemma skips_values:
  "skips_messages time_of" "skips_messages battery_of" "skips_messages tuning_of"
  "skips_messages export_contact_of" "skips_messages contact_of" "skips_messages advert_path_of"
  "skips_messages auto_add_config_of" "skips_messages custom_vars_of" "skips_messages stats_of"
  "skips_messages allowed_repeat_frequencies_of" "skips_messages default_flood_scope_of"
  "skips_messages channel_of" "skips_messages self_telemetry_of" "skips_messages sign_start_of"
  "skips_messages signature_of"
  by (rule skips_messagesI; simp)+

definition continues_messages :: "(packet \<Rightarrow> 'r packet_wait) \<Rightarrow> bool" where
  "continues_messages extract \<longleftrightarrow> (\<forall>p q. extract p = PW_Continue q \<longrightarrow> q = p) \<and>
     (\<forall>p. is_message p \<longrightarrow> extract p = PW_Continue p)"

lemma continues_waits:
  "continues_messages (login_wait prefix')" "continues_messages (status_wait prefix')"
  "continues_messages (binary_wait tag)" "continues_messages (path_wait prefix')"
  by (auto simp: continues_messages_def login_wait_def status_wait_def binary_wait_def path_wait_def
      elim!: is_message.elims split: packet.splits if_splits)

locale session_calculus =
  fixes T :: "'t transport_ops" and x :: externs and I J :: "'t client \<Rightarrow> bool"
    and K :: "packet \<Rightarrow> 't client \<Rightarrow> bool"
  assumes weaken: "J c \<Longrightarrow> I c"
    and ready: "I c \<Longrightarrow> cl_connected c \<Longrightarrow> J c"
    and read_keeps: "J c \<Longrightarrow> read_next_packet T x limit c = (r, c') \<Longrightarrow>
      (\<forall>p. r = Ready (Ok p) \<longrightarrow> K p c') \<and> ((\<forall>p. r \<noteq> Ready (Ok p)) \<longrightarrow> I c')"
    and try_keeps: "J c \<Longrightarrow> try_next_packet T x c = (r', c') \<Longrightarrow>
      (\<forall>p. r' = Ok (Some p) \<longrightarrow> K p c') \<and> (r' = Ok None \<longrightarrow> J c') \<and> ((\<forall>p. r' \<noteq> Ok p) \<longrightarrow> I c')"
    and write_keeps: "J c \<Longrightarrow> write_raw T payload c = (w, c') \<Longrightarrow> I c' \<and> (\<forall>v. w = Ok v \<longrightarrow> J c')"
    and drop_packet: "K p c \<Longrightarrow> \<not> is_message p \<Longrightarrow> J c"
    and emit_packet: "K p c \<Longrightarrow> into_event p = Some e \<Longrightarrow> J (emit e c)"
    and retain_packet: "K p c \<Longrightarrow> K p (retain_sync_response q c)"
    and track_packet: "K p c \<Longrightarrow> K p (update_tracking q c)"
    and idle_packet: "K p c \<Longrightarrow> K p (c\<lparr>sync_state := Idle\<rparr>)"
    and discard_packet: "K p c \<Longrightarrow> K p (discard_pending_ack k c)"
    and connected_event: "J c \<Longrightarrow> J (emit E_Connected c)"
    and track_keeps: "J c \<Longrightarrow> J (update_tracking p c)"
    and idle_keeps: "J c \<Longrightarrow> J (c\<lparr>sync_state := Idle\<rparr>)"
    and take_keeps: "J c \<Longrightarrow> J (snd (take_completed_ack k c))"
    and forget_keeps: "I c \<Longrightarrow> I (forget_ack k c)"
    and await_keeps: "J c \<Longrightarrow> deferred_sync c = None \<Longrightarrow> J (c\<lparr>sync_state := AwaitingResponse\<rparr>)"
    and deferred_keeps: "J c \<Longrightarrow> J (c\<lparr>deferred_sync := None\<rparr>)"
    and mark_keeps: "I c \<Longrightarrow> I (mark_disconnected c)"
    and clear_keeps: "I c \<Longrightarrow> I (clear_sync_tracking (clear_tracking c))"
    and connect_keeps: "I c \<Longrightarrow> I (c\<lparr>cl_transport := snd (t_connect T (cl_transport c))\<rparr>)"
    and reconnect_keeps: "I c \<Longrightarrow> I (c\<lparr>cl_transport := snd (t_reconnect T (cl_transport c))\<rparr>)"
    and disconnect_keeps: "I c \<Longrightarrow> I (c\<lparr>cl_transport := snd (t_disconnect T (cl_transport c))\<rparr>)"
    and connected_keeps: "I c \<Longrightarrow> J (c\<lparr>cl_connected := True\<rparr>)"
begin

lemma publish_keeps: "K p c \<Longrightarrow> J (publish_event p c)"
  using drop_packet [OF retain_packet, of p c p] emit_packet [OF retain_packet, of p c _ p]
  by (cases p) (simp_all add: publish_event_def Let_def)

lemma pass_on_keeps: "K p c \<Longrightarrow> J (pass_on p c)"
  by (simp add: pass_on_def publish_keeps track_keeps)

lemma within_keeps:
  "J c \<Longrightarrow> read_within T x d c = (r, c') \<Longrightarrow>
   (\<forall>p. r = Ok p \<longrightarrow> K p c') \<and> ((\<forall>p. r \<noteq> Ok p) \<longrightarrow> I c')"
  using read_keeps by (fastforce simp: read_within_def split: prod.splits polled.splits)

lemma keeps_loop:
  "(\<And>p l c. K p c \<Longrightarrow> J (snd (handler p l c))) \<Longrightarrow> keeps I J J (recv_loop T x budget handler l)"
  by (rule keeps_recv_loop [where K = K]) (use within_keeps weaken in auto)

lemma keeps_await_reply:
  "(\<And>p l c. K p c \<Longrightarrow> J (snd (handler p l c))) \<Longrightarrow> keeps I J J (await_reply T x handler l)"
  by (simp add: await_reply_def keeps_loop)

lemma keeps_await_until:
  "(\<And>p l c. K p c \<Longrightarrow> J (snd (handler p l c))) \<Longrightarrow> keeps I J J (await_until T x d handler l)"
  using keeps_loop [of handler _ l] unfolding keeps_def await_until_def Let_def by blast

lemma keeps_ensure: "keeps I I J ensure"
  by (rule keepsI) (auto simp: ensure_def ensure_connected_def ready split: if_splits)

lemma keeps_act_of: "keeps I J J (act_of r)" "keeps I I I (act_of r)"
  using weaken by (auto simp: keeps_def act_of_def)

lemma keeps_send_encoded: "keeps I J J (send_encoded T command)"
  by (rule keepsI)
    (use write_keeps weaken in \<open>auto simp: send_encoded_def send_raw_def split: if_splits\<close>)

lemma keeps_from_any: "keeps I I J a \<Longrightarrow> keeps I J J a" "keeps I I J a \<Longrightarrow> keeps I I I a"
  using weaken by (auto elim: keeps_weaken)

lemma keeps_send_only: "keeps I I J (send_only T command)"
  unfolding send_only_def by (rule keeps_bind [OF keeps_ensure keeps_send_encoded])

lemma returning_keeps:
  assumes "skips_messages extract" and "K p c"
  shows "J (snd (returning extract p l c))"
proof (cases "extract p")
  case None
  with assms(2) show ?thesis by (simp add: returning_def pass_on_keeps)
next
  case (Some r)
  with assms(1) have "\<not> is_message p" by (auto simp: skips_messages_def)
  with Some drop_packet [OF assms(2)] show ?thesis by (simp add: returning_def)
qed

lemma keeps_returning: "skips_messages extract \<Longrightarrow> keeps I J J (await_reply T x (returning extract) l)"
  by (rule keeps_await_reply) (rule returning_keeps)

lemma keeps_expect_ok: "keeps I I J (send_command_expect_ok T x command)"
  unfolding send_command_expect_ok_def
  by (intro keeps_bind [OF keeps_ensure] keeps_bind [OF keeps_send_encoded] keeps_returning skips_replies)

lemma keeps_expect: "skips_messages extract \<Longrightarrow> keeps I I J (send_command_expect T x command ctxt extract)"
  unfolding send_command_expect_def
  by (intro keeps_bind [OF keeps_ensure] keeps_bind [OF keeps_send_encoded] keeps_returning skips_expected)

lemma keeps_of: "(\<And>v. keeps I I J (k v)) \<Longrightarrow> keeps I I J (act_bind (act_of r) k)"
  by (rule keeps_bind [OF keeps_act_of(2)])

lemma keeps_expect_ok_of: "keeps I I J (expect_ok_of T x command)"
  unfolding expect_ok_of_def by (intro keeps_of keeps_expect_ok)

lemma msg_sent_arm_keeps: "K p c \<Longrightarrow> J (snd (msg_sent_arm track p l c))"
  using track_keeps [of c p] drop_packet [of p c]
  by (cases p) (simp_all add: msg_sent_arm_def Let_def pass_on_keeps update_tracking_def)

lemma keeps_msg_sent_inner: "keeps I I J (send_command_expect_msg_sent_inner T x command track)"
  unfolding send_command_expect_msg_sent_inner_def
  by (intro keeps_bind [OF keeps_ensure] keeps_bind [OF keeps_send_encoded] keeps_await_reply
      msg_sent_arm_keeps)

lemma keeps_msg_sent: "keeps I I J (send_command_expect_msg_sent T x command)"
    "keeps I I J (send_command_expect_msg_sent_untracked T x command)"
  by (simp_all add: send_command_expect_msg_sent_def send_command_expect_msg_sent_untracked_def
      keeps_msg_sent_inner)

lemma packet_wait_keeps:
  assumes "continues_messages extract" and "K p c"
  shows "J (snd (packet_wait_reply ctxt extract p c))"
proof (cases "extract p")
  case (PW_Continue q)
  with assms have "q = p" by (auto simp: continues_messages_def)
  with PW_Continue assms(2) drop_packet [OF assms(2)] show ?thesis
    by (cases p) (simp_all add: packet_wait_reply_def pass_on_keeps)
next
  case (PW_Ready v)
  with assms(1) have "\<not> is_message p" by (auto simp: continues_messages_def)
  with PW_Ready drop_packet [OF assms(2)] show ?thesis by (simp add: packet_wait_reply_def)
next
  case (PW_Fail e)
  with assms(1) have "\<not> is_message p" by (auto simp: continues_messages_def)
  with PW_Fail drop_packet [OF assms(2)] show ?thesis by (simp add: packet_wait_reply_def)
qed

lemma keeps_wait_for_packet:
  "continues_messages extract \<Longrightarrow> keeps I J J (wait_for_packet T x d ctxt extract)"
  unfolding wait_for_packet_def by (rule keeps_await_until) (rule packet_wait_keeps)

lemma keeps_state: "(\<And>s. keeps I P Q (k s)) \<Longrightarrow> keeps I P Q (\<lambda>c. k (f c) c)"
  by (auto simp: keeps_def)

lemma keeps_remote_request:
  "(\<And>t. continues_messages (extract t)) \<Longrightarrow> keeps I I J (remote_request T x command ctxt extract)"
  unfolding remote_request_def
  by (intro keeps_of keeps_bind [OF keeps_msg_sent(2)])
    (rule keeps_state [where k = "\<lambda>d. wait_for_packet T x d _ _", OF keeps_wait_for_packet])

lemma keeps_query: "skips_messages extract \<Longrightarrow> keeps I I J (act_bind ensure (\<lambda>_. act_bind (send_encoded T command) (\<lambda>_.
    await_reply T x (returning extract) ())))"
  by (intro keeps_bind [OF keeps_ensure] keeps_bind [OF keeps_send_encoded] keeps_returning)

lemma keeps_settings:
    "keeps I I J (op_set_time T x v)"
    "keeps I I J (op_send_self_advert T x flood)"
    "keeps I I J (op_set_advert_name T x name)"
    "keeps I I J (op_set_coordinates T x latitude longitude)"
    "keeps I I J (op_set_tx_power T x power_dbm)"
    "keeps I I J (op_set_radio_params T x params)"
    "keeps I I J (op_set_tuning T x params')"
    "keeps I I J (op_reset_path T x public_key)"
    "keeps I I J (op_update_contact T x contact)"
    "keeps I I J (op_share_contact T x public_key)"
    "keeps I I J (op_import_contact T x card_data)"
    "keeps I I J (op_set_auto_add_config T x config)"
    "keeps I I J (op_set_custom_var T x key' v')"
    "keeps I I J (op_set_path_hash_mode T x mode)"
    "keeps I I J (op_set_flood_scope T x scope)"
    "keeps I I J (op_set_default_flood_scope T x name key)"
    "keeps I I J (op_clear_default_flood_scope T x)"
    "keeps I I J (op_set_channel T x i name secret)"
    "keeps I I J (op_clear_channel T x i)"
    "keeps I I J (op_remove_contact T x public_key)"
    "keeps I I J (op_logout T x public_key)"
    "keeps I I J (op_send_node_discovery T x type_filter prefix_only tag since)"
    "keeps I I J (op_set_device_pin T x pin)"
  unfolding op_set_time_def op_send_self_advert_def op_set_advert_name_def op_set_coordinates_def
      op_set_tx_power_def op_set_radio_params_def op_set_tuning_def op_reset_path_def
      op_update_contact_def op_share_contact_def op_import_contact_def
      op_set_auto_add_config_def op_set_custom_var_def op_set_path_hash_mode_def
      op_set_flood_scope_def op_set_default_flood_scope_def op_clear_default_flood_scope_def
      op_set_channel_def op_clear_channel_def op_remove_contact_def op_logout_def
      op_send_node_discovery_def op_set_device_pin_def
  by (intro keeps_expect_ok_of keeps_expect_ok)+

lemma keeps_queries:
    "keeps I I J (op_query_device_info T x)"
    "keeps I I J (op_get_time T x)"
    "keeps I I J (op_get_battery T x)"
    "keeps I I J (op_get_tuning T x)"
    "keeps I I J (op_export_contact T x public_key')"
    "keeps I I J (op_get_contact T x public_key)"
    "keeps I I J (op_get_advert_path T x public_key)"
    "keeps I I J (op_get_auto_add_config T x)"
    "keeps I I J (op_get_custom_vars T x)"
    "keeps I I J (op_get_stats T x stats_type)"
    "keeps I I J (op_get_allowed_repeat_frequencies T x)"
    "keeps I I J (op_get_default_flood_scope T x)"
    "keeps I I J (op_get_channel T x i)"
    "keeps I I J (op_get_self_telemetry T x)"
  unfolding op_query_device_info_def op_get_time_def op_get_battery_def op_get_tuning_def
      op_export_contact_def op_get_contact_def op_get_advert_path_def
      op_get_auto_add_config_def op_get_custom_vars_def op_get_stats_def
      op_get_allowed_repeat_frequencies_def op_get_default_flood_scope_def op_get_channel_def
      op_get_self_telemetry_def
  by (intro keeps_of keeps_expect keeps_bind [OF keeps_ensure]
      keeps_bind [OF keeps_from_any(1), OF keeps_send_only] keeps_returning skips_values skips_replies)+

lemma keeps_remote_operations:
    "keeps I I J (op_login T x public_key password)"
    "keeps I I J (op_remote_status T x public_key)"
    "keeps I I J (op_binary_request T x public_key request_type data)"
    "keeps I I J (op_anonymous_request T x public_key request_type reply_route reply_path)"
    "keeps I I J (op_discover_path T x public_key)"
  unfolding op_login_def op_remote_status_def op_binary_request_def op_anonymous_request_def
      op_discover_path_def
  by (intro keeps_of keeps_remote_request continues_waits)+

lemma contacts_arm_keeps: "K p c \<Longrightarrow> J (snd (contacts_arm p l c))"
  using drop_packet [of p c] by (cases p) (simp_all add: contacts_arm_def pass_on_keeps)

lemma keeps_collect_contacts: "keeps I I J (collect_contacts T x lastmod)"
  unfolding collect_contacts_def
  by (intro keeps_bind [OF keeps_ensure] keeps_bind [OF keeps_from_any(1), OF keeps_send_only]
      keeps_await_reply contacts_arm_keeps)

lemma keeps_sign_chunks: "keeps I J J (sign_chunks T x cs)"
  by (induction cs)
    (auto intro: keeps_act_of keeps_bind keeps_from_any(1) [OF keeps_expect_ok_of])

lemma close_with_keeps: "I c \<Longrightarrow> I (snd (close_with T r c))"
  using disconnect_keeps [of c]
  by (auto simp: close_with_def intro: mark_keeps split: prod.split result.split)

lemma keeps_disconnect_command: "keeps I I I (send_disconnect_command T command)"
  unfolding send_disconnect_command_def
  by (intro keeps_bind [OF keeps_ensure] keeps_bind [OF keeps_send_encoded] keepsI)
    (metis close_with_keeps option.inject snd_conv weaken)

lemma keeps_composite_operations:
    "keeps I I J (op_list_contacts T x lastmod)"
    "keeps I I J (op_list_contacts_snapshot T x lastmod)"
    "keeps I I J (op_get_path_hash_mode T x)"
    "keeps I I J (op_has_connection T x public_key)"
    "keeps I I J (op_sign T x data)"
    "keeps I I J (op_export_private_key T x)"
    "keeps I I J (op_import_private_key T x key)"
    "keeps I I J (op_send_direct_text T x now destination_prefix attempt text_bytes)"
    "keeps I I J (op_send_direct_command T x now destination_prefix attempt command_text)"
    "keeps I I J (op_send_channel_message T x now chan text_type text_bytes)"
proof -
  show "keeps I I J (op_list_contacts T x lastmod)"
    unfolding op_list_contacts_def by (rule keeps_bind [OF keeps_collect_contacts keeps_act_of(1)])
  show "keeps I I J (op_list_contacts_snapshot T x lastmod)"
    unfolding op_list_contacts_snapshot_def
    by (rule keeps_bind [OF keeps_collect_contacts keeps_act_of(1)])
  show "keeps I I J (op_get_path_hash_mode T x)"
    unfolding op_get_path_hash_mode_def by (rule keeps_bind [OF keeps_queries(1) keeps_act_of(1)])
  show "keeps I I J (op_has_connection T x public_key)"
    unfolding op_has_connection_def
    by (intro keeps_bind [OF keeps_ensure] keeps_bind [OF keeps_act_of(1)]
        keeps_bind [OF keeps_send_encoded] keeps_returning skips_replies)
  have "keeps I J J (if b then act_of (Err e) else act_bind (sign_chunks T x cs) (\<lambda>_.
      send_command_expect T x cmd ctxt signature_of))" for b e cs cmd ctxt
    by (auto intro: keeps_act_of keeps_bind [OF keeps_sign_chunks] keeps_from_any(1) [OF keeps_expect]
        skips_values)
  then show "keeps I I J (op_sign T x data)"
    unfolding op_sign_def by (rule keeps_bind [OF keeps_expect [OF skips_values(14)]])
  show "keeps I I J (op_export_private_key T x)" "keeps I I J (op_import_private_key T x key)"
    unfolding op_export_private_key_def op_import_private_key_def by (rule keeps_query skips_replies)+
  show "keeps I I J (op_send_direct_text T x now destination_prefix attempt text_bytes)"
    "keeps I I J (op_send_direct_command T x now destination_prefix attempt command_text)"
    "keeps I I J (op_send_channel_message T x now chan text_type text_bytes)"
    unfolding op_send_direct_text_def op_send_direct_command_def op_send_channel_message_def
    by (intro keeps_of keeps_msg_sent keeps_expect_ok)+
qed

lemma keeps_restarts: "keeps I I I (op_reboot T)" "keeps I I I (op_factory_reset T)"
  unfolding op_reboot_def op_factory_reset_def by (rule keeps_disconnect_command)+

lemma keeps_init: "keeps I I J (op_init T x)"
proof -
  have "K p c \<Longrightarrow> J (snd (init_arm p l c))" for p l c
    using drop_packet [of p c] by (cases p) (simp_all add: init_arm_def pass_on_keeps publish_keeps)
  then show ?thesis
    unfolding op_init_def
    by (intro keeps_bind [OF keeps_ensure] keeps_bind [OF keeps_from_any(1), OF keeps_send_only]
        keeps_await_reply)
qed

lemma keeps_start_session: "keeps I I J (start_session T x)"
proof (rule keepsI)
  fix c r c'
  assume "I c" and start: "start_session T x c = Some (r, c')"
  then have "I (c\<lparr>cl_connected := True\<rparr>)" using connected_keeps weaken by blast
  note init = keepsD [OF keeps_init this] keeps_OkD [OF keeps_init this]
  from start show "I c' \<and> (\<forall>v. r = Ok v \<longrightarrow> J c')"
  proof (cases "op_init T x (c\<lparr>cl_connected := True\<rparr>)")
    case None
    with start show ?thesis by (simp add: start_session_def)
  next
    case (Some q)
    then obtain r1 c1 where q: "op_init T x (c\<lparr>cl_connected := True\<rparr>) = Some (r1, c1)" by (cases q) auto
    show ?thesis
    proof (cases r1)
      case (Ok info)
      with q init(2) have "J c1" by blast
      with start q Ok show ?thesis by (auto simp: start_session_def connected_event weaken)
    next
      case (Err e)
      from init(1) [OF q] have "I (snd (close_with T (Err e) c1))" by (rule close_with_keeps)
      with start q Err show ?thesis
        by (auto simp: start_session_def close_with_def split: prod.splits result.splits)
    next
      case Panic
      with start q init(1) [OF q] show ?thesis by (simp add: start_session_def)
    qed
  qed
qed

lemma keeps_open:
  "(\<And>c. I c \<Longrightarrow> I (c\<lparr>cl_transport := snd (f (cl_transport c))\<rparr>)) \<Longrightarrow> keeps I I I (open_with f)"
  by (rule keepsI) (fastforce simp: open_with_def split: prod.splits)

lemma keeps_connections: "keeps I I J (op_connect T x)" "keeps I I J (op_reconnect T x)"
    "keeps I I I (op_disconnect T)"
proof -
  have "keeps I I J (act_bind (open_with (t_connect T)) (\<lambda>_. start_session T x))"
    by (intro keeps_bind [OF keeps_open] keeps_start_session connect_keeps)
  then show "keeps I I J (op_connect T x)"
    using clear_keeps unfolding keeps_def op_connect_def by blast
  have "keeps I I J (act_bind (open_with (t_reconnect T)) (\<lambda>_. start_session T x))"
    by (intro keeps_bind [OF keeps_open] keeps_start_session reconnect_keeps)
  then show "keeps I I J (op_reconnect T x)"
    using mark_keeps unfolding keeps_def op_reconnect_def by blast
  show "keeps I I I (op_disconnect T)"
    by (rule keepsI)
      (use disconnect_keeps in \<open>fastforce simp: op_disconnect_def intro: mark_keeps split: prod.splits result.splits\<close>)
qed

lemma keeps_next_event: "keeps I I J (op_next_event T x)"
proof -
  have read: "(\<forall>p. r = Ok p \<longrightarrow> K p c') \<and> ((\<forall>p. r \<noteq> Ok p) \<longrightarrow> I c')" if "J c" "next_packet T x c = Some (r, c')" for c r c'
    using that read_keeps [of c None] by (auto simp: next_packet_def split: prod.splits polled.splits)
  have publish: "J c'" if "K p c" "publish_idle p c = Some (r, c')" for p c r c'
  proof -
    from that(1) have "K p (update_tracking p (retain_sync_response p c))"
      by (intro track_packet retain_packet)
    with that(2) drop_packet [OF this] emit_packet [OF this] show ?thesis
      by (cases p) (auto simp: publish_idle_def Let_def)
  qed
  have "keeps I J J (act_bind (next_packet T x) publish_idle)"
    by (rule keepsI) (use read publish weaken in \<open>fastforce simp: act_bind_eq_Some\<close>)
  then show ?thesis
    unfolding op_next_event_def by (intro keeps_bind [OF keeps_ensure])
qed

lemma drain_arm_keeps: "K p c \<Longrightarrow> J (snd (drain_arm p c))"
  using drop_packet [OF idle_packet, of p c]
  by (cases p) (simp_all add: drain_arm_def pass_on_keeps publish_keeps idle_packet)

lemma drain_step_keeps:
  assumes "drain_arm p c1 = (q, c2)" and "try_next_packet T x c = (Ok (Some p), c1)"
    and "J c" and "deferred_sync c = None"
  shows "J c2" "deferred_sync c2 = None" "I c2"
proof -
  from assms try_keeps have "K p c1" by blast
  with assms(1) drain_arm_keeps [of p c1] show "J c2" by simp
  then show "I c2" by (rule weaken)
  show "deferred_sync c2 = None"
    using assms drain_arm_deferred [of p c1] by (simp add: try_next_packet_deferred)
qed

lemma try_quiet_keeps:
  "try_next_packet T x c = (Ok None, c') \<Longrightarrow> J c \<Longrightarrow> deferred_sync c = None \<Longrightarrow>
   I c' \<and> J c' \<and> deferred_sync c' = None"
  using try_keeps [of c "Ok None" c'] weaken by (auto simp: try_next_packet_deferred)

lemma drain_loop_keeps:
  "drain_loop T x n c = (r, c') \<Longrightarrow> J c \<Longrightarrow> deferred_sync c = None \<Longrightarrow>
     I c' \<and> (\<forall>v. r = Ok v \<longrightarrow> J c' \<and> deferred_sync c' = None)"
proof (induction n arbitrary: c)
  case 0
  obtain q c1 where trd: "try_next_packet T x c = (q, c1)" by fastforce
  show ?case
  proof (cases "\<exists>p. q = Ok (Some p)")
    case True
    then obtain p where q: "q = Ok (Some p)" by blast
    obtain s c2 where "drain_arm p c1 = (s, c2)" by fastforce
    with 0 trd q drain_step_keeps [OF this, of c] show ?thesis
      by (auto simp: drain_loop.simps [of T x 0] split: option.splits)
  next
    case False
    with 0(1) trd have "q = Ok None \<and> r = Ok None \<and> c' = c1 \<or> (\<forall>v. q \<noteq> Ok v) \<and> (\<forall>v. r \<noteq> Ok v) \<and> c' = c1"
      by (auto simp: drain_loop.simps [of T x 0] split: result.splits option.splits)
    with 0 trd try_keeps [OF _ trd] try_quiet_keeps [of c c1] show ?thesis by auto
  qed
next
  case (Suc n)
  obtain q c1 where trd: "try_next_packet T x c = (q, c1)" by fastforce
  show ?case
  proof (cases "\<exists>p. q = Ok (Some p)")
    case True
    then obtain p where q: "q = Ok (Some p)" by blast
    obtain s c2 where arm: "drain_arm p c1 = (s, c2)" by fastforce
    note step = drain_step_keeps [OF arm, of c]
    show ?thesis
    proof (cases s)
      case None
      with Suc.prems(1) trd q arm have "drain_loop T x n c2 = (r, c')"
        by (simp add: drain_loop.simps [of T x "Suc n"])
      with Suc.IH step trd q Suc.prems show ?thesis by blast
    next
      case (Some ready)
      with Suc.prems trd q arm step show ?thesis by (auto simp: drain_loop.simps [of T x "Suc n"])
    qed
  next
    case False
    with Suc.prems(1) trd
    have "q = Ok None \<and> r = Ok None \<and> c' = c1 \<or> (\<forall>v. q \<noteq> Ok v) \<and> (\<forall>v. r \<noteq> Ok v) \<and> c' = c1"
      by (auto simp: drain_loop.simps [of T x "Suc n"] split: result.splits option.splits)
    with Suc.prems trd try_keeps [OF _ trd] try_quiet_keeps [of c c1] show ?thesis by auto
  qed
qed

lemma keeps_wait_for_sync: "keeps I J J (wait_for_sync_response T x)"
proof -
  have "K p c \<Longrightarrow> J (snd (sync_arm p l c))" for p l c
    using drop_packet [OF idle_packet, of p c]
    by (cases p) (simp_all add: sync_arm_def pass_on_keeps publish_keeps idle_packet)
  then show ?thesis unfolding wait_for_sync_response_def by (rule keeps_await_reply)
qed

lemma keeps_request_sync: "keeps I (\<lambda>c. J c \<and> deferred_sync c = None) J (request_sync T x)"
proof -
  let ?send = "act_bind (\<lambda>c. Some (write_raw T (into_encoded cmd_sync_next_message) c))
    (\<lambda>_. wait_for_sync_response T x)"
  have "keeps I J J (\<lambda>c. Some (write_raw T (into_encoded cmd_sync_next_message) c))"
    by (rule keepsI) (use write_keeps in auto)
  then have send: "keeps I J J ?send"
    by (rule keeps_bind) (rule keeps_wait_for_sync)
  show ?thesis
  proof (rule keepsI)
    fix c r c'
    assume c: "J c \<and> deferred_sync c = None" and "request_sync T x c = Some (r, c')"
    then consider "wait_for_sync_response T x c = Some (r, c')"
      | "?send (c\<lparr>sync_state := AwaitingResponse\<rparr>) = Some (r, c')"
      unfolding request_sync_def by (auto split: if_splits)
    then show "I c' \<and> (\<forall>v. r = Ok v \<longrightarrow> J c')"
    proof cases
      case 1
      with c keeps_wait_for_sync show ?thesis unfolding keeps_def by blast
    next
      case 2
      with c await_keeps send show ?thesis unfolding keeps_def by blast
    qed
  qed
qed

lemma keeps_sync_next_message: "keeps I I J (op_sync_next_message T x)"
proof -
  let ?quiet = "\<lambda>c. J c \<and> deferred_sync c = None"
  have "keeps I ?quiet ?quiet (drain_ready_packets_before_sync T x)"
    by (rule keepsI) (use drain_loop_keeps in \<open>auto simp: drain_ready_packets_before_sync_def\<close>)
  moreover have "keeps I ?quiet J (case ready of Some r \<Rightarrow> act_of (f r) | None \<Rightarrow> request_sync T x)"
    for ready f
    using keeps_request_sync weaken by (auto simp: keeps_def act_of_def split: option.split)
  ultimately have drained: "keeps I ?quiet J (act_bind (drain_ready_packets_before_sync T x) (\<lambda>ready.
      case ready of Some r \<Rightarrow> act_of (ready_sync_result r) | None \<Rightarrow> request_sync T x))"
    by (rule keeps_bind)
  show ?thesis
    unfolding op_sync_next_message_def
  proof (rule keeps_bind [OF keeps_ensure], rule keepsI)
    fix v c r c'
    assume "J c" and *: "(case deferred_sync c of
        Some ready \<Rightarrow> Some (ready_sync_result ready, c\<lparr>deferred_sync := None\<rparr>)
      | None \<Rightarrow> act_bind (drain_ready_packets_before_sync T x) (\<lambda>ready.
          case ready of Some r \<Rightarrow> act_of (ready_sync_result r) | None \<Rightarrow> request_sync T x) c) = Some (r, c')"
    show "I c' \<and> (\<forall>v. r = Ok v \<longrightarrow> J c')"
    proof (cases "deferred_sync c")
      case None
      with * \<open>J c\<close> drained show ?thesis unfolding keeps_def by auto
    next
      case (Some ready)
      with * have "c' = c\<lparr>deferred_sync := None\<rparr>" by simp
      with deferred_keeps [OF \<open>J c\<close>] weaken show ?thesis by blast
    qed
  qed
qed

lemma keeps_wait_for_ack: "keeps I I J (op_wait_for_ack T x code requested)"
proof -
  have arm: "K p c \<Longrightarrow> J (snd (ack_arm code p l c))" for p l c
    using drop_packet [of p c]
    by (cases p) (simp_all add: ack_arm_def pass_on_keeps publish_keeps discard_packet)
  have await: "keeps I J J (await_ack T x code d)" for d
    using keeps_await_until [where handler = "ack_arm code" and l = "()" and d = d, OF arm] forget_keeps
    unfolding keeps_def await_ack_def by (auto split: option.splits result.splits)
  have "keeps I J J (\<lambda>c. case take_completed_ack code c of
         (Some a, c') \<Rightarrow> Some (Ok a, c')
       | (None, c') \<Rightarrow>
           await_ack T x code (case requested of Some d \<Rightarrow> d | None \<Rightarrow> request_timeout c') c')"
  proof (rule keepsI)
    fix c r c'
    assume "J c" and *: "(case take_completed_ack code c of
         (Some a, c') \<Rightarrow> Some (Ok a, c')
       | (None, c') \<Rightarrow>
           await_ack T x code (case requested of Some d \<Rightarrow> d | None \<Rightarrow> request_timeout c') c') = Some (r, c')"
    with take_keeps [of c code] await weaken show "I c' \<and> (\<forall>v. r = Ok v \<longrightarrow> J c')"
      unfolding keeps_def by (auto split: prod.splits option.splits)
  qed
  then show ?thesis
    unfolding op_wait_for_ack_def by (intro keeps_of keeps_bind [OF keeps_ensure])
qed

end

section \<open>The invariant of the client\<close>

text \<open>
  Both tables are consistent and bounded and no code is in both; the next observation identifier is
  never zero; a deferred inbox response excludes an outstanding one; a disconnected client tracks
  nothing.
\<close>

definition client_inv :: "'t client \<Rightarrow> bool" where
  "client_inv c \<longleftrightarrow>
     tracked CLIENT_PENDING_ACK_CAPACITY ack_code (pending_ack_order c) (pending_acks c) \<and>
     tracked CLIENT_COMPLETED_ACK_CAPACITY a_code (completed_ack_order c) (completed_acks c) \<and>
     set (pending_ack_order c) \<inter> set (completed_ack_order c) = {} \<and>
     next_message_observation_id c \<noteq> 0 \<and>
     (deferred_sync c \<noteq> None \<longrightarrow> sync_state c = Idle) \<and>
     (\<not> cl_connected c \<longrightarrow>
        pending_ack_order c = [] \<and> completed_ack_order c = [] \<and> sync_state c = Idle \<and>
        deferred_sync c = None)"

definition client_ready :: "'t client \<Rightarrow> bool" where
  "client_ready c \<longleftrightarrow> client_inv c \<and> cl_connected c"

lemma with_valid_timeout_inv: "client_inv (with_valid_timeout t d)"
  by (simp add: client_inv_def with_valid_timeout_def)

lemma tracked_Nil: "tracked cap key [] m \<longleftrightarrow> m = Map.empty"
  by (auto simp: tracked_def)

lemma mark_disconnected_inv: "client_inv c \<Longrightarrow> client_inv (mark_disconnected c)"
  by (auto simp: client_inv_def mark_disconnected_def clear_tracking_def clear_sync_tracking_def Let_def)

lemma transport_update_inv [simp]: "client_inv (c\<lparr>cl_transport := t\<rparr>) = client_inv c"
  by (simp add: client_inv_def)

lemma next_observation_id_nonzero: "next_observation_id n \<noteq> 0"
  by (simp add: next_observation_id_def)

lemma parse_packet_inv: "parse_packet x raw c = (r, c') \<Longrightarrow> client_inv c \<Longrightarrow> client_inv c'"
proof (cases "map_err Parse (parse x raw)")
  case (Ok p)
  then show "parse_packet x raw c = (r, c') \<Longrightarrow> client_inv c \<Longrightarrow> client_inv c'"
    using next_observation_id_nonzero by (cases p) (auto simp: parse_packet_def client_inv_def)
qed (simp_all add: parse_packet_def)

lemma read_next_packet_inv:
  assumes "read_next_packet T x limit c = (r, c')" and "client_inv c"
  shows "client_inv c'"
  using assms
  by (auto simp: read_next_packet_def dest: parse_packet_inv intro!: mark_disconnected_inv
      split: prod.splits polled.splits result.splits option.splits if_splits)

lemma read_next_packet_connected:
  "read_next_packet T x limit c = (Ready (Ok p), c') \<Longrightarrow> cl_connected c' = cl_connected c"
  by (auto simp: read_next_packet_def dest: parse_packet_frames(2)
      split: prod.splits polled.splits result.splits option.splits)

lemma try_next_packet_inv:
  assumes "try_next_packet T x c = (r, c')" and "client_inv c"
  shows "client_inv c'"
  using assms
  by (auto simp: try_next_packet_def dest: parse_packet_inv intro!: mark_disconnected_inv
      split: prod.splits result.splits ready_read.splits if_splits)

lemma try_next_packet_connected:
  "try_next_packet T x c = (Ok p, c') \<Longrightarrow> cl_connected c' = cl_connected c"
  by (auto simp: try_next_packet_def dest: parse_packet_frames(2)
      split: prod.splits result.splits ready_read.splits)

lemma write_raw_inv: "write_raw T payload c = (r, c') \<Longrightarrow> client_inv c \<Longrightarrow> client_inv c'"
  by (auto simp: write_raw_def intro!: mark_disconnected_inv split: prod.splits result.splits if_splits)

lemma write_raw_connected: "write_raw T payload c = (Ok v, c') \<Longrightarrow> cl_connected c' = cl_connected c"
  by (auto simp: write_raw_def split: prod.splits result.splits if_splits)

lemma table_frames [simp]:
  "pending_acks (discard_completed_ack k c) = pending_acks c"
  "pending_ack_order (discard_completed_ack k c) = pending_ack_order c"
  "pending_acks (remember_completed_ack a c) = pending_acks c"
  "pending_ack_order (remember_completed_ack a c) = pending_ack_order c"
  "completed_acks (discard_pending_ack k c) = completed_acks c"
  "completed_ack_order (discard_pending_ack k c) = completed_ack_order c"
  "completed_acks (remember_pending_ack t c) = completed_acks c"
  "completed_ack_order (remember_pending_ack t c) = completed_ack_order c"
  by (simp_all add: pending_defs completed_defs split: prod.split)

lemma remembered_codes:
  "set (pending_ack_order (remember_pending_ack t c)) \<subseteq> insert (ack_code t) (set (pending_ack_order c))"
  "set (completed_ack_order (remember_completed_ack a c)) \<subseteq> insert (a_code a) (set (completed_ack_order c))"
  by (auto simp: remember_pending_ack_order remember_completed_ack_order lastn_def dest: in_set_dropD)

lemma update_tracking_ready:
  assumes "client_ready c"
  shows "client_ready (update_tracking p c)"
proof (cases rule: update_tracking_cases [of p c])
  case (sent d code ms)
  let ?t = "\<lparr>ack_code = code, timeout_ms = ms\<rparr>"
  let ?c = "discard_completed_ack code c"
  have "set (pending_ack_order (remember_pending_ack ?t ?c)) \<subseteq> insert code (set (pending_ack_order c))"
    using remembered_codes(1) [of ?t ?c] by simp
  moreover have "tracked CLIENT_PENDING_ACK_CAPACITY ack_code
      (pending_ack_order (remember_pending_ack ?t ?c)) (pending_acks (remember_pending_ack ?t ?c))"
    using assms by (intro pending.remember_tracked) (simp add: client_ready_def client_inv_def)
  moreover have "tracked CLIENT_COMPLETED_ACK_CAPACITY a_code (completed_ack_order ?c) (completed_acks ?c)"
    using assms by (intro completed.discard_tracked) (simp add: client_ready_def client_inv_def)
  ultimately show ?thesis
    unfolding sent(2) using assms by (auto simp: client_ready_def client_inv_def completed.discard_order)
next
  case (acked a)
  let ?c = "discard_pending_ack (a_code a) c"
  have "set (completed_ack_order (remember_completed_ack a ?c)) \<subseteq> insert (a_code a) (set (completed_ack_order c))"
    using remembered_codes(2) [of a ?c] by simp
  moreover have "tracked CLIENT_COMPLETED_ACK_CAPACITY a_code
      (completed_ack_order (remember_completed_ack a ?c)) (completed_acks (remember_completed_ack a ?c))"
    using assms by (intro completed.remember_tracked) (simp add: client_ready_def client_inv_def)
  moreover have "tracked CLIENT_PENDING_ACK_CAPACITY ack_code (pending_ack_order ?c) (pending_acks ?c)"
    using assms by (intro pending.discard_tracked) (simp add: client_ready_def client_inv_def)
  ultimately show ?thesis
    unfolding acked(3) using assms by (auto simp: client_ready_def client_inv_def pending.discard_order)
next
  case other
  with assms show ?thesis by simp
qed

lemma retain_ready: "client_ready c \<Longrightarrow> client_ready (retain_sync_response p c)"
  by (cases rule: retain_cases [of p c]) (auto simp: client_ready_def client_inv_def)

lemma discard_inv:
  "client_inv c \<Longrightarrow> client_inv (discard_pending_ack k c)"
  "client_inv c \<Longrightarrow> client_inv (discard_completed_ack k c)"
  using pending.discard_tracked [of c k] completed.discard_tracked [of c k]
  by (auto simp: client_inv_def pending.discard_order completed.discard_order)

interpretation inv: session_calculus T x client_inv client_ready "\<lambda>_. client_ready" for T x
proof (unfold_locales, goal_cases)
  case (3 c limit r c')
  then show ?case
    by (auto simp: client_ready_def dest: read_next_packet_inv read_next_packet_connected)
next
  case (4 c r c')
  then show ?case
    by (auto simp: client_ready_def dest: try_next_packet_inv try_next_packet_connected)
next
  case (5 c payload w c')
  then show ?case by (auto simp: client_ready_def dest: write_raw_inv write_raw_connected)
next
  case 8
  then show ?case by (rule retain_ready)
next
  case 9
  then show ?case by (rule update_tracking_ready)
next
  case 13
  then show ?case by (rule update_tracking_ready)
qed (auto simp: client_ready_def discard_inv take_completed_ack_eq forget_ack_def mark_disconnected_inv,
     auto simp: client_inv_def clear_tracking_def clear_sync_tracking_def)

section \<open>The history of events\<close>

text \<open>The event stream is only ever extended, and the request timeout never changes.\<close>

definition extends_history :: "event list \<Rightarrow> duration \<Rightarrow> 't client \<Rightarrow> bool" where
  "extends_history es d c \<longleftrightarrow> prefix es (cl_events c) \<and> request_timeout c = d"

lemma mark_disconnected_history: "extends_history es d c \<Longrightarrow> extends_history es d (mark_disconnected c)"
  by (simp add: extends_history_def mark_disconnected_def clear_tracking_def clear_sync_tracking_def Let_def)

lemma transport_update_history [simp]: "extends_history es d (c\<lparr>cl_transport := t\<rparr>) = extends_history es d c"
  by (simp add: extends_history_def)

lemma parse_packet_history: "parse_packet x raw c = (r, c') \<Longrightarrow> extends_history es d c \<Longrightarrow> extends_history es d c'"
  by (simp add: extends_history_def parse_packet_frames)

lemma reads_history:
  "read_next_packet T x limit c = (r, c') \<Longrightarrow> extends_history es d c \<Longrightarrow> extends_history es d c'"
  "try_next_packet T x c = (q, c') \<Longrightarrow> extends_history es d c \<Longrightarrow> extends_history es d c'"
  "write_raw T payload c = (w, c') \<Longrightarrow> extends_history es d c \<Longrightarrow> extends_history es d c'"
  by (auto simp: read_next_packet_def try_next_packet_def write_raw_def dest: parse_packet_history
      intro!: mark_disconnected_history
      split: prod.splits polled.splits result.splits option.splits ready_read.splits if_splits)

lemma history_frames [simp]:
  "extends_history es d (update_tracking q c) = extends_history es d c"
  "extends_history es d (discard_pending_ack code c) = extends_history es d c"
  "extends_history es d (discard_completed_ack code c) = extends_history es d c"
  "extends_history es d (retain_sync_response q c) = extends_history es d c"
  "extends_history es d (c\<lparr>sync_state := s\<rparr>) = extends_history es d c"
  "extends_history es d (c\<lparr>deferred_sync := r\<rparr>) = extends_history es d c"
  "extends_history es d (c\<lparr>cl_connected := b\<rparr>) = extends_history es d c"
  "extends_history es d (clear_sync_tracking (clear_tracking c)) = extends_history es d c"
  by (simp_all add: extends_history_def clear_tracking_def clear_sync_tracking_def)

lemma emit_history: "extends_history es d c \<Longrightarrow> extends_history es d (emit e c)"
  by (simp add: extends_history_def)

interpretation history: session_calculus T x "extends_history es d" "extends_history es d"
    "\<lambda>_. extends_history es d" for T x es d
proof (unfold_locales, goal_cases)
  case (3 c limit r c')
  then show ?case by (simp add: reads_history)
next
  case (4 c r c')
  then show ?case by (simp add: reads_history)
next
  case (5 c payload w c')
  then show ?case by (simp add: reads_history)
qed (simp_all add: mark_disconnected_history emit_history take_completed_ack_eq forget_ack_def)

end
