(* ===== verification/Traffic.thy ===== *)
theory Traffic
  imports Session
begin

text \<open>
  What the client's operations do to the transport. \<open>follows sent script a\<close> says that the packets
  the action \<open>a\<close> writes are an initial part of \<open>script\<close>, and all of it when the action succeeds;
  \<open>returns a\<close> says that the action completes. Both are proved for every operation from the
  interfaces \<open>logged_transport\<close> and \<open>finite_transport\<close>.
\<close>

section \<open>Handlers do not touch the transport\<close>

lemma arm_transports [frames, simp]:
  "cl_transport (snd (returning f p l c)) = cl_transport c"
  "cl_transport (snd (msg_sent_arm track p u c)) = cl_transport c"
  "cl_transport (snd (packet_wait_reply ctxt g p c)) = cl_transport c"
  "cl_transport (snd (init_arm p u c)) = cl_transport c"
  "cl_transport (snd (contacts_arm p cs c)) = cl_transport c"
  "cl_transport (snd (sync_arm p u c)) = cl_transport c"
  "cl_transport (snd (drain_arm p c)) = cl_transport c"
  "cl_transport (snd (ack_arm code p u c)) = cl_transport c"
  by (simp_all add: returning_def msg_sent_arm_def packet_wait_reply_def init_arm_def contacts_arm_def
      sync_arm_def drain_arm_def ack_arm_def Let_def split: option.split packet.split packet_wait.split)

lemma mark_disconnected_transport [frames, simp]: "cl_transport (mark_disconnected c) = cl_transport c"
  by (simp add: mark_disconnected_def clear_tracking_def clear_sync_tracking_def Let_def)

lemma read_next_packet_transport:
  "cl_transport (snd (read_next_packet T x limit c)) = snd (t_read T limit (cl_transport c))"
  by (auto simp: read_next_packet_def dest: parse_packet_frames(1)
      split: prod.splits polled.splits result.splits option.splits)

lemma read_within_transport:
  "cl_transport (snd (read_within T x d c)) = snd (t_read T (Some d) (cl_transport c))"
  using read_next_packet_transport [of T x "Some d" c]
  by (auto simp: read_within_def split: prod.splits polled.splits)

lemma read_within_Ok:
  assumes "read_within T x d c = (Ok p, c')"
  shows "\<exists>raw. t_read T (Some d) (cl_transport c) = (Ready (Ok (Some raw)), cl_transport c')"
  using assms
  by (auto simp: read_within_def read_next_packet_def dest: parse_packet_frames(1)
      split: prod.splits polled.splits result.splits option.splits)

lemma try_next_packet_transport:
  "cl_transport (snd (try_next_packet T x c)) = snd (t_try_read T (cl_transport c))"
  by (auto simp: try_next_packet_def dest: parse_packet_frames(1)
      split: prod.splits result.splits ready_read.splits)

section \<open>Scripts\<close>

definition follows :: "('t \<Rightarrow> byte list list) \<Rightarrow> byte list list \<Rightarrow> ('t, 'r) action \<Rightarrow> bool" where
  "follows sent script a \<longleftrightarrow>
     (\<forall>c r c'. a c = Some (r, c') \<longrightarrow>
        (\<exists>ps. prefix ps script \<and> (\<forall>v. r = Ok v \<longrightarrow> ps = script) \<and>
           sent (cl_transport c') = sent (cl_transport c) @ ps))"

lemma followsI:
  "(\<And>c r c'. a c = Some (r, c') \<Longrightarrow>
      \<exists>ps. prefix ps script \<and> (\<forall>v. r = Ok v \<longrightarrow> ps = script) \<and>
        sent (cl_transport c') = sent (cl_transport c) @ ps) \<Longrightarrow> follows sent script a"
  by (simp add: follows_def)

lemma followsD:
  "follows sent script a \<Longrightarrow> a c = Some (r, c') \<Longrightarrow>
   \<exists>ps. prefix ps script \<and> (\<forall>v. r = Ok v \<longrightarrow> ps = script) \<and>
     sent (cl_transport c') = sent (cl_transport c) @ ps"
  by (simp add: follows_def)

lemma follows_bind:
  assumes "follows sent s1 a" and "\<And>v. follows sent s2 (k v)"
  shows "follows sent (s1 @ s2) (act_bind a k)"
proof (rule followsI)
  fix c r c'
  assume "act_bind a k c = Some (r, c')"
  then consider (ok) v c1 where "a c = Some (Ok v, c1)" "k v c1 = Some (r, c')"
    | (failed) r1 where "a c = Some (r1, c')" "\<And>v. r \<noteq> Ok v"
    by (auto simp: act_bind_eq_Some)
  then show "\<exists>ps. prefix ps (s1 @ s2) \<and> (\<forall>v. r = Ok v \<longrightarrow> ps = s1 @ s2) \<and>
      sent (cl_transport c') = sent (cl_transport c) @ ps"
  proof cases
    case ok
    from followsD [OF assms(1) ok(1)] have 1: "sent (cl_transport c1) = sent (cl_transport c) @ s1" by auto
    from followsD [OF assms(2) ok(2)] obtain ps where "prefix ps s2" "\<forall>v. r = Ok v \<longrightarrow> ps = s2"
        "sent (cl_transport c') = sent (cl_transport c1) @ ps" by auto
    with 1 show ?thesis by (intro exI [of _ "s1 @ ps"]) auto
  next
    case failed
    with followsD [OF assms(1) failed(1)] show ?thesis by (auto intro: prefix_append [THEN iffD2])
  qed
qed

lemma follows_bind_quiet: "follows sent [] a \<Longrightarrow> (\<And>v. follows sent s (k v)) \<Longrightarrow> follows sent s (act_bind a k)"
  using follows_bind [of sent "[]" a s k] by simp

lemma follows_bind_last: "follows sent s a \<Longrightarrow> (\<And>v. follows sent [] (k v)) \<Longrightarrow> follows sent s (act_bind a k)"
  using follows_bind [of sent s a "[]" k] by simp

text \<open>A command that fails to validate sends nothing.\<close>

lemma follows_of: "(\<And>v. r = Ok v \<Longrightarrow> follows sent s (k v)) \<Longrightarrow> follows sent s (act_bind (act_of r) k)"
  by (cases r) (auto simp: follows_def act_bind_def act_of_def)

lemma follows_act_of: "follows sent [] (act_of r)"
  by (simp add: follows_def act_of_def)

lemma follows_ensure: "follows sent [] ensure"
  by (simp add: follows_def ensure_def)

lemma follows_state: "(\<And>s. follows sent S (k s)) \<Longrightarrow> follows sent S (\<lambda>c. k (f c) c)"
  by (auto simp: follows_def)

fun command_script :: "command outcome \<Rightarrow> byte list list" where
  "command_script (Ok command) = [into_encoded command]"
| "command_script _ = []"

context logged_transport
begin

lemma follows_recv_loop:
  assumes "\<And>p l c. cl_transport (snd (handler p l c)) = cl_transport c"
  shows "follows sent [] (recv_loop ops x budget handler l)"
proof (rule followsI)
  fix c r c'
  assume loop: "recv_loop ops x budget handler l c = Some (r, c')"
  have read: "read_within ops x d c1 = (q, c2) \<Longrightarrow> sent (cl_transport c2) = sent (cl_transport c1)"
    for d q c1 c2
    using read_logs [of "Some d" "cl_transport c1"] read_within_transport [of ops x d c1] by simp
  have arm: "handler p l c1 = (q, c2) \<Longrightarrow> cl_transport c2 = cl_transport c1" for p l q c1 c2
    using assms [of p l c1] by simp
  from loop have "sent (cl_transport c') = sent (cl_transport c)"
    by (rule recv_loop_rule [where L = "\<lambda>_ c'. sent (cl_transport c') = sent (cl_transport c)"])
      (use read arm in \<open>force+\<close>)
  then show "\<exists>ps. prefix ps [] \<and> (\<forall>v. r = Ok v \<longrightarrow> ps = []) \<and>
      sent (cl_transport c') = sent (cl_transport c) @ ps" by simp
qed

lemma follows_await:
  assumes "\<And>p l c. cl_transport (snd (handler p l c)) = cl_transport c"
  shows "follows sent [] (await_reply ops x handler l)"
    and "follows sent [] (await_until ops x d handler l)"
  using follows_recv_loop [where handler = handler, OF assms] unfolding follows_def await_reply_def await_until_def Let_def
  by blast+

lemma write_raw_logs:
  assumes "write_raw ops payload c = (r, c')"
  shows "sent (cl_transport c') = sent (cl_transport c) @ [payload] \<or>
    (sent (cl_transport c') = sent (cl_transport c) \<and> (\<forall>v. r \<noteq> Ok v))"
proof (cases "t_write ops payload (cl_transport c)")
  case (Pair r t)
  with write_logs [OF Pair] assms show ?thesis
    by (auto simp: write_raw_def split: if_splits result.splits)
qed

lemma follows_send_encoded: "follows sent [into_encoded command] (send_encoded ops command)"
  by (rule followsI)
    (auto simp: send_encoded_def send_raw_def dest!: write_raw_logs split: if_splits result.splits)

lemma follows_send_only: "follows sent [into_encoded command] (send_only ops command)"
  unfolding send_only_def by (rule follows_bind_quiet [OF follows_ensure follows_send_encoded])

lemma follows_exchange:
  assumes "\<And>p l c. cl_transport (snd (handler p l c)) = cl_transport c"
  shows "follows sent [into_encoded command] (act_bind ensure (\<lambda>_. act_bind (send_encoded ops command)
      (\<lambda>_. await_reply ops x handler l)))"
    and "follows sent [into_encoded command] (act_bind ensure (\<lambda>_. act_bind (send_only ops command)
      (\<lambda>_. await_reply ops x handler l)))"
  by (intro follows_bind_quiet [OF follows_ensure] follows_bind_last [OF follows_send_encoded]
      follows_bind_last [OF follows_send_only] follows_await assms)+

lemma follows_expect:
  "follows sent [into_encoded command] (send_command_expect_ok ops x command)"
  "follows sent [into_encoded command] (send_command_expect ops x command ctxt f)"
  "follows sent [into_encoded command] (send_command_expect_msg_sent ops x command)"
  "follows sent [into_encoded command] (send_command_expect_msg_sent_untracked ops x command)"
  unfolding send_command_expect_ok_def send_command_expect_def send_command_expect_msg_sent_def
    send_command_expect_msg_sent_untracked_def send_command_expect_msg_sent_inner_def
  by (rule follows_exchange, simp)+

lemma follows_command:
  "(\<And>command. follows sent [into_encoded command] (k command)) \<Longrightarrow>
   follows sent (command_script r) (act_bind (act_of r) k)"
  by (cases r) (auto intro!: follows_of)

lemma follows_expect_ok_of: "follows sent (command_script command) (expect_ok_of ops x command)"
  unfolding expect_ok_of_def by (rule follows_command) (rule follows_expect)

lemma follows_remote_request: "follows sent (command_script command) (remote_request ops x command ctxt f)"
  unfolding remote_request_def wait_for_packet_def
  by (intro follows_command follows_bind_last [OF follows_expect(4)])
    (rule follows_state [where k = "\<lambda>d. await_until ops x d _ ()", OF follows_await(2)], simp)

lemma follows_settings:
    "follows sent [into_encoded (cmd_set_time v)] (op_set_time ops x v)"
    "follows sent [into_encoded (cmd_send_self_advert flood)] (op_send_self_advert ops x flood)"
    "follows sent (command_script (cmd_set_advert_name name)) (op_set_advert_name ops x name)"
    "follows sent (command_script (cmd_set_coordinates latitude longitude)) (op_set_coordinates ops x latitude longitude)"
    "follows sent (command_script (cmd_set_tx_power power_dbm)) (op_set_tx_power ops x power_dbm)"
    "follows sent (command_script (cmd_set_radio_params params)) (op_set_radio_params ops x params)"
    "follows sent [into_encoded (cmd_set_tuning params')] (op_set_tuning ops x params')"
    "follows sent (command_script (cmd_reset_path public_key)) (op_reset_path ops x public_key)"
    "follows sent (command_script (cmd_update_contact contact)) (op_update_contact ops x contact)"
    "follows sent (command_script (cmd_share_contact public_key)) (op_share_contact ops x public_key)"
    "follows sent (command_script (cmd_import_contact card_data)) (op_import_contact ops x card_data)"
    "follows sent (command_script (cmd_set_auto_add_config config)) (op_set_auto_add_config ops x config)"
    "follows sent (command_script (cmd_set_custom_var key' v')) (op_set_custom_var ops x key' v')"
    "follows sent (command_script (cmd_set_path_hash_mode mode)) (op_set_path_hash_mode ops x mode)"
    "follows sent [into_encoded (cmd_set_flood_scope scope)] (op_set_flood_scope ops x scope)"
    "follows sent (command_script (cmd_set_default_flood_scope name key)) (op_set_default_flood_scope ops x name key)"
    "follows sent [into_encoded cmd_clear_default_flood_scope] (op_clear_default_flood_scope ops x)"
    "follows sent (command_script (cmd_set_channel i name secret)) (op_set_channel ops x i name secret)"
    "follows sent [into_encoded (cmd_clear_channel i)] (op_clear_channel ops x i)"
    "follows sent (command_script (cmd_remove_contact public_key)) (op_remove_contact ops x public_key)"
    "follows sent (command_script (cmd_logout public_key)) (op_logout ops x public_key)"
    "follows sent (command_script (cmd_send_node_discovery type_filter prefix_only tag since)) (op_send_node_discovery ops x type_filter prefix_only tag since)"
    "follows sent (command_script (cmd_set_device_pin pin)) (op_set_device_pin ops x pin)"
  unfolding op_set_time_def op_send_self_advert_def op_set_advert_name_def op_set_coordinates_def
      op_set_tx_power_def op_set_radio_params_def op_set_tuning_def op_reset_path_def
      op_update_contact_def op_share_contact_def op_import_contact_def
      op_set_auto_add_config_def op_set_custom_var_def op_set_path_hash_mode_def
      op_set_flood_scope_def op_set_default_flood_scope_def op_clear_default_flood_scope_def
      op_set_channel_def op_clear_channel_def op_remove_contact_def op_logout_def
      op_send_node_discovery_def op_set_device_pin_def
  by (rule follows_expect_ok_of follows_expect(1))+

lemma follows_queries:
    "follows sent [into_encoded cmd_device_query] (op_query_device_info ops x)"
    "follows sent [into_encoded cmd_get_time] (op_get_time ops x)"
    "follows sent [into_encoded cmd_get_battery] (op_get_battery ops x)"
    "follows sent [into_encoded cmd_get_tuning] (op_get_tuning ops x)"
    "follows sent (command_script (cmd_export_contact public_key')) (op_export_contact ops x public_key')"
    "follows sent (command_script (cmd_get_contact public_key)) (op_get_contact ops x public_key)"
    "follows sent (command_script (cmd_get_advert_path public_key)) (op_get_advert_path ops x public_key)"
    "follows sent [into_encoded cmd_get_auto_add_config] (op_get_auto_add_config ops x)"
    "follows sent [into_encoded cmd_get_custom_vars] (op_get_custom_vars ops x)"
    "follows sent [into_encoded (cmd_get_stats stats_type)] (op_get_stats ops x stats_type)"
    "follows sent [into_encoded cmd_get_allowed_repeat_frequencies] (op_get_allowed_repeat_frequencies ops x)"
    "follows sent [into_encoded cmd_get_default_flood_scope] (op_get_default_flood_scope ops x)"
    "follows sent [into_encoded (cmd_get_channel i)] (op_get_channel ops x i)"
    "follows sent [into_encoded cmd_get_self_telemetry] (op_get_self_telemetry ops x)"
  unfolding op_query_device_info_def op_get_time_def op_get_battery_def op_get_tuning_def
      op_export_contact_def op_get_contact_def op_get_advert_path_def
      op_get_auto_add_config_def op_get_custom_vars_def op_get_stats_def
      op_get_allowed_repeat_frequencies_def op_get_default_flood_scope_def op_get_channel_def
      op_get_self_telemetry_def
  by (rule follows_expect follows_command [OF follows_expect(2)] follows_exchange(2) [OF arm_transports(1)])+

lemma follows_remote_operations:
    "follows sent (command_script (cmd_send_login public_key password)) (op_login ops x public_key password)"
    "follows sent (command_script (cmd_send_status_request public_key)) (op_remote_status ops x public_key)"
    "follows sent (command_script (cmd_send_binary_request public_key request_type data)) (op_binary_request ops x public_key request_type data)"
    "follows sent (command_script (cmd_send_anonymous_request public_key request_type reply_route reply_path)) (op_anonymous_request ops x public_key request_type reply_route reply_path)"
    "follows sent (command_script (cmd_discover_path public_key)) (op_discover_path ops x public_key)"
  unfolding op_login_def op_remote_status_def op_binary_request_def op_anonymous_request_def
      op_discover_path_def
  by ((rule follows_of)?, rule follows_remote_request)+

lemma follows_sign_chunks: "follows sent (concat (map (command_script \<circ> cmd_sign_data) cs)) (sign_chunks ops x cs)"
  by (induction cs) (auto intro: follows_act_of follows_bind follows_expect_ok_of)

lemma close_with_logs: "sent (cl_transport (snd (close_with ops r c))) = sent (cl_transport c)"
  using disconnect_logs [of "cl_transport c"]
  by (auto simp: close_with_def split: prod.splits result.splits)

lemma follows_close: "follows sent [] (\<lambda>c. Some (close_with ops r c))"
  by (rule followsI) (use close_with_logs [of r] in \<open>auto simp: prod_eq_iff\<close>)

lemma follows_disconnect_command: "follows sent [into_encoded command] (send_disconnect_command ops command)"
  unfolding send_disconnect_command_def
  by (intro follows_bind_quiet [OF follows_ensure] follows_bind_last [OF follows_send_encoded] follows_close)

text \<open>The packets of a signing session.\<close>

lemma follows_sign:
  "follows sent
     ([into_encoded cmd_sign_start] @
      concat (map (command_script \<circ> cmd_sign_data) (chunks SIGNING_CHUNK_BYTES data)) @
      [into_encoded cmd_sign_finish])
     (op_sign ops x data)"
proof -
  let ?s = "concat (map (command_script \<circ> cmd_sign_data) (chunks SIGNING_CHUNK_BYTES data)) @
    [into_encoded cmd_sign_finish]"
  have "follows sent ?s (act_bind (sign_chunks ops x (chunks SIGNING_CHUNK_BYTES data)) (\<lambda>_.
      send_command_expect ops x cmd_sign_finish ctxt signature_of))" for ctxt
    by (rule follows_bind [OF follows_sign_chunks follows_expect(2)])
  moreover have "follows sent ?s (act_of (Err e) :: (_, signature) action)" for e
    by (simp add: follows_def act_of_def)
  ultimately show ?thesis
    unfolding op_sign_def by (intro follows_bind [OF follows_expect(2)]) (simp only: split: if_split, blast)
qed

lemma follows_composite_operations:
    "follows sent [into_encoded (cmd_get_contacts lastmod)] (op_list_contacts ops x lastmod)"
    "follows sent [into_encoded (cmd_get_contacts lastmod)] (op_list_contacts_snapshot ops x lastmod)"
    "follows sent [into_encoded cmd_device_query] (op_get_path_hash_mode ops x)"
    "follows sent (command_script (cmd_has_connection public_key)) (op_has_connection ops x public_key)"
    "follows sent [into_encoded cmd_export_private_key] (op_export_private_key ops x)"
    "follows sent [into_encoded (cmd_import_private_key key)] (op_import_private_key ops x key)"
    "follows sent [into_encoded (cmd_send_direct_text dest (timestamp_of now) attempt txt_bytes)]
       (op_send_direct_text ops x now dest attempt txt_bytes)"
    "follows sent [into_encoded (cmd_send_direct_command dest (timestamp_of now) attempt txt_bytes)]
       (op_send_direct_command ops x now dest attempt txt_bytes)"
    "follows sent [into_encoded (cmd_send_channel chan ty (timestamp_of now) txt_bytes)]
       (op_send_channel_message ops x now chan ty txt_bytes)"
    "follows sent [into_encoded cmd_reboot] (op_reboot ops)"
    "follows sent [into_encoded cmd_factory_reset] (op_factory_reset ops)"
proof -
  have "follows sent [into_encoded (cmd_get_contacts lastmod)] (collect_contacts ops x lastmod)"
    unfolding collect_contacts_def by (rule follows_exchange) simp
  then show "follows sent [into_encoded (cmd_get_contacts lastmod)] (op_list_contacts ops x lastmod)"
    "follows sent [into_encoded (cmd_get_contacts lastmod)] (op_list_contacts_snapshot ops x lastmod)"
    unfolding op_list_contacts_def op_list_contacts_snapshot_def
    by (auto intro: follows_bind_last follows_act_of)
  show "follows sent [into_encoded cmd_device_query] (op_get_path_hash_mode ops x)"
    unfolding op_get_path_hash_mode_def by (rule follows_bind_last [OF follows_queries(1) follows_act_of])
  show "follows sent (command_script (cmd_has_connection public_key)) (op_has_connection ops x public_key)"
    unfolding op_has_connection_def
    by (intro follows_bind_quiet [OF follows_ensure] follows_command
        follows_bind_last [OF follows_send_encoded] follows_await) simp
  show "follows sent [into_encoded cmd_export_private_key] (op_export_private_key ops x)"
    "follows sent [into_encoded (cmd_import_private_key key)] (op_import_private_key ops x key)"
    unfolding op_export_private_key_def op_import_private_key_def
    by (rule follows_exchange, simp)+
  show "follows sent [into_encoded (cmd_send_direct_text dest (timestamp_of now) attempt txt_bytes)]
       (op_send_direct_text ops x now dest attempt txt_bytes)"
    "follows sent [into_encoded (cmd_send_direct_command dest (timestamp_of now) attempt txt_bytes)]
       (op_send_direct_command ops x now dest attempt txt_bytes)"
    "follows sent [into_encoded (cmd_send_channel chan ty (timestamp_of now) txt_bytes)]
       (op_send_channel_message ops x now chan ty txt_bytes)"
    unfolding op_send_direct_text_def op_send_direct_command_def op_send_channel_message_def
    by (intro follows_of follows_expect)+
  show "follows sent [into_encoded cmd_reboot] (op_reboot ops)"
    "follows sent [into_encoded cmd_factory_reset] (op_factory_reset ops)"
    unfolding op_reboot_def op_factory_reset_def by (rule follows_disconnect_command)+
qed

lemma follows_init: "follows sent [into_encoded cmd_app_start] (op_init ops x)"
  unfolding op_init_def by (rule follows_exchange) simp

lemma follows_start_session: "follows sent [into_encoded cmd_app_start] (start_session ops x)"
proof (rule followsI)
  fix c r c'
  assume start: "start_session ops x c = Some (r, c')"
  then obtain r1 c1 where init: "op_init ops x (c\<lparr>cl_connected := True\<rparr>) = Some (r1, c1)"
    by (auto simp: start_session_def split: option.splits)
  from start init have "sent (cl_transport c') = sent (cl_transport c1)" "\<forall>v. r = Ok v \<longrightarrow> r1 = Ok v"
    using close_with_logs [of r1 c1]
    by (auto simp: start_session_def close_with_def split: result.splits prod.splits)
  with followsD [OF follows_init init] show "\<exists>ps. prefix ps [into_encoded cmd_app_start] \<and>
      (\<forall>v. r = Ok v \<longrightarrow> ps = [into_encoded cmd_app_start]) \<and>
      sent (cl_transport c') = sent (cl_transport c) @ ps" by auto
qed

lemma follows_open: "(\<And>t. sent (snd (f t)) = sent t) \<Longrightarrow> follows sent [] (open_with f)"
  by (rule followsI) (auto simp: open_with_def split: prod.splits, metis snd_conv)

lemma clear_transport [simp]: "cl_transport (clear_sync_tracking (clear_tracking c)) = cl_transport c"
  by (simp add: clear_tracking_def clear_sync_tracking_def)

lemma follows_connections:
  "follows sent [into_encoded cmd_app_start] (op_connect ops x)"
  "follows sent [into_encoded cmd_app_start] (op_reconnect ops x)"
  "follows sent [] (op_disconnect ops)"
proof -
  let ?s = "[into_encoded cmd_app_start]"
  have "follows sent ?s (act_bind (open_with (t_connect ops)) (\<lambda>_. start_session ops x))"
    by (intro follows_bind_quiet [OF follows_open] follows_start_session connect_logs)
  then show "follows sent ?s (op_connect ops x)"
    unfolding follows_def op_connect_def by (metis clear_transport)
  have "follows sent ?s (act_bind (open_with (t_reconnect ops)) (\<lambda>_. start_session ops x))"
    by (intro follows_bind_quiet [OF follows_open] follows_start_session reconnect_logs)
  then show "follows sent ?s (op_reconnect ops x)"
    unfolding follows_def op_reconnect_def by (metis mark_disconnected_transport)
  show "follows sent [] (op_disconnect ops)"
  proof (rule followsI)
    fix c r c'
    assume "op_disconnect ops c = Some (r, c')"
    with disconnect_logs [of "cl_transport c"] show "\<exists>ps. prefix ps [] \<and> (\<forall>v. r = Ok v \<longrightarrow> ps = []) \<and>
        sent (cl_transport c') = sent (cl_transport c) @ ps"
      by (auto simp: op_disconnect_def split: prod.splits result.splits)
  qed
qed

lemma follows_next_event: "follows sent [] (op_next_event ops x)"
proof -
  have "follows sent [] (next_packet ops x)"
  proof (rule followsI)
    fix c r c'
    assume "next_packet ops x c = Some (r, c')"
    then have "read_next_packet ops x None c = (Ready r, c')"
      by (auto simp: next_packet_def split: prod.splits polled.splits)
    then show "\<exists>ps. prefix ps [] \<and> (\<forall>v. r = Ok v \<longrightarrow> ps = []) \<and>
        sent (cl_transport c') = sent (cl_transport c) @ ps"
      using read_next_packet_transport [of ops x None c] read_logs [of None "cl_transport c"] by simp
  qed
  moreover have "follows sent [] (publish_idle p)" for p
    by (rule followsI) (auto simp: publish_idle_def Let_def split: option.splits)
  ultimately show ?thesis
    unfolding op_next_event_def by (intro follows_bind_quiet [OF follows_ensure] follows_bind_quiet)
qed

lemma try_next_packet_logs:
  "try_next_packet ops x c = (r, c') \<Longrightarrow> sent (cl_transport c') = sent (cl_transport c)"
  using try_next_packet_transport [of ops x c] try_read_logs [of "cl_transport c"] by simp

lemma drain_arm_transport: "drain_arm p c = (q, c') \<Longrightarrow> cl_transport c' = cl_transport c"
  using arm_transports(7) [of p c] by simp

lemma drain_loop_logs: "sent (cl_transport (snd (drain_loop ops x n c))) = sent (cl_transport c)"
proof (induction n arbitrary: c)
  case 0
  show ?case
    by (subst drain_loop.simps)
      (auto dest!: try_next_packet_logs drain_arm_transport split: prod.splits result.splits option.splits)
next
  case (Suc n)
  then show ?case
    unfolding drain_loop.simps [of ops x "Suc n"]
    by (auto dest!: try_next_packet_logs drain_arm_transport split: prod.splits result.splits option.splits)
qed

lemma follows_wait_for_ack: "follows sent [] (op_wait_for_ack ops x code requested)"
proof -
  have "follows sent [] (await_ack ops x code d)" for d
    using follows_await(2) [where handler = "ack_arm code" and l = "()" and d = d and x = x]
    unfolding follows_def await_ack_def forget_ack_def
    by (fastforce split: option.splits result.splits)
  then have "follows sent [] (\<lambda>c. case take_completed_ack code c of
         (Some a, c') \<Rightarrow> Some (Ok a, c')
       | (None, c') \<Rightarrow>
           await_ack ops x code (case requested of Some d \<Rightarrow> d | None \<Rightarrow> request_timeout c') c')"
    by (fastforce simp: follows_def take_completed_ack_eq split: option.splits if_splits)
  then show ?thesis
    unfolding op_wait_for_ack_def
    by (intro follows_of follows_bind_quiet [OF follows_ensure])
qed

text \<open>
  An inbox synchronisation answers from what was already received, or writes its command once.
\<close>

lemma sync_logs:
  assumes "op_sync_next_message ops x c = Some (r, c')"
  shows "\<exists>ps. prefix ps [into_encoded cmd_sync_next_message] \<and>
    sent (cl_transport c') = sent (cl_transport c) @ ps"
proof -
  let ?cmd = "into_encoded cmd_sync_next_message"
  have wait: "follows sent [] (wait_for_sync_response ops x)"
    unfolding wait_for_sync_response_def by (rule follows_await) simp
  have "follows sent [?cmd] (\<lambda>c. Some (write_raw ops ?cmd c))"
    by (rule followsI) (auto dest!: write_raw_logs split: result.splits)
  from follows_bind_last [OF this wait]
  have send: "follows sent [?cmd] (act_bind (\<lambda>c. Some (write_raw ops ?cmd c)) (\<lambda>_. wait_for_sync_response ops x))" .
  have request: "\<exists>ps. prefix ps [?cmd] \<and> sent (cl_transport c2) = sent (cl_transport c1) @ ps"
    if "request_sync ops x c1 = Some (q, c2)" for c1 q c2
    using that followsD [OF wait, of c1 q c2] followsD [OF send, of "c1\<lparr>sync_state := AwaitingResponse\<rparr>" q c2]
    by (auto simp: request_sync_def split: if_splits)
  from assms consider "cl_transport c' = cl_transport c"
    | c1 where "sent (cl_transport c1) = sent (cl_transport c)" "c' = c1 \<or> request_sync ops x c1 = Some (r, c')"
    using drain_loop_logs [of x CLIENT_SYNC_READY_DRAIN_CAPACITY c]
    by (fastforce simp: op_sync_next_message_def act_bind_eq_Some ensure_def act_of_def
        drain_ready_packets_before_sync_def split: option.splits)
  then show ?thesis using request by cases (auto, fastforce)
qed

end

section \<open>Termination\<close>

text \<open>An action that completes from every state.\<close>

definition returns :: "('t, 'r) action \<Rightarrow> bool" where
  "returns a \<longleftrightarrow> (\<forall>c. a c \<noteq> None)"

lemma returns_bind: "returns a \<Longrightarrow> (\<And>v. returns (k v)) \<Longrightarrow> returns (act_bind a k)"
  by (auto simp: returns_def act_bind_def split: option.split result.split)

lemma returns_Some: "returns (\<lambda>c. Some (f c))" "returns (act_of r)" "returns ensure"
    "returns (send_encoded T command)" "returns (send_only T command)"
  by (auto simp: returns_def act_of_def ensure_def send_encoded_def send_only_def act_bind_def
      split: option.split result.split)

lemma returns_state: "(\<And>s. returns (k s)) \<Longrightarrow> returns (\<lambda>c. k (f c) c)"
  by (auto simp: returns_def)

context finite_transport
begin

lemma recv_loop_returns:
  assumes "\<And>p l c. cl_transport (snd (handler p l c)) = cl_transport c"
  shows "recv_loop ops x budget handler l c \<noteq> None"
proof (induction "backlog (cl_transport c)" arbitrary: l c rule: less_induct)
  case less
  show ?case
  proof (cases "read_within ops x (budget c) c")
    case (Pair r c1)
    show ?thesis
    proof (cases r)
      case (Ok p)
      with Pair read_within_Ok read_consumes have "backlog (cl_transport c1) < backlog (cl_transport c)" by blast
      moreover obtain q c2 where h: "handler p l c1 = (q, c2)" by fastforce
      with assms [of p l c1] have "cl_transport c2 = cl_transport c1" by simp
      ultimately have "recv_loop ops x budget handler l' c2 \<noteq> None" for l' using less by simp
      with Pair Ok h show ?thesis by (subst recv_loop.simps) (auto split: sum.splits)
    qed (subst recv_loop.simps, simp add: Pair)+
  qed
qed

lemma returns_await:
  assumes "\<And>p l c. cl_transport (snd (handler p l c)) = cl_transport c"
  shows "returns (await_reply ops x handler l)" and "returns (await_until ops x d handler l)"
  using recv_loop_returns [where handler = handler, OF assms]
  unfolding returns_def await_reply_def await_until_def Let_def by blast+

lemma returns_exchange:
  assumes "\<And>p l c. cl_transport (snd (handler p l c)) = cl_transport c"
  shows "returns (act_bind ensure (\<lambda>_. act_bind (send_encoded ops command) (\<lambda>_. await_reply ops x handler l)))"
    and "returns (act_bind ensure (\<lambda>_. act_bind (send_only ops command) (\<lambda>_. await_reply ops x handler l)))"
  by (intro returns_bind returns_Some returns_await assms)+

lemma returns_expect:
  "returns (send_command_expect_ok ops x command)"
  "returns (send_command_expect ops x command ctxt f)"
  "returns (send_command_expect_msg_sent ops x command)"
  "returns (send_command_expect_msg_sent_untracked ops x command)"
  unfolding send_command_expect_ok_def send_command_expect_def send_command_expect_msg_sent_def
    send_command_expect_msg_sent_untracked_def send_command_expect_msg_sent_inner_def
  by (rule returns_exchange, simp)+

lemma returns_of: "(\<And>v. returns (k v)) \<Longrightarrow> returns (act_bind (act_of r) k)"
  by (rule returns_bind [OF returns_Some(2)])

lemma returns_expect_ok_of: "returns (expect_ok_of ops x command)"
  unfolding expect_ok_of_def by (intro returns_of returns_expect)

lemma returns_remote_request: "returns (remote_request ops x command ctxt f)"
  unfolding remote_request_def wait_for_packet_def
  by (intro returns_of returns_bind [OF returns_expect(4)])
    (rule returns_state [where k = "\<lambda>d. await_until ops x d _ ()", OF returns_await(2)], simp)

lemma returns_settings:
    "returns (op_set_time ops x v)"
    "returns (op_send_self_advert ops x flood)"
    "returns (op_set_advert_name ops x name)"
    "returns (op_set_coordinates ops x latitude longitude)"
    "returns (op_set_tx_power ops x power_dbm)"
    "returns (op_set_radio_params ops x params)"
    "returns (op_set_tuning ops x params')"
    "returns (op_reset_path ops x public_key)"
    "returns (op_update_contact ops x contact)"
    "returns (op_share_contact ops x public_key)"
    "returns (op_import_contact ops x card_data)"
    "returns (op_set_auto_add_config ops x config)"
    "returns (op_set_custom_var ops x key' v')"
    "returns (op_set_path_hash_mode ops x mode)"
    "returns (op_set_flood_scope ops x scope)"
    "returns (op_set_default_flood_scope ops x name key)"
    "returns (op_clear_default_flood_scope ops x)"
    "returns (op_set_channel ops x i name secret)"
    "returns (op_clear_channel ops x i)"
    "returns (op_remove_contact ops x public_key)"
    "returns (op_logout ops x public_key)"
    "returns (op_send_node_discovery ops x type_filter prefix_only tag since)"
    "returns (op_set_device_pin ops x pin)"
  unfolding op_set_time_def op_send_self_advert_def op_set_advert_name_def op_set_coordinates_def
      op_set_tx_power_def op_set_radio_params_def op_set_tuning_def op_reset_path_def
      op_update_contact_def op_share_contact_def op_import_contact_def
      op_set_auto_add_config_def op_set_custom_var_def op_set_path_hash_mode_def
      op_set_flood_scope_def op_set_default_flood_scope_def op_clear_default_flood_scope_def
      op_set_channel_def op_clear_channel_def op_remove_contact_def op_logout_def
      op_send_node_discovery_def op_set_device_pin_def
  by (rule returns_expect_ok_of returns_expect(1))+

lemma returns_queries:
    "returns (op_query_device_info ops x)"
    "returns (op_get_time ops x)"
    "returns (op_get_battery ops x)"
    "returns (op_get_tuning ops x)"
    "returns (op_export_contact ops x public_key')"
    "returns (op_get_contact ops x public_key)"
    "returns (op_get_advert_path ops x public_key)"
    "returns (op_get_auto_add_config ops x)"
    "returns (op_get_custom_vars ops x)"
    "returns (op_get_stats ops x stats_type)"
    "returns (op_get_allowed_repeat_frequencies ops x)"
    "returns (op_get_default_flood_scope ops x)"
    "returns (op_get_channel ops x i)"
    "returns (op_get_self_telemetry ops x)"
  unfolding op_query_device_info_def op_get_time_def op_get_battery_def op_get_tuning_def
      op_export_contact_def op_get_contact_def op_get_advert_path_def
      op_get_auto_add_config_def op_get_custom_vars_def op_get_stats_def
      op_get_allowed_repeat_frequencies_def op_get_default_flood_scope_def op_get_channel_def
      op_get_self_telemetry_def
  by (rule returns_expect returns_of [OF returns_expect(2)] returns_exchange(2) [OF arm_transports(1)])+

lemma returns_remote_operations:
    "returns (op_login ops x public_key password)"
    "returns (op_remote_status ops x public_key)"
    "returns (op_binary_request ops x public_key request_type data)"
    "returns (op_anonymous_request ops x public_key request_type reply_route reply_path)"
    "returns (op_discover_path ops x public_key)"
  unfolding op_login_def op_remote_status_def op_binary_request_def op_anonymous_request_def
      op_discover_path_def
  by ((rule returns_of)?, rule returns_remote_request)+

lemma returns_sign_chunks: "returns (sign_chunks ops x cs)"
  by (induction cs) (auto intro: returns_Some returns_bind returns_expect_ok_of)

lemma returns_composite_operations:
    "returns (op_list_contacts ops x lastmod)"
    "returns (op_list_contacts_snapshot ops x lastmod)"
    "returns (op_get_path_hash_mode ops x)"
    "returns (op_has_connection ops x public_key)"
    "returns (op_sign ops x data)"
    "returns (op_export_private_key ops x)"
    "returns (op_import_private_key ops x key)"
    "returns (op_send_direct_text ops x now dest attempt txt_bytes)"
    "returns (op_send_direct_command ops x now dest attempt txt_bytes)"
    "returns (op_send_channel_message ops x now chan ty txt_bytes)"
    "returns (op_reboot ops)" "returns (op_factory_reset ops)"
proof -
  have "returns (collect_contacts ops x lastmod)"
    unfolding collect_contacts_def by (rule returns_exchange) simp
  then show "returns (op_list_contacts ops x lastmod)" "returns (op_list_contacts_snapshot ops x lastmod)"
    unfolding op_list_contacts_def op_list_contacts_snapshot_def by (auto intro: returns_bind returns_Some)
  show "returns (op_get_path_hash_mode ops x)"
    unfolding op_get_path_hash_mode_def by (rule returns_bind [OF returns_queries(1) returns_Some(2)])
  show "returns (op_has_connection ops x public_key)"
    unfolding op_has_connection_def by (intro returns_bind returns_Some returns_await) simp
  show "returns (op_sign ops x data)"
    unfolding op_sign_def
    by (intro returns_bind [OF returns_expect(2)])
      (auto intro: returns_Some returns_bind returns_sign_chunks returns_expect simp del: append.simps)
  show "returns (op_export_private_key ops x)" "returns (op_import_private_key ops x key)"
    unfolding op_export_private_key_def op_import_private_key_def by (rule returns_exchange, simp)+
  show "returns (op_send_direct_text ops x now dest attempt txt_bytes)"
    "returns (op_send_direct_command ops x now dest attempt txt_bytes)"
    "returns (op_send_channel_message ops x now chan ty txt_bytes)"
    unfolding op_send_direct_text_def op_send_direct_command_def op_send_channel_message_def
    by (intro returns_of returns_expect)+
  show "returns (op_reboot ops)" "returns (op_factory_reset ops)"
    unfolding op_reboot_def op_factory_reset_def send_disconnect_command_def
    by (intro returns_bind returns_Some)+
qed

lemma returns_connections: "returns (op_connect ops x)" "returns (op_reconnect ops x)" "returns (op_disconnect ops)"
proof -
  have "returns (op_init ops x)"
    unfolding op_init_def by (rule returns_exchange) simp
  then have start: "returns (start_session ops x)"
    by (auto simp: returns_def start_session_def split: option.splits result.splits)
  have open': "returns (open_with f)" for f
    by (simp add: returns_def open_with_def split: prod.split)
  from returns_bind [OF open' start] show "returns (op_connect ops x)" "returns (op_reconnect ops x)"
    unfolding returns_def op_connect_def op_reconnect_def by blast+
  show "returns (op_disconnect ops)"
    by (simp add: returns_def op_disconnect_def split: prod.split result.split)
qed

lemma returns_sync: "returns (op_sync_next_message ops x)"
proof -
  have wait: "returns (wait_for_sync_response ops x)"
    unfolding wait_for_sync_response_def by (rule returns_await) simp
  from returns_bind [OF returns_Some(1) wait] wait have "returns (request_sync ops x)"
    by (auto simp: returns_def request_sync_def)
  then have "returns (act_bind (drain_ready_packets_before_sync ops x) (\<lambda>ready.
      case ready of Some r \<Rightarrow> act_of (ready_sync_result r) | None \<Rightarrow> request_sync ops x))"
    by (intro returns_bind)
      (auto simp: drain_ready_packets_before_sync_def returns_def act_of_def split: option.split)
  then show ?thesis
    unfolding op_sync_next_message_def
    by (intro returns_bind [OF returns_Some(3)]) (auto simp: returns_def split: option.split)
qed

lemma returns_wait_for_ack: "returns (op_wait_for_ack ops x code requested)"
proof -
  have "returns (await_ack ops x code d)" for d
    using returns_await(2) [where handler = "ack_arm code" and l = "()" and d = d and x = x]
    by (auto simp: returns_def await_ack_def split: option.splits result.splits)
  then have "returns (\<lambda>c. case take_completed_ack code c of
         (Some a, c') \<Rightarrow> Some (Ok a, c')
       | (None, c') \<Rightarrow>
           await_ack ops x code (case requested of Some d \<Rightarrow> d | None \<Rightarrow> request_timeout c') c')"
    by (auto simp: returns_def split: prod.split option.split)
  then show ?thesis
    unfolding op_wait_for_ack_def by (intro returns_of returns_bind [OF returns_Some(3)])
qed

end

section \<open>Absence of panics\<close>

definition calm :: "('t, 'r) action \<Rightarrow> bool" where
  "calm a \<longleftrightarrow> (\<forall>c c'. a c \<noteq> Some (Panic, c'))"

lemma calm_bind: "calm a \<Longrightarrow> (\<And>v. calm (k v)) \<Longrightarrow> calm (act_bind a k)"
  by (auto simp: calm_def act_bind_eq_Some)

lemma calm_of: "r \<noteq> Panic \<Longrightarrow> (\<And>v. calm (k v)) \<Longrightarrow> calm (act_bind (act_of r) k)"
  by (rule calm_bind) (simp_all add: calm_def act_of_def)

lemma calm_act_of: "r \<noteq> Panic \<Longrightarrow> calm (act_of r)"
  by (simp add: calm_def act_of_def)

lemma calm_ensure: "calm ensure"
  by (simp add: calm_def ensure_def ensure_connected_def)

lemma calm_state: "(\<And>s. calm (k s)) \<Longrightarrow> calm (\<lambda>c. k (f c) c)"
  by (auto simp: calm_def)

text \<open>
  The command constructors; the two that copy an array get one of the length its type fixes.
\<close>

lemma scaled_coordinate_not_Panic [simp]: "scaled_coordinate v lo hi f \<noteq> Panic"
  by (simp add: scaled_coordinate_def)

lemma encode_contact_route_not_Panic [simp]: "encode_contact_route r p \<noteq> Panic"
  by (simp add: encode_contact_route_def Let_def split: contact_route.split)

lemma validate_custom_component_not_Panic [simp]: "validate_custom_component v f \<noteq> Panic"
  by (simp add: validate_custom_component_def rbind_eq_Panic)

lemma commands_not_Panic [simp]:
  "cmd_set_advert_name name \<noteq> Panic" "cmd_set_coordinates lat lon \<noteq> Panic" "cmd_set_tx_power p \<noteq> Panic"
  "cmd_set_radio_params rp \<noteq> Panic" "cmd_reset_path k \<noteq> Panic" "cmd_update_contact ct \<noteq> Panic"
  "cmd_remove_contact k \<noteq> Panic" "cmd_share_contact k \<noteq> Panic" "cmd_export_contact ko \<noteq> Panic"
  "cmd_import_contact crd \<noteq> Panic" "cmd_get_contact k \<noteq> Panic" "cmd_get_advert_path k \<noteq> Panic"
  "cmd_set_auto_add_config cfg \<noteq> Panic" "cmd_set_custom_var key v \<noteq> Panic"
  "cmd_set_path_hash_mode m \<noteq> Panic" "cmd_send_login k password \<noteq> Panic"
  "cmd_send_status_request k \<noteq> Panic" "cmd_has_connection k \<noteq> Panic" "cmd_logout k \<noteq> Panic"
  "cmd_send_binary_request k rt dat \<noteq> Panic" "cmd_send_anonymous_request k rt route path \<noteq> Panic"
  "cmd_discover_path k \<noteq> Panic" "cmd_send_node_discovery flt pre tag since \<noteq> Panic"
  "cmd_sign_data chunk \<noteq> Panic" "cmd_set_device_pin pin \<noteq> Panic"
  by (auto simp: key_commands checked_commands rbind_eq_Panic Let_def without_payload_def
      split: option.splits)

lemma array_commands_not_Panic [simp]:
  "length key = 16 \<Longrightarrow> cmd_set_default_flood_scope name key \<noteq> Panic"
  "length secret = 16 \<Longrightarrow> cmd_set_channel i name secret \<noteq> Panic"
  by (auto simp: checked_commands rbind_eq_Panic validate_text_field_eq_Ok)

lemma key_prefix_not_Panic [simp]: "key_prefix k \<noteq> Panic"
  by (simp add: key_prefix_def)

text \<open>A transport whose methods do not panic.\<close>

locale calm_transport =
  fixes ops :: "'t transport_ops"
  assumes connect_calm: "fst (t_connect ops t) \<noteq> Panic"
    and disconnect_calm: "fst (t_disconnect ops t) \<noteq> Panic"
    and reconnect_calm: "fst (t_reconnect ops t) \<noteq> Panic"
    and write_calm: "fst (t_write ops payload t) \<noteq> Panic"
    and read_calm: "fst (t_read ops limit t) \<noteq> Ready Panic"
    and try_read_calm: "fst (t_try_read ops t) \<noteq> Panic"
begin

lemma parse_packet_calm: "parse_packet x raw c \<noteq> (Panic, c')"
  using parse_not_Panic [of x raw] by (auto simp: parse_packet_def split: result.split packet.split)

lemma read_within_calm: "read_within ops x d c \<noteq> (Panic, c')"
  using read_calm [of "Some d" "cl_transport c"]
  by (auto simp: read_within_def read_next_packet_def parse_packet_calm split: prod.splits polled.splits result.splits option.splits)

lemma try_next_packet_calm: "try_next_packet ops x c \<noteq> (Panic, c')"
  using try_read_calm [of "cl_transport c"]
  by (auto simp: try_next_packet_def parse_packet_calm split: prod.splits result.splits ready_read.splits)

lemma write_raw_calm: "write_raw ops payload c \<noteq> (Panic, c')"
  using write_calm [of payload "cl_transport c"]
  by (auto simp: write_raw_def split: prod.splits result.splits)

lemma calm_recv_loop:
  assumes "\<And>p l c c'. handler p l c \<noteq> (Inl Panic, c')"
  shows "calm (recv_loop ops x budget handler l)"
  unfolding calm_def
proof (intro allI notI)
  fix c c'
  assume "recv_loop ops x budget handler l c = Some (Panic, c')"
  then show False
    by (rule recv_loop_rule [where L = "\<lambda>_ _. True" and Q = "\<lambda>r _. r \<noteq> Panic", THEN notE])
      (use assms read_within_calm in auto)
qed

lemma calm_await:
  assumes "\<And>p l c c'. handler p l c \<noteq> (Inl Panic, c')"
  shows "calm (await_reply ops x handler l)" and "calm (await_until ops x d handler l)"
  using calm_recv_loop [where handler = handler, OF assms]
  unfolding calm_def await_reply_def await_until_def Let_def by blast+

lemma arms_calm:
  "(\<And>p. f p \<noteq> Some Panic) \<Longrightarrow> returning f p l c \<noteq> (Inl Panic, c')"
  "msg_sent_arm track p u c \<noteq> (Inl Panic, c')"
  "packet_wait_reply ctxt g p c \<noteq> (Inl Panic, c')"
  "init_arm p u c \<noteq> (Inl Panic, c')"
  "contacts_arm p cs c \<noteq> (Inl Panic, c')"
  "sync_arm p u c \<noteq> (Inl Panic, c')"
  "ack_arm code p u c \<noteq> (Inl Panic, c')"
  by (auto simp: returning_def msg_sent_arm_def packet_wait_reply_def init_arm_def contacts_arm_def
      sync_arm_def ack_arm_def Let_def split: option.splits packet.splits packet_wait.splits if_splits)

lemma replies_calm:
  "ok_reply feature operation p \<noteq> Some Panic" "expected_reply ctxt g p \<noteq> Some Panic"
  "device_info_reply p \<noteq> Some Panic" "has_connection_reply p \<noteq> Some Panic"
  "private_key_reply p \<noteq> Some Panic"
  by (cases p; simp add: expected_reply_def has_connection_reply_def split: option.split)+

lemma calm_sends: "calm (send_encoded ops command)" "calm (send_only ops command)"
proof -
  show "calm (send_encoded ops command)"
    using write_raw_calm by (auto simp: calm_def send_encoded_def send_raw_def)
  then show "calm (send_only ops command)"
    unfolding send_only_def by (intro calm_bind calm_ensure)
qed

lemma calm_exchange:
  assumes "\<And>p l c c'. handler p l c \<noteq> (Inl Panic, c')"
  shows "calm (act_bind ensure (\<lambda>_. act_bind (send_encoded ops command) (\<lambda>_. await_reply ops x handler l)))"
    and "calm (act_bind ensure (\<lambda>_. act_bind (send_only ops command) (\<lambda>_. await_reply ops x handler l)))"
  by (intro calm_bind calm_ensure calm_sends calm_await assms)+

lemma calm_expect:
  "calm (send_command_expect_ok ops x command)"
  "calm (send_command_expect ops x command ctxt f)"
  "calm (send_command_expect_msg_sent ops x command)"
  "calm (send_command_expect_msg_sent_untracked ops x command)"
  unfolding send_command_expect_ok_def send_command_expect_def send_command_expect_msg_sent_def
    send_command_expect_msg_sent_untracked_def send_command_expect_msg_sent_inner_def
  by (rule calm_exchange, rule arms_calm replies_calm, (rule replies_calm)?)+

lemma calm_expect_ok_of: "command \<noteq> Panic \<Longrightarrow> calm (expect_ok_of ops x command)"
  unfolding expect_ok_of_def by (rule calm_of) (auto intro: calm_expect)

lemma calm_remote_request: "command \<noteq> Panic \<Longrightarrow> calm (remote_request ops x command ctxt f)"
  unfolding remote_request_def wait_for_packet_def
  by (intro calm_of calm_bind [OF calm_expect(4)], assumption)
    (rule calm_state [where k = "\<lambda>d. await_until ops x d _ ()", OF calm_await(2)], rule arms_calm)

lemma calm_settings:
    "calm (op_set_time ops x v)"
    "calm (op_send_self_advert ops x flood)"
    "calm (op_set_advert_name ops x name)"
    "calm (op_set_coordinates ops x latitude longitude)"
    "calm (op_set_tx_power ops x power_dbm)"
    "calm (op_set_radio_params ops x params)"
    "calm (op_set_tuning ops x params')"
    "calm (op_reset_path ops x public_key)"
    "calm (op_update_contact ops x contact)"
    "calm (op_share_contact ops x public_key)"
    "calm (op_import_contact ops x card_data)"
    "calm (op_set_auto_add_config ops x config)"
    "calm (op_set_custom_var ops x key' v')"
    "calm (op_set_path_hash_mode ops x mode)"
    "calm (op_set_flood_scope ops x scope)"
    "length key = 16 \<Longrightarrow> calm (op_set_default_flood_scope ops x name key)"
    "calm (op_clear_default_flood_scope ops x)"
    "length secret = 16 \<Longrightarrow> calm (op_set_channel ops x i name secret)"
    "calm (op_clear_channel ops x i)"
    "calm (op_remove_contact ops x public_key)"
    "calm (op_logout ops x public_key)"
    "calm (op_send_node_discovery ops x type_filter prefix_only tag since)"
    "calm (op_set_device_pin ops x pin)"
  unfolding op_set_time_def op_send_self_advert_def op_set_advert_name_def op_set_coordinates_def
      op_set_tx_power_def op_set_radio_params_def op_set_tuning_def op_reset_path_def
      op_update_contact_def op_share_contact_def op_import_contact_def
      op_set_auto_add_config_def op_set_custom_var_def op_set_path_hash_mode_def
      op_set_flood_scope_def op_set_default_flood_scope_def op_clear_default_flood_scope_def
      op_set_channel_def op_clear_channel_def op_remove_contact_def op_logout_def
      op_send_node_discovery_def op_set_device_pin_def
  by ((rule calm_expect_ok_of calm_expect(1), simp?))+

lemma calm_queries:
    "calm (op_query_device_info ops x)"
    "calm (op_get_time ops x)"
    "calm (op_get_battery ops x)"
    "calm (op_get_tuning ops x)"
    "calm (op_export_contact ops x public_key')"
    "calm (op_get_contact ops x public_key)"
    "calm (op_get_advert_path ops x public_key)"
    "calm (op_get_auto_add_config ops x)"
    "calm (op_get_custom_vars ops x)"
    "calm (op_get_stats ops x stats_type)"
    "calm (op_get_allowed_repeat_frequencies ops x)"
    "calm (op_get_default_flood_scope ops x)"
    "calm (op_get_channel ops x i)"
    "calm (op_get_self_telemetry ops x)"
  unfolding op_query_device_info_def op_get_time_def op_get_battery_def op_get_tuning_def
      op_export_contact_def op_get_contact_def op_get_advert_path_def
      op_get_auto_add_config_def op_get_custom_vars_def op_get_stats_def
      op_get_allowed_repeat_frequencies_def op_get_default_flood_scope_def op_get_channel_def
      op_get_self_telemetry_def
  by (rule calm_expect calm_of [OF _ calm_expect(2)] calm_exchange(2) [OF arms_calm(1)], (rule commands_not_Panic replies_calm)?)+

lemma calm_remote_operations:
    "calm (op_login ops x public_key password)"
    "calm (op_remote_status ops x public_key)"
    "calm (op_binary_request ops x public_key request_type data)"
    "calm (op_anonymous_request ops x public_key request_type reply_route reply_path)"
    "calm (op_discover_path ops x public_key)"
  unfolding op_login_def op_remote_status_def op_binary_request_def op_anonymous_request_def
      op_discover_path_def
  by ((rule calm_of, simp)?, rule calm_remote_request, simp)+

lemma close_with_calm: "r \<noteq> Panic \<Longrightarrow> close_with ops r c \<noteq> (Panic, c')"
  using disconnect_calm [of "cl_transport c"] by (auto simp: close_with_def split: prod.splits result.splits)

lemma calm_sign_chunks: "calm (sign_chunks ops x cs)"
  by (induction cs) (auto intro!: calm_act_of calm_bind calm_expect_ok_of)

lemma calm_composite_operations:
    "calm (op_list_contacts ops x lastmod)"
    "calm (op_list_contacts_snapshot ops x lastmod)"
    "calm (op_get_path_hash_mode ops x)"
    "calm (op_has_connection ops x public_key)"
    "calm (op_sign ops x data)"
    "calm (op_export_private_key ops x)"
    "calm (op_import_private_key ops x key)"
    "calm (op_send_direct_text ops x now dest attempt txt_bytes)"
    "calm (op_send_direct_command ops x now dest attempt txt_bytes)"
    "calm (op_send_channel_message ops x now chan ty txt_bytes)"
    "calm (op_reboot ops)" "calm (op_factory_reset ops)"
proof -
  have "calm (collect_contacts ops x lastmod)"
    unfolding collect_contacts_def by (rule calm_exchange) (rule arms_calm)
  then show "calm (op_list_contacts ops x lastmod)" "calm (op_list_contacts_snapshot ops x lastmod)"
    unfolding op_list_contacts_def op_list_contacts_snapshot_def
    by (auto intro!: calm_bind calm_act_of split: option.splits)
  show "calm (op_get_path_hash_mode ops x)"
    unfolding op_get_path_hash_mode_def by (rule calm_bind [OF calm_queries(1) calm_act_of]) simp
  show "calm (op_has_connection ops x public_key)"
    unfolding op_has_connection_def
    by (intro calm_bind [OF calm_ensure] calm_of commands_not_Panic calm_bind [OF calm_sends(1)]
        calm_await arms_calm replies_calm)
  have sign: "calm (if b then act_of (Err e) else act_bind (sign_chunks ops x cs) (\<lambda>_.
      send_command_expect ops x cmd ctxt f))" for b e cs cmd ctxt f
    by (auto intro: calm_act_of calm_bind calm_sign_chunks calm_expect)
  show "calm (op_sign ops x data)"
    unfolding op_sign_def by (rule calm_bind [OF calm_expect(2) sign])
  show "calm (op_export_private_key ops x)" "calm (op_import_private_key ops x key)"
    unfolding op_export_private_key_def op_import_private_key_def
    by (rule calm_exchange, rule arms_calm, rule replies_calm)+
  show "calm (op_send_direct_text ops x now dest attempt txt_bytes)"
    "calm (op_send_direct_command ops x now dest attempt txt_bytes)"
    "calm (op_send_channel_message ops x now chan ty txt_bytes)"
    unfolding op_send_direct_text_def op_send_direct_command_def op_send_channel_message_def
      validate_destination_prefix_def validate_text_def
    by (auto intro!: calm_of calm_expect)
  have close: "calm (\<lambda>c. Some (close_with ops (Ok ()) c))"
    by (simp add: calm_def close_with_calm)
  show "calm (op_reboot ops)" "calm (op_factory_reset ops)"
    unfolding op_reboot_def op_factory_reset_def send_disconnect_command_def
    by (intro calm_bind calm_ensure calm_sends close)+
qed

lemma calm_connections: "calm (op_connect ops x)" "calm (op_reconnect ops x)" "calm (op_disconnect ops)"
proof -
  have "calm (op_init ops x)"
    unfolding op_init_def by (rule calm_exchange) (rule arms_calm)
  then have start: "calm (start_session ops x)"
    by (auto simp: calm_def start_session_def close_with_calm split: option.splits result.splits)
  have calm_open: "(\<And>t. fst (f t) \<noteq> Panic) \<Longrightarrow> calm (open_with f)" for f :: "'t \<Rightarrow> (transport_error, unit) result \<times> 't"
    by (auto simp: calm_def open_with_def split: prod.splits) (metis fst_conv)
  note opens = calm_open [of "t_connect ops", OF connect_calm] calm_open [of "t_reconnect ops", OF reconnect_calm]
  from calm_bind [OF opens(1) start] show "calm (op_connect ops x)"
    unfolding calm_def op_connect_def by blast
  from calm_bind [OF opens(2) start] show "calm (op_reconnect ops x)"
    unfolding calm_def op_reconnect_def by blast
  show "calm (op_disconnect ops)"
    unfolding calm_def
  proof (intro allI notI)
    fix c c'
    assume "op_disconnect ops c = Some (Panic, c')"
    with disconnect_calm [of "cl_transport c"] show False
      by (auto simp: op_disconnect_def split: prod.splits result.splits)
  qed
qed

lemma drain_loop_calm: "drain_loop ops x n c \<noteq> (Panic, c')"
proof (induction n arbitrary: c)
  case 0
  show ?case
    using try_next_packet_calm
    by (subst drain_loop.simps) (auto split: prod.splits result.splits option.splits)
next
  case (Suc n)
  then show ?case
    using try_next_packet_calm unfolding drain_loop.simps [of ops x "Suc n"]
    by (auto split: prod.splits result.splits option.splits)
qed

lemma calm_sync: "calm (op_sync_next_message ops x)"
proof -
  have wait: "calm (wait_for_sync_response ops x)"
    unfolding wait_for_sync_response_def by (rule calm_await) (rule arms_calm)
  have "calm (\<lambda>c. Some (write_raw ops (into_encoded cmd_sync_next_message) c))"
    using write_raw_calm by (auto simp: calm_def)
  from calm_bind [OF this wait] wait have request: "calm (request_sync ops x)"
    by (auto simp: calm_def request_sync_def)
  have ready: "ready_sync_result r \<noteq> Panic" for r by (cases r) simp_all
  have "calm (drain_ready_packets_before_sync ops x)"
    using drain_loop_calm by (auto simp: calm_def drain_ready_packets_before_sync_def)
  then have "calm (act_bind (drain_ready_packets_before_sync ops x) (\<lambda>ready.
      case ready of Some r \<Rightarrow> act_of (ready_sync_result r) | None \<Rightarrow> request_sync ops x))"
    by (rule calm_bind) (auto intro!: calm_act_of ready request split: option.split)
  then show ?thesis
    unfolding op_sync_next_message_def
    by (intro calm_bind [OF calm_ensure]) (auto simp: calm_def ready split: option.split)
qed

lemma calm_wait_for_ack: "calm (op_wait_for_ack ops x code requested)"
proof -
  have "calm (await_ack ops x code d)" for d
    using calm_await(2) [where handler = "ack_arm code" and l = "()" and d = d and x = x, OF arms_calm(7)]
    by (auto simp: calm_def await_ack_def split: option.splits result.splits)
  then have "calm (\<lambda>c. case take_completed_ack code c of
         (Some a, c') \<Rightarrow> Some (Ok a, c')
       | (None, c') \<Rightarrow>
           await_ack ops x code (case requested of Some d \<Rightarrow> d | None \<Rightarrow> request_timeout c') c')"
    by (auto simp: calm_def split: prod.split option.split)
  then show ?thesis
    unfolding op_wait_for_ack_def
    by (intro calm_of calm_bind [OF calm_ensure])
      (auto simp: validate_operation_timeout_def split: option.split)
qed

end

interpretation scripted_calm: calm_transport scripted_ops
  by unfold_locales (auto simp: scripted_defs split: list.splits)

end
