(* ===== verification/Numbering.thy ===== *)
theory Numbering
  imports Session
begin

text \<open>
  The numbering of messages: a third reading of the calculus of \<open>Session\<close>. Every message read is
  given the next observation identifier and then published. \<open>counted k c\<close> says that the published messages carry the identifiers in order, without a gap, and that \<open>k\<close> more
  have been assigned.
\<close>

section \<open>Reading\<close>

text \<open>What reading keeps follows from what parsing keeps, where neither the transport nor the loss of the
  connection matters.\<close>

locale reader =
  fixes x :: externs and I :: "'t client \<Rightarrow> bool" and K :: "packet \<Rightarrow> 't client \<Rightarrow> bool"
  assumes parse_keeps: "I c \<Longrightarrow> parse_packet x raw c = (r, c') \<Longrightarrow>
      (\<forall>p. r = Ok p \<longrightarrow> K p c') \<and> ((\<forall>p. r \<noteq> Ok p) \<longrightarrow> I c')"
    and lost_keeps: "I c \<Longrightarrow> I (mark_disconnected c)"
    and transport_free: "I (c\<lparr>cl_transport := t\<rparr>) = I c"
begin

lemma reads:
  "I c \<Longrightarrow> read_next_packet T x limit c = (r, c') \<Longrightarrow>
     (\<forall>p. r = Ready (Ok p) \<longrightarrow> K p c') \<and> ((\<forall>p. r \<noteq> Ready (Ok p)) \<longrightarrow> I c')"
  "I c \<Longrightarrow> try_next_packet T x c = (q, c') \<Longrightarrow>
     (\<forall>p. q = Ok (Some p) \<longrightarrow> K p c') \<and> (q = Ok None \<longrightarrow> I c') \<and> ((\<forall>p. q \<noteq> Ok p) \<longrightarrow> I c')"
  "I c \<Longrightarrow> write_raw T payload c = (w, c') \<Longrightarrow> I c'"
proof -
  assume c: "I c"
  have p: "(\<forall>p. r = Ok p \<longrightarrow> K p c') \<and> ((\<forall>p. r \<noteq> Ok p) \<longrightarrow> I c')"
    if "parse_packet x raw (c\<lparr>cl_transport := t\<rparr>) = (r, c')" for raw t r c'
    using parse_keeps [OF _ that] c by (simp add: transport_free)
  show "(\<forall>p. r = Ready (Ok p) \<longrightarrow> K p c') \<and> ((\<forall>p. r \<noteq> Ready (Ok p)) \<longrightarrow> I c')"
    if "read_next_packet T x limit c = (r, c')"
  proof (cases "\<exists>raw t. t_read T limit (cl_transport c) = (Ready (Ok (Some raw)), t)")
    case True
    then obtain raw t where "t_read T limit (cl_transport c) = (Ready (Ok (Some raw)), t)" by blast
    with that p show ?thesis by (auto simp: read_next_packet_def split: prod.splits)
  next
    case False
    with that c show ?thesis
      by (auto simp: read_next_packet_def lost_keeps transport_free
          split: prod.splits polled.splits result.splits option.splits if_splits)
  qed
  show "(\<forall>p. q = Ok (Some p) \<longrightarrow> K p c') \<and> (q = Ok None \<longrightarrow> I c') \<and>
     ((\<forall>p. q \<noteq> Ok p) \<longrightarrow> I c')" if trd: "try_next_packet T x c = (q, c')"
  proof (cases "\<exists>raw t. t_try_read T (cl_transport c) = (Ok (RR_Packet raw), t)")
    case True
    then obtain raw t where "t_try_read T (cl_transport c) = (Ok (RR_Packet raw), t)" by blast
    with trd obtain r where "parse_packet x raw (c\<lparr>cl_transport := t\<rparr>) = (r, c')" "q = map_ok Some r"
      by (auto simp: try_next_packet_def split: prod.splits)
    with p show ?thesis by (cases r) auto
  next
    case False
    with trd c show ?thesis
      by (auto simp: try_next_packet_def lost_keeps transport_free
          split: prod.splits result.splits ready_read.splits if_splits)
  qed
  show "write_raw T payload c = (w, c') \<Longrightarrow> I c'"
    using c by (auto simp: write_raw_def lost_keeps transport_free split: prod.splits result.splits if_splits)
qed

end

section \<open>Counting messages\<close>

definition observation :: "event \<Rightarrow> u64 option list" where
  "observation e = (case e of E_Message m \<Rightarrow> [observation_id m] | _ \<Rightarrow> [])"

definition observed :: "event list \<Rightarrow> u64 option list" where
  "observed es = concat (map observation es)"

definition nth_observation :: "nat \<Rightarrow> u64" where
  "nth_observation i = (next_observation_id ^^ i) 1"

definition counted :: "nat \<Rightarrow> 't client \<Rightarrow> bool" where
  "counted k c \<longleftrightarrow>
     (let os = observed (cl_events c)
      in os = map (\<lambda>i. Some (nth_observation i)) [0..<length os] \<and>
         next_message_observation_id c = nth_observation (length os + k))"

fun counted_read :: "packet \<Rightarrow> 't client \<Rightarrow> bool" where
  "counted_read (P_ContactMsg m) c \<longleftrightarrow>
     counted 1 c \<and> observation_id m = Some (nth_observation (length (observed (cl_events c))))"
| "counted_read (P_ChannelMsg m) c \<longleftrightarrow>
     counted 1 c \<and> observation_id m = Some (nth_observation (length (observed (cl_events c))))"
| "counted_read p c \<longleftrightarrow> counted 0 c"

lemma counted_read_plain: "\<not> is_message p \<Longrightarrow> counted_read p c = counted 0 c"
  by (cases p) simp_all

lemma counted_cong:
  "cl_events c' = cl_events c \<Longrightarrow> next_message_observation_id c' = next_message_observation_id c \<Longrightarrow>
   counted k c' = counted k c"
  by (simp add: counted_def)

lemma counted_read_cong:
  "cl_events c' = cl_events c \<Longrightarrow> next_message_observation_id c' = next_message_observation_id c \<Longrightarrow>
   counted_read p c' = counted_read p c"
  by (cases p) (simp_all add: counted_cong [of c' c])

lemma observed_snoc: "observed (es @ [e]) = observed es @ observation e"
  by (simp add: observed_def)

lemma counted_emit_plain: "observation e = [] \<Longrightarrow> counted k (emit e c) = counted k c"
  by (simp add: counted_def observed_snoc)

lemma counted_emit_message:
  assumes "counted 1 c" and "observation_id m = Some (nth_observation (length (observed (cl_events c))))"
  shows "counted 0 (emit (E_Message m) c)"
  using assms by (simp add: counted_def Let_def observed_snoc observation_def)

lemma counted_emit: "counted_read p c \<Longrightarrow> into_event p = Some e \<Longrightarrow> counted 0 (emit e c)"
  by (cases p) (auto simp: counted_emit_message counted_emit_plain observation_def)

lemma counted_mark: "counted k c \<Longrightarrow> counted k (mark_disconnected c)"
  by (simp add: mark_disconnected_def Let_def clear_tracking_def clear_sync_tracking_def
      counted_emit_plain observation_def)
    (simp add: counted_def)

lemma counted_transport [simp]: "counted k (c\<lparr>cl_transport := t\<rparr>) = counted k c"
  by (simp add: counted_def)

lemma nth_observation_Suc: "next_observation_id (nth_observation n) = nth_observation (Suc n)"
  by (simp add: nth_observation_def)

lemma counted_parse:
  assumes "parse_packet x raw c = (r, c')" and "counted 0 c"
  shows "(\<forall>p. r = Ok p \<longrightarrow> counted_read p c') \<and> ((\<forall>p. r \<noteq> Ok p) \<longrightarrow> counted 0 c')"
proof (cases "map_err Parse (parse x raw)")
  case (Ok p)
  with assms show ?thesis
    by (cases p) (auto simp: parse_packet_def counted_def Let_def nth_observation_Suc)
qed (use assms in \<open>auto simp: parse_packet_def\<close>)

interpretation counting: reader x "counted 0" counted_read for x
  by unfold_locales (auto dest: counted_parse simp: counted_mark)

lemma counted_frames [simp]:
  "counted k (update_tracking q c) = counted k c"
  "counted k (discard_pending_ack code c) = counted k c"
  "counted k (discard_completed_ack code c) = counted k c"
  "counted k (c\<lparr>sync_state := s\<rparr>) = counted k c"
  "counted k (c\<lparr>deferred_sync := d\<rparr>) = counted k c"
  "counted k (c\<lparr>cl_connected := b\<rparr>) = counted k c"
  "counted k (clear_sync_tracking (clear_tracking c)) = counted k c"
  by (rule counted_cong; simp add: clear_tracking_def clear_sync_tracking_def)+

lemma counted_read_frames [simp]:
  "counted_read p (retain_sync_response q c) = counted_read p c"
  "counted_read p (update_tracking q c) = counted_read p c"
  "counted_read p (discard_pending_ack code c) = counted_read p c"
  "counted_read p (c\<lparr>sync_state := s\<rparr>) = counted_read p c"
  by (rule counted_read_cong; simp)+

interpretation numbering: session_calculus T x "counted 0" "counted 0" counted_read for T x
proof (unfold_locales, goal_cases)
  case (3 c limit r c')
  then show ?case by (rule counting.reads)
next
  case (4 c r c')
  then show ?case by (rule counting.reads)
next
  case (5 c payload w c')
  then show ?case using counting.reads(3) by blast
next
  case (7 p c e)
  then show ?case by (rule counted_emit)
qed (simp_all add: counted_read_plain counted_emit_plain observation_def counted_mark
       take_completed_ack_eq forget_ack_def)

end
