(* ===== verification/Managed.thy ===== *)
theory Managed
  imports Traffic Numbering
begin

text \<open>
  The actor of \<^verbatim>\<open>meshquill-core/src/managed.rs\<close>: a task that owns a client, runs queued commands
  one after the other and reads unsolicited packets while it is idle. A reply channel is a number;
  the replies sent are a list. A step of the actor is atomic from one command to the next: what
  other tasks do meanwhile (submitting, cancelling) touches other parts of the state. A command is
  interrupted at one of its suspension points, its reads and writes; a dropped future is an action
  that stops there, which the model writes \<open>Panic\<close>, since neither runs any code after that point.
\<close>

section \<open>Commands\<close>

definition MANAGED_CLIENT_COMMAND_CAPACITY :: nat where
  "MANAGED_CLIENT_COMMAND_CAPACITY = 32"

datatype (plugins only: code size) actor_command =
    AC_Connect
  | AC_Disconnect
  | AC_Reconnect
  | AC_QueryDeviceInfo
  | AC_ListContacts "u32 option"
  | AC_ListContactsSnapshot "u32 option"
  | AC_SendDirectText "byte list" byte rstr
  | AC_SendDirectCommand "byte list" byte rstr
  | AC_SendChannelMessage byte byte rstr
  | AC_GetTime
  | AC_SetTime u32
  | AC_GetBattery
  | AC_SendSelfAdvert bool
  | AC_SetAdvertName rstr
  | AC_SetCoordinates f64 f64
  | AC_SetTxPower i8
  | AC_SetRadioParams radio_params
  | AC_SetTuning tuning_params
  | AC_GetTuning
  | AC_ResetPath "byte list"
  | AC_UpdateContact contact
  | AC_ShareContact "byte list"
  | AC_ExportContact "byte list option"
  | AC_ImportContact "byte list"
  | AC_GetContact "byte list"
  | AC_GetAdvertPath "byte list"
  | AC_SetAutoAddConfig auto_add_config
  | AC_GetAutoAddConfig
  | AC_GetCustomVars
  | AC_SetCustomVar rstr rstr
  | AC_GetStats stats_type
  | AC_GetAllowedRepeatFrequencies
  | AC_SetPathHashMode byte
  | AC_GetPathHashMode
  | AC_SetFloodScope flood_scope
  | AC_SetDefaultFloodScope rstr "byte list"
  | AC_ClearDefaultFloodScope
  | AC_GetDefaultFloodScope
  | AC_GetChannel byte
  | AC_SetChannel byte rstr "byte list"
  | AC_ClearChannel byte
  | AC_RemoveContact "byte list"
  | AC_Login "byte list" rstr
  | AC_Logout "byte list"
  | AC_HasConnection "byte list"
  | AC_RemoteStatus "byte list"
  | AC_GetSelfTelemetry
  | AC_BinaryRequest "byte list" byte "byte list"
  | AC_AnonymousRequest "byte list" byte contact_route path
  | AC_SendNodeDiscovery byte bool u32 "u32 option"
  | AC_DiscoverPath "byte list"
  | AC_Sign "byte list"
  | AC_ExportPrivateKey
  | AC_ImportPrivateKey private_key
  | AC_SetDevicePin u32
  | AC_Reboot
  | AC_FactoryReset
  | AC_SyncNextMessage
  | AC_WaitForAck "byte list" "duration option"
  | AC_Shutdown

text \<open>The values a reply channel carries, one constructor per type of \<^verbatim>\<open>Reply<T>\<close>.\<close>

datatype (plugins only: code size) reply_value =
    RV_SelfInfo self_info
  | RV_Unit unit
  | RV_DeviceInfo device_info
  | RV_Contacts "contact list"
  | RV_Snapshot contact_snapshot
  | RV_Tracking command_tracking
  | RV_Time u32
  | RV_Battery battery_info
  | RV_Tuning tuning_params
  | RV_Uri contact_uri
  | RV_Contact contact
  | RV_AdvertPath advert_path
  | RV_AutoAdd auto_add_config
  | RV_CustomVars custom_variables
  | RV_Stats device_stats
  | RV_Frequencies "frequency_range list"
  | RV_HashMode byte
  | RV_FloodScope default_flood_scope
  | RV_Channel channel_info
  | RV_Login login_session
  | RV_Bool bool
  | RV_Status remote_status
  | RV_Telemetry telemetry_response
  | RV_Binary binary_response
  | RV_PathDiscovery path_discovery
  | RV_Signature signature
  | RV_PrivateKey private_key
  | RV_Message "message option"
  | RV_Ack ack

record queued_command =
  qc_command :: actor_command
  qc_generation :: u64
  qc_reply :: nat

section \<open>Dropped futures\<close>

text \<open>
  What dropping an unfinished \<^verbatim>\<open>write\<close>, \<^verbatim>\<open>connect\<close> or \<^verbatim>\<open>disconnect\<close> leaves of the transport. A dropped
  \<^verbatim>\<open>read\<close> leaves it unchanged: that is the contract of the trait.
\<close>

record 't drops =
  drop_write :: "byte list \<Rightarrow> 't \<Rightarrow> 't"
  drop_open :: "'t \<Rightarrow> 't"
  drop_close :: "'t \<Rightarrow> 't"

text \<open>A transport that is interrupted at its suspension point number \<open>fu_left\<close>.\<close>

record 't fused =
  fu_inner :: 't
  fu_left :: nat

definition burn ::
    "('t \<Rightarrow> 't) \<Rightarrow> ('t \<Rightarrow> ('e, 'r) result \<times> 't) \<Rightarrow> 't fused \<Rightarrow> ('e, 'r) result \<times> 't fused" where
  "burn dropped op f =
     (if fu_left f = 0 then (Panic, f\<lparr>fu_inner := dropped (fu_inner f)\<rparr>)
      else case op (fu_inner f) of (r, t) \<Rightarrow> (r, \<lparr>fu_inner = t, fu_left = fu_left f - 1\<rparr>))"

definition burn_read ::
    "('t \<Rightarrow> ('e, 'r) result polled \<times> 't) \<Rightarrow> 't fused \<Rightarrow> ('e, 'r) result polled \<times> 't fused" where
  "burn_read op f =
     (if fu_left f = 0 then (Ready Panic, f)
      else case op (fu_inner f) of (r, t) \<Rightarrow> (r, \<lparr>fu_inner = t, fu_left = fu_left f - 1\<rparr>))"

definition interruptible :: "'t transport_ops \<Rightarrow> 't drops \<Rightarrow> 't fused transport_ops" where
  "interruptible T D =
     \<lparr>t_kind = (\<lambda>f. t_kind T (fu_inner f)),
      t_connect = burn (drop_open D) (t_connect T),
      t_disconnect = burn (drop_close D) (t_disconnect T),
      t_write = (\<lambda>payload. burn (drop_write D payload) (t_write T payload)),
      t_read = (\<lambda>limit. burn_read (t_read T limit)),
      t_try_read = (\<lambda>f. case t_try_read T (fu_inner f) of (r, t) \<Rightarrow> (r, f\<lparr>fu_inner := t\<rparr>)),
      t_reconnect = burn (drop_open D) (t_reconnect T),
      t_now = (\<lambda>f. t_now T (fu_inner f))\<rparr>"

definition fused_drops :: "'t drops \<Rightarrow> 't fused drops" where
  "fused_drops D =
     \<lparr>drop_write = (\<lambda>payload f. f\<lparr>fu_inner := drop_write D payload (fu_inner f)\<rparr>),
      drop_open = (\<lambda>f. f\<lparr>fu_inner := drop_open D (fu_inner f)\<rparr>),
      drop_close = (\<lambda>f. f\<lparr>fu_inner := drop_close D (fu_inner f)\<rparr>)\<rparr>"

definition with_transport :: "('s \<Rightarrow> 't) \<Rightarrow> 's client \<Rightarrow> 't client" where
  "with_transport f c =
     \<lparr>cl_transport = f (cl_transport c), cl_events = cl_events c, request_timeout = request_timeout c,
      cl_connected = cl_connected c, pending_acks = pending_acks c,
      pending_ack_order = pending_ack_order c, completed_acks = completed_acks c,
      completed_ack_order = completed_ack_order c,
      next_message_observation_id = next_message_observation_id c, sync_state = sync_state c,
      deferred_sync = deferred_sync c\<rparr>"

section \<open>Dispatch\<close>

text \<open>
  \<^verbatim>\<open>bounded_disconnect\<close> and the disconnect after an interruption run under a timer; \<open>expired\<close> says
  that it fires first, so that the disconnect is dropped before the client is marked.
\<close>

definition bounded_disconnect ::
    "'t transport_ops \<Rightarrow> 't drops \<Rightarrow> bool \<Rightarrow> 't client \<Rightarrow> unit outcome \<times> 't client" where
  "bounded_disconnect T D expired c =
     (if \<not> cl_connected c then (Ok (), c)
      else if expired then (Err Timeout, c\<lparr>cl_transport := drop_close D (cl_transport c)\<rparr>)
      else case op_disconnect T c of Some rc \<Rightarrow> rc | None \<Rightarrow> (Panic, c))"

definition act_map :: "('a \<Rightarrow> 'b) \<Rightarrow> ('t, 'a) action \<Rightarrow> ('t, 'b) action" where
  "act_map f a c = map_option (\<lambda>(r, c'). (map_ok f r, c')) (a c)"

primrec perform ::
    "'t transport_ops \<Rightarrow> 't drops \<Rightarrow> externs \<Rightarrow> int \<Rightarrow> bool \<Rightarrow> actor_command \<Rightarrow> ('t, reply_value) action" where
  "perform T D x now expired AC_Connect = act_map RV_SelfInfo (op_connect T x)"
| "perform T D x now expired AC_Disconnect = act_map RV_Unit (op_disconnect T)"
| "perform T D x now expired AC_Reconnect = act_map RV_SelfInfo (op_reconnect T x)"
| "perform T D x now expired AC_QueryDeviceInfo = act_map RV_DeviceInfo (op_query_device_info T x)"
| "perform T D x now expired (AC_ListContacts a) = act_map RV_Contacts (op_list_contacts T x a)"
| "perform T D x now expired (AC_ListContactsSnapshot a) = act_map RV_Snapshot (op_list_contacts_snapshot T x a)"
| "perform T D x now expired (AC_SendDirectText a b d) = act_map RV_Tracking (op_send_direct_text T x now a b d)"
| "perform T D x now expired (AC_SendDirectCommand a b d) = act_map RV_Tracking (op_send_direct_command T x now a b d)"
| "perform T D x now expired (AC_SendChannelMessage a b d) = act_map RV_Unit (op_send_channel_message T x now a b d)"
| "perform T D x now expired AC_GetTime = act_map RV_Time (op_get_time T x)"
| "perform T D x now expired (AC_SetTime a) = act_map RV_Unit (op_set_time T x a)"
| "perform T D x now expired AC_GetBattery = act_map RV_Battery (op_get_battery T x)"
| "perform T D x now expired (AC_SendSelfAdvert a) = act_map RV_Unit (op_send_self_advert T x a)"
| "perform T D x now expired (AC_SetAdvertName a) = act_map RV_Unit (op_set_advert_name T x a)"
| "perform T D x now expired (AC_SetCoordinates a b) = act_map RV_Unit (op_set_coordinates T x a b)"
| "perform T D x now expired (AC_SetTxPower a) = act_map RV_Unit (op_set_tx_power T x a)"
| "perform T D x now expired (AC_SetRadioParams a) = act_map RV_Unit (op_set_radio_params T x a)"
| "perform T D x now expired (AC_SetTuning a) = act_map RV_Unit (op_set_tuning T x a)"
| "perform T D x now expired AC_GetTuning = act_map RV_Tuning (op_get_tuning T x)"
| "perform T D x now expired (AC_ResetPath a) = act_map RV_Unit (op_reset_path T x a)"
| "perform T D x now expired (AC_UpdateContact a) = act_map RV_Unit (op_update_contact T x a)"
| "perform T D x now expired (AC_ShareContact a) = act_map RV_Unit (op_share_contact T x a)"
| "perform T D x now expired (AC_ExportContact a) = act_map RV_Uri (op_export_contact T x a)"
| "perform T D x now expired (AC_ImportContact a) = act_map RV_Unit (op_import_contact T x a)"
| "perform T D x now expired (AC_GetContact a) = act_map RV_Contact (op_get_contact T x a)"
| "perform T D x now expired (AC_GetAdvertPath a) = act_map RV_AdvertPath (op_get_advert_path T x a)"
| "perform T D x now expired (AC_SetAutoAddConfig a) = act_map RV_Unit (op_set_auto_add_config T x a)"
| "perform T D x now expired AC_GetAutoAddConfig = act_map RV_AutoAdd (op_get_auto_add_config T x)"
| "perform T D x now expired AC_GetCustomVars = act_map RV_CustomVars (op_get_custom_vars T x)"
| "perform T D x now expired (AC_SetCustomVar a b) = act_map RV_Unit (op_set_custom_var T x a b)"
| "perform T D x now expired (AC_GetStats a) = act_map RV_Stats (op_get_stats T x a)"
| "perform T D x now expired AC_GetAllowedRepeatFrequencies = act_map RV_Frequencies (op_get_allowed_repeat_frequencies T x)"
| "perform T D x now expired (AC_SetPathHashMode a) = act_map RV_Unit (op_set_path_hash_mode T x a)"
| "perform T D x now expired AC_GetPathHashMode = act_map RV_HashMode (op_get_path_hash_mode T x)"
| "perform T D x now expired (AC_SetFloodScope a) = act_map RV_Unit (op_set_flood_scope T x a)"
| "perform T D x now expired (AC_SetDefaultFloodScope a b) = act_map RV_Unit (op_set_default_flood_scope T x a b)"
| "perform T D x now expired AC_ClearDefaultFloodScope = act_map RV_Unit (op_clear_default_flood_scope T x)"
| "perform T D x now expired AC_GetDefaultFloodScope = act_map RV_FloodScope (op_get_default_flood_scope T x)"
| "perform T D x now expired (AC_GetChannel a) = act_map RV_Channel (op_get_channel T x a)"
| "perform T D x now expired (AC_SetChannel a b d) = act_map RV_Unit (op_set_channel T x a b d)"
| "perform T D x now expired (AC_ClearChannel a) = act_map RV_Unit (op_clear_channel T x a)"
| "perform T D x now expired (AC_RemoveContact a) = act_map RV_Unit (op_remove_contact T x a)"
| "perform T D x now expired (AC_Login a b) = act_map RV_Login (op_login T x a b)"
| "perform T D x now expired (AC_Logout a) = act_map RV_Unit (op_logout T x a)"
| "perform T D x now expired (AC_HasConnection a) = act_map RV_Bool (op_has_connection T x a)"
| "perform T D x now expired (AC_RemoteStatus a) = act_map RV_Status (op_remote_status T x a)"
| "perform T D x now expired AC_GetSelfTelemetry = act_map RV_Telemetry (op_get_self_telemetry T x)"
| "perform T D x now expired (AC_BinaryRequest a b d) = act_map RV_Binary (op_binary_request T x a b d)"
| "perform T D x now expired (AC_AnonymousRequest a b d e) =
     act_map RV_Binary (op_anonymous_request T x a b d e)"
| "perform T D x now expired (AC_SendNodeDiscovery a b d e) = act_map RV_Unit (op_send_node_discovery T x a b d e)"
| "perform T D x now expired (AC_DiscoverPath a) = act_map RV_PathDiscovery (op_discover_path T x a)"
| "perform T D x now expired (AC_Sign a) = act_map RV_Signature (op_sign T x a)"
| "perform T D x now expired AC_ExportPrivateKey = act_map RV_PrivateKey (op_export_private_key T x)"
| "perform T D x now expired (AC_ImportPrivateKey a) = act_map RV_Unit (op_import_private_key T x a)"
| "perform T D x now expired (AC_SetDevicePin a) = act_map RV_Unit (op_set_device_pin T x a)"
| "perform T D x now expired AC_Reboot = act_map RV_Unit (op_reboot T)"
| "perform T D x now expired AC_FactoryReset = act_map RV_Unit (op_factory_reset T)"
| "perform T D x now expired AC_SyncNextMessage = act_map RV_Message (op_sync_next_message T x)"
| "perform T D x now expired (AC_WaitForAck a b) = act_map RV_Ack (op_wait_for_ack T x a b)"
| "perform T D x now expired AC_Shutdown = act_map RV_Unit (\<lambda>c. Some (bounded_disconnect T D expired c))"

text \<open>\<^verbatim>\<open>handle_command\<close> answers the reply channel and says whether the actor goes on.\<close>

definition handle_command ::
    "'t transport_ops \<Rightarrow> 't drops \<Rightarrow> externs \<Rightarrow> int \<Rightarrow> bool \<Rightarrow> actor_command \<Rightarrow> 't client \<Rightarrow>
     (bool \<times> reply_value outcome \<times> 't client) option" where
  "handle_command T D x now expired command c =
     map_option (\<lambda>(r, c'). (command \<noteq> AC_Shutdown, r, c')) (perform T D x now expired command c)"

definition is_ack_wait :: "actor_command \<Rightarrow> bool" where
  "is_ack_wait command = (case command of AC_WaitForAck _ _ \<Rightarrow> True | _ \<Rightarrow> False)"

text \<open>
  The command dropped at its suspension point number \<open>n\<close>; nothing when it completes before it gets
  there.
\<close>

definition interrupted ::
    "'t transport_ops \<Rightarrow> 't drops \<Rightarrow> externs \<Rightarrow> int \<Rightarrow> nat \<Rightarrow> actor_command \<Rightarrow> 't client \<Rightarrow> 't client option" where
  "interrupted T D x now n command c =
     (case perform (interruptible T D) (fused_drops D) x now False command
             (with_transport (\<lambda>t. \<lparr>fu_inner = t, fu_left = n\<rparr>) c) of
        Some (Panic, c') \<Rightarrow> Some (with_transport fu_inner c')
      | _ \<Rightarrow> None)"

definition after_interrupt ::
    "'t transport_ops \<Rightarrow> 't drops \<Rightarrow> bool \<Rightarrow> actor_command \<Rightarrow> 't client \<Rightarrow> bool \<times> 't client" where
  "after_interrupt T D expired command c =
     (if is_ack_wait command then (True, c)
      else if expired then (False, c\<lparr>cl_transport := drop_close D (cl_transport c)\<rparr>)
      else (True, case op_disconnect T c of Some (_, c') \<Rightarrow> c' | None \<Rightarrow> c))"

section \<open>The actor\<close>

record 't actor =
  ac_client :: "'t client"
  ac_waiting :: "queued_command list"
  ac_queue :: "queued_command list"
  ac_capacity :: nat
  ac_generation :: u64
  ac_running :: bool
  ac_replies :: "(nat \<times> reply_value outcome) list"

definition spawn_inner :: "'t client \<Rightarrow> nat \<Rightarrow> 't actor" where
  "spawn_inner c command_capacity =
     \<lparr>ac_client = c, ac_waiting = [], ac_queue = [], ac_capacity = command_capacity,
      ac_generation = 0, ac_running = True, ac_replies = []\<rparr>"

definition spawn :: "'t client \<Rightarrow> 't actor" where
  "spawn c = spawn_inner c MANAGED_CLIENT_COMMAND_CAPACITY"

definition spawn_with_capacity :: "'t client \<Rightarrow> nat \<Rightarrow> 't actor outcome" where
  "spawn_with_capacity c command_capacity =
     (if command_capacity = 0
      then Err (InvalidArgument ''command_capacity'' ''must be greater than zero'')
      else Ok (spawn_inner c command_capacity))"

text \<open>
  What happens to an actor. \<^verbatim>\<open>request\<close> reads the generation, then waits for room in the queue: a
  submission first joins \<open>ac_waiting\<close>. The labels carry what a run of a command depends on. A panic
  would end the task; it is not a step.
\<close>

datatype actor_label =
    L_Submit queued_command
  | L_Enqueue
  | L_Cancel
  | L_Discard queued_command
  | L_Run queued_command int
  | L_Interrupt queued_command int nat
  | L_Event
  | L_Stop

definition request :: "actor_command \<Rightarrow> nat \<Rightarrow> 't actor \<Rightarrow> queued_command" where
  "request command reply a =
     \<lparr>qc_command = command, qc_generation = ac_generation a, qc_reply = reply\<rparr>"

definition cancel_pending_operations :: "'t actor \<Rightarrow> 't actor" where
  "cancel_pending_operations a = a\<lparr>ac_generation := ac_generation a + 1\<rparr>"

inductive actor_step ::
    "'t transport_ops \<Rightarrow> 't drops \<Rightarrow> externs \<Rightarrow> 't actor \<Rightarrow> actor_label \<Rightarrow> 't actor \<Rightarrow> bool"
  for T D x where
  submit: "ac_running a \<Longrightarrow> q = request command reply a \<Longrightarrow>
    actor_step T D x a (L_Submit q) (a\<lparr>ac_waiting := ac_waiting a @ [q]\<rparr>)"
| enqueue: "ac_running a \<Longrightarrow> ac_waiting a = q # qs \<Longrightarrow> length (ac_queue a) < ac_capacity a \<Longrightarrow>
    actor_step T D x a L_Enqueue (a\<lparr>ac_waiting := qs, ac_queue := ac_queue a @ [q]\<rparr>)"
| cancel: "actor_step T D x a L_Cancel (cancel_pending_operations a)"
| discard: "ac_running a \<Longrightarrow> ac_queue a = q # qs \<Longrightarrow> qc_generation q \<noteq> ac_generation a \<Longrightarrow>
    actor_step T D x a (L_Discard q) (a\<lparr>ac_queue := qs\<rparr>)"
| run: "ac_running a \<Longrightarrow> ac_queue a = q # qs \<Longrightarrow> qc_generation q = ac_generation a \<Longrightarrow>
    handle_command T D x now expired (qc_command q) (ac_client a) = Some (go, r, c) \<Longrightarrow>
    r \<noteq> Panic \<Longrightarrow> actor_step T D x a (L_Run q now)
      (a\<lparr>ac_queue := qs, ac_client := c, ac_running := go,
        ac_replies := ac_replies a @ [(qc_reply q, r)]\<rparr>)"
| interrupt: "ac_running a \<Longrightarrow> ac_queue a = q # qs \<Longrightarrow> qc_generation q = ac_generation a \<Longrightarrow>
    interrupted T D x now n (qc_command q) (ac_client a) = Some c \<Longrightarrow>
    after_interrupt T D expired (qc_command q) c = (go, c') \<Longrightarrow>
    actor_step T D x a (L_Interrupt q now n)
      (cancel_pending_operations (a\<lparr>ac_queue := qs, ac_client := c', ac_running := go\<rparr>))"
| idle: "ac_running a \<Longrightarrow> ac_queue a = [] \<Longrightarrow> cl_connected (ac_client a) \<Longrightarrow>
    op_next_event T x (ac_client a) = Some (r, c) \<Longrightarrow>
    actor_step T D x a L_Event (a\<lparr>ac_client := c\<rparr>)"
| closed: "ac_running a \<Longrightarrow> ac_queue a = [] \<Longrightarrow> ac_waiting a = [] \<Longrightarrow>
    actor_step T D x a L_Stop (a\<lparr>ac_running := False\<rparr>)"
| stopped: "\<not> ac_running a \<Longrightarrow> bounded_disconnect T D expired (ac_client a) = (r, c) \<Longrightarrow>
    actor_step T D x a L_Stop (a\<lparr>ac_client := c\<rparr>)"

inductive actor_trace ::
    "'t transport_ops \<Rightarrow> 't drops \<Rightarrow> externs \<Rightarrow> 't actor \<Rightarrow> actor_label list \<Rightarrow> 't actor \<Rightarrow> bool"
  for T D x a where
  trace_nil: "actor_trace T D x a [] a"
| trace_snoc: "actor_trace T D x a ls b \<Longrightarrow> actor_step T D x b l b' \<Longrightarrow> actor_trace T D x a (ls @ [l]) b'"

inductive_cases trace_NilE: "actor_trace T D x a [] b"

section \<open>What a command may send\<close>

text \<open>The packets a command is meant to write, in order.\<close>

definition sign_script :: "byte list \<Rightarrow> byte list list" where
  "sign_script data =
     [into_encoded cmd_sign_start] @
     concat (map (command_script \<circ> cmd_sign_data) (chunks SIGNING_CHUNK_BYTES data)) @
     [into_encoded cmd_sign_finish]"

primrec script :: "int \<Rightarrow> actor_command \<Rightarrow> byte list list" where
  "script now AC_Connect = [into_encoded cmd_app_start]"
| "script now AC_Disconnect = []"
| "script now AC_Reconnect = [into_encoded cmd_app_start]"
| "script now AC_QueryDeviceInfo = [into_encoded cmd_device_query]"
| "script now (AC_ListContacts a) = [into_encoded (cmd_get_contacts a)]"
| "script now (AC_ListContactsSnapshot a) = [into_encoded (cmd_get_contacts a)]"
| "script now (AC_SendDirectText a b d) = [into_encoded (cmd_send_direct_text a (timestamp_of now) b d)]"
| "script now (AC_SendDirectCommand a b d) = [into_encoded (cmd_send_direct_command a (timestamp_of now) b d)]"
| "script now (AC_SendChannelMessage a b d) = [into_encoded (cmd_send_channel a b (timestamp_of now) d)]"
| "script now AC_GetTime = [into_encoded cmd_get_time]"
| "script now (AC_SetTime a) = [into_encoded (cmd_set_time a)]"
| "script now AC_GetBattery = [into_encoded cmd_get_battery]"
| "script now (AC_SendSelfAdvert a) = [into_encoded (cmd_send_self_advert a)]"
| "script now (AC_SetAdvertName a) = command_script (cmd_set_advert_name a)"
| "script now (AC_SetCoordinates a b) = command_script (cmd_set_coordinates a b)"
| "script now (AC_SetTxPower a) = command_script (cmd_set_tx_power a)"
| "script now (AC_SetRadioParams a) = command_script (cmd_set_radio_params a)"
| "script now (AC_SetTuning a) = [into_encoded (cmd_set_tuning a)]"
| "script now AC_GetTuning = [into_encoded cmd_get_tuning]"
| "script now (AC_ResetPath a) = command_script (cmd_reset_path a)"
| "script now (AC_UpdateContact a) = command_script (cmd_update_contact a)"
| "script now (AC_ShareContact a) = command_script (cmd_share_contact a)"
| "script now (AC_ExportContact a) = command_script (cmd_export_contact a)"
| "script now (AC_ImportContact a) = command_script (cmd_import_contact a)"
| "script now (AC_GetContact a) = command_script (cmd_get_contact a)"
| "script now (AC_GetAdvertPath a) = command_script (cmd_get_advert_path a)"
| "script now (AC_SetAutoAddConfig a) = command_script (cmd_set_auto_add_config a)"
| "script now AC_GetAutoAddConfig = [into_encoded cmd_get_auto_add_config]"
| "script now AC_GetCustomVars = [into_encoded cmd_get_custom_vars]"
| "script now (AC_SetCustomVar a b) = command_script (cmd_set_custom_var a b)"
| "script now (AC_GetStats a) = [into_encoded (cmd_get_stats a)]"
| "script now AC_GetAllowedRepeatFrequencies = [into_encoded cmd_get_allowed_repeat_frequencies]"
| "script now (AC_SetPathHashMode a) = command_script (cmd_set_path_hash_mode a)"
| "script now AC_GetPathHashMode = [into_encoded cmd_device_query]"
| "script now (AC_SetFloodScope a) = [into_encoded (cmd_set_flood_scope a)]"
| "script now (AC_SetDefaultFloodScope a b) = command_script (cmd_set_default_flood_scope a b)"
| "script now AC_ClearDefaultFloodScope = [into_encoded cmd_clear_default_flood_scope]"
| "script now AC_GetDefaultFloodScope = [into_encoded cmd_get_default_flood_scope]"
| "script now (AC_GetChannel a) = [into_encoded (cmd_get_channel a)]"
| "script now (AC_SetChannel a b d) = command_script (cmd_set_channel a b d)"
| "script now (AC_ClearChannel a) = [into_encoded (cmd_clear_channel a)]"
| "script now (AC_RemoveContact a) = command_script (cmd_remove_contact a)"
| "script now (AC_Login a b) = command_script (cmd_send_login a b)"
| "script now (AC_Logout a) = command_script (cmd_logout a)"
| "script now (AC_HasConnection a) = command_script (cmd_has_connection a)"
| "script now (AC_RemoteStatus a) = command_script (cmd_send_status_request a)"
| "script now AC_GetSelfTelemetry = [into_encoded cmd_get_self_telemetry]"
| "script now (AC_BinaryRequest a b d) = command_script (cmd_send_binary_request a b d)"
| "script now (AC_AnonymousRequest a b d e) = command_script (cmd_send_anonymous_request a b d e)"
| "script now (AC_SendNodeDiscovery a b d e) = command_script (cmd_send_node_discovery a b d e)"
| "script now (AC_DiscoverPath a) = command_script (cmd_discover_path a)"
| "script now (AC_Sign a) = sign_script a"
| "script now AC_ExportPrivateKey = [into_encoded cmd_export_private_key]"
| "script now (AC_ImportPrivateKey a) = [into_encoded (cmd_import_private_key a)]"
| "script now (AC_SetDevicePin a) = command_script (cmd_set_device_pin a)"
| "script now AC_Reboot = [into_encoded cmd_reboot]"
| "script now AC_FactoryReset = [into_encoded cmd_factory_reset]"
| "script now AC_SyncNextMessage = [into_encoded cmd_sync_next_message]"
| "script now (AC_WaitForAck a b) = []"
| "script now AC_Shutdown = []"

lemma act_map_eq_Some:
  "act_map f a c = Some (r, c') \<longleftrightarrow> (\<exists>r1. a c = Some (r1, c') \<and> r = map_ok f r1)"
  by (auto simp: act_map_def)

lemma keeps_act_map: "keeps I P Q a \<Longrightarrow> keeps I P Q (act_map f a)"
  by (auto simp: keeps_def act_map_eq_Some)

lemma returns_act_map: "returns a \<Longrightarrow> returns (act_map f a)"
  by (auto simp: returns_def act_map_def)

text \<open>Only the written packets count here; an operation may succeed without writing its script.\<close>

definition writes_within :: "('t \<Rightarrow> byte list list) \<Rightarrow> byte list list \<Rightarrow> ('t, 'r) action \<Rightarrow> bool" where
  "writes_within sent ss a \<longleftrightarrow>
     (\<forall>c r c'. a c = Some (r, c') \<longrightarrow>
        (\<exists>ps. prefix ps ss \<and> sent (cl_transport c') = sent (cl_transport c) @ ps))"

lemma writes_within_act_map: "writes_within sent s a \<Longrightarrow> writes_within sent s (act_map f a)"
  by (auto simp: writes_within_def act_map_eq_Some)

lemma writes_within_follows: "follows sent s a \<Longrightarrow> writes_within sent s a"
  by (force simp: writes_within_def follows_def)

lemma writes_withinD:
  "writes_within sent s a \<Longrightarrow> a c = Some (r, c') \<Longrightarrow>
   \<exists>ps. prefix ps s \<and> sent (cl_transport c') = sent (cl_transport c) @ ps"
  by (simp add: writes_within_def)

context session_calculus
begin

lemma keeps_perform:
  assumes "\<And>c t. I c \<Longrightarrow> I (c\<lparr>cl_transport := t\<rparr>)"
  shows "keeps I I I (perform T D x now expired command)"
proof -
  have shutdown: "keeps I I I (\<lambda>c. Some (bounded_disconnect T D expired c))"
  proof (rule keepsI)
    fix c r c'
    assume "I c" and "Some (bounded_disconnect T D expired c) = Some (r, c')"
    then consider "c' = c" | "c' = c\<lparr>cl_transport := drop_close D (cl_transport c)\<rparr>"
      | "op_disconnect T c = Some (r, c')"
      by (auto simp: bounded_disconnect_def split: if_splits option.splits)
    then have "I c'"
      using \<open>I c\<close> assms keepsD [OF keeps_connections(3)] by cases auto
    then show "I c' \<and> (\<forall>v. r = Ok v \<longrightarrow> I c')" by simp
  qed
  note each = keeps_connections(3) keeps_restarts keeps_settings [THEN keeps_from_any(2)]
    keeps_queries [THEN keeps_from_any(2)] keeps_remote_operations [THEN keeps_from_any(2)]
    keeps_composite_operations [THEN keeps_from_any(2)] keeps_connections(1,2) [THEN keeps_from_any(2)]
    keeps_sync_next_message [THEN keeps_from_any(2)] keeps_wait_for_ack [THEN keeps_from_any(2)]
  show ?thesis
    by (cases command) (simp_all only: perform.simps, (rule keeps_act_map shutdown each)+)
qed

end

context finite_transport
begin

lemma returns_perform: "returns (perform ops D x now expired command)"
proof -
  note each = returns_settings returns_queries returns_remote_operations returns_composite_operations
    returns_connections returns_sync returns_wait_for_ack returns_Some(1)
  show ?thesis
    by (cases command) (simp_all only: perform.simps, (rule returns_act_map each)+)
qed

end

context logged_transport
begin

lemma perform_within:
  assumes "expired \<Longrightarrow> (\<And>t. sent (drop_close D t) = sent t)"
  shows "writes_within sent (script now command) (perform ops D x now expired command)"
proof -
  have shutdown: "writes_within sent [] (\<lambda>c. Some (bounded_disconnect ops D expired c))"
    unfolding writes_within_def
  proof (intro allI impI)
    fix c r c'
    assume "Some (bounded_disconnect ops D expired c) = Some (r, c')"
    then consider "c' = c" | "expired" "c' = c\<lparr>cl_transport := drop_close D (cl_transport c)\<rparr>"
      | "op_disconnect ops c = Some (r, c')"
      by (auto simp: bounded_disconnect_def split: if_splits option.splits)
    then show "\<exists>ps. prefix ps [] \<and> sent (cl_transport c') = sent (cl_transport c) @ ps"
      using assms followsD [OF follows_connections(3)] by cases auto
  qed
  note each = follows_connections follows_settings follows_queries follows_remote_operations
    follows_composite_operations follows_sign [folded sign_script_def] follows_wait_for_ack
  have sync: "writes_within sent [into_encoded cmd_sync_next_message] (op_sync_next_message ops x)"
    using sync_logs by (simp add: writes_within_def)
  show ?thesis
    by (cases command)
      (simp_all only: perform.simps script.simps,
       (rule writes_within_act_map shutdown sync each [THEN writes_within_follows])+)
qed

end

lemma op_disconnect_cases:
  obtains (closed) r t where "op_disconnect T c = Some (r, mark_disconnected (c\<lparr>cl_transport := t\<rparr>))" "r \<noteq> Panic"
  | (panicked) t where "op_disconnect T c = Some (Panic, c\<lparr>cl_transport := t\<rparr>)"
proof (cases "t_disconnect T (cl_transport c)")
  case (Pair r t)
  then show ?thesis using closed panicked by (cases r) (auto simp: op_disconnect_def)
qed

text \<open>The two commands that carry an array carry one of its length.\<close>

definition arrays_wf :: "actor_command \<Rightarrow> bool" where
  "arrays_wf command =
     (case command of
        AC_SetDefaultFloodScope _ key \<Rightarrow> length key = 16
      | AC_SetChannel _ _ secret \<Rightarrow> length secret = 16
      | _ \<Rightarrow> True)"

lemma calm_act_map: "calm a \<Longrightarrow> calm (act_map f a)"
  by (auto simp: calm_def act_map_eq_Some eq_commute [of Panic])

context calm_transport
begin

lemma calm_perform: "arrays_wf command \<Longrightarrow> calm (perform ops D x now expired command)"
proof -
  have "bounded_disconnect ops D expired c \<noteq> (Panic, c')" for c c'
    using calm_connections(3) by (cases rule: op_disconnect_cases [of ops c])
      (auto simp: bounded_disconnect_def calm_def)
  then have shutdown: "calm (\<lambda>c. Some (bounded_disconnect ops D expired c))"
    by (simp add: calm_def)
  note each = calm_settings calm_queries calm_remote_operations calm_composite_operations
    calm_connections calm_sync calm_wait_for_ack
  assume "arrays_wf command"
  then show ?thesis
    by (cases command)
      (simp_all only: perform.simps arrays_wf_def actor_command.case, (rule calm_act_map shutdown each | assumption)+)
qed

end

section \<open>Interrupted commands\<close>

text \<open>
  The log of a transport also says what a dropped future leaves of it: a dropped write may have
  handed its packet over or not. An interruptible transport then is a logged transport again, and
  one on which every operation returns, since each read uses up a suspension point.
\<close>

locale droppable_transport = logged_transport ops sent
  for ops :: "'t transport_ops" and sent :: "'t \<Rightarrow> byte list list" +
  fixes D :: "'t drops"
  assumes drop_write_logs: "sent (drop_write D payload t) = sent t \<or> sent (drop_write D payload t) = sent t @ [payload]"
    and drop_open_logs: "sent (drop_open D t) = sent t"
    and drop_close_logs: "sent (drop_close D t) = sent t"

lemma interruptible_simps [simp]:
  "t_connect (interruptible T D) = burn (drop_open D) (t_connect T)"
  "t_disconnect (interruptible T D) = burn (drop_close D) (t_disconnect T)"
  "t_write (interruptible T D) payload = burn (drop_write D payload) (t_write T payload)"
  "t_read (interruptible T D) limit = burn_read (t_read T limit)"
  "t_try_read (interruptible T D) f = (case t_try_read T (fu_inner f) of (r, t) \<Rightarrow> (r, f\<lparr>fu_inner := t\<rparr>))"
  "t_reconnect (interruptible T D) = burn (drop_open D) (t_reconnect T)"
  by (simp_all add: interruptible_def)

sublocale droppable_transport \<subseteq> fused: logged_transport "interruptible ops D" "\<lambda>f. sent (fu_inner f)"
proof unfold_locales
  show "t_write (interruptible ops D) payload f = (r, f') \<Longrightarrow>
      sent (fu_inner f') = sent (fu_inner f) @ [payload] \<or>
      (sent (fu_inner f') = sent (fu_inner f) \<and> (\<forall>v. r \<noteq> Ok v))" for payload f r f'
    using drop_write_logs [of payload "fu_inner f"] write_logs [of payload "fu_inner f"]
    by (auto simp: burn_def split: if_splits prod.splits)
  show "sent (fu_inner (snd (t_read (interruptible ops D) limit f))) = sent (fu_inner f)" for limit f
    using read_logs [of limit "fu_inner f"] by (auto simp: burn_read_def split: prod.split)
  show "sent (fu_inner (snd (t_try_read (interruptible ops D) f))) = sent (fu_inner f)" for f
    using try_read_logs [of "fu_inner f"] by (auto split: prod.split)
  show "sent (fu_inner (snd (t_connect (interruptible ops D) f))) = sent (fu_inner f)"
    "sent (fu_inner (snd (t_disconnect (interruptible ops D) f))) = sent (fu_inner f)"
    "sent (fu_inner (snd (t_reconnect (interruptible ops D) f))) = sent (fu_inner f)" for f
    using drop_open_logs drop_close_logs connect_logs [of "fu_inner f"] disconnect_logs [of "fu_inner f"]
      reconnect_logs [of "fu_inner f"]
    by (auto simp: burn_def split: prod.split)
qed

interpretation fuse: finite_transport "interruptible T D" fu_left for T D
  by unfold_locales (auto simp: burn_read_def split: if_splits prod.splits)

text \<open>The in-memory transport completes every future at once, so dropping one changes nothing.\<close>

definition scripted_drops :: "scripted_transport drops" where
  "scripted_drops = \<lparr>drop_write = (\<lambda>_ t. t), drop_open = (\<lambda>t. t), drop_close = (\<lambda>t. t)\<rparr>"

interpretation scripted_drop: droppable_transport scripted_ops outgoing scripted_drops
  by unfold_locales (simp_all add: scripted_drops_def)

lemma with_transport_inv [simp]: "client_inv (with_transport f c) = client_inv c"
  by (simp add: with_transport_def client_inv_def)

lemma with_transport_sel [simp]: "cl_transport (with_transport f c) = f (cl_transport c)"
  by (simp add: with_transport_def)

lemma perform_inv:
  "client_inv c \<Longrightarrow> perform T D x now expired command c = Some (r, c') \<Longrightarrow> client_inv c'"
  by (rule keepsD [OF inv.keeps_perform]) simp_all

lemma interrupted_eq_Some:
  "interrupted T D x now n command c = Some c' \<longleftrightarrow>
     (\<exists>c1. perform (interruptible T D) (fused_drops D) x now False command
         (with_transport (\<lambda>t. \<lparr>fu_inner = t, fu_left = n\<rparr>) c) = Some (Panic, c1) \<and>
       c' = with_transport fu_inner c1)"
  by (auto simp: interrupted_def split: option.splits result.splits)

lemma interrupted_inv: "client_inv c \<Longrightarrow> interrupted T D x now n command c = Some c' \<Longrightarrow> client_inv c'"
  by (auto simp: interrupted_eq_Some dest: perform_inv [rotated])

lemma after_interrupt_inv: "client_inv c \<Longrightarrow> client_inv (snd (after_interrupt T D expired command c))"
  by (cases rule: op_disconnect_cases [of T c]) (auto simp: after_interrupt_def mark_disconnected_inv)

lemma bounded_disconnect_inv: "client_inv c \<Longrightarrow> client_inv (snd (bounded_disconnect T D expired c))"
  by (cases rule: op_disconnect_cases [of T c]) (auto simp: bounded_disconnect_def mark_disconnected_inv)

section \<open>The invariant of the actor\<close>

definition actor_inv :: "'t actor \<Rightarrow> bool" where
  "actor_inv a \<longleftrightarrow> client_inv (ac_client a) \<and> length (ac_queue a) \<le> ac_capacity a"

lemma actor_step_inv: "actor_step T D x a l b \<Longrightarrow> actor_inv a \<Longrightarrow> actor_inv b"
proof (induction rule: actor_step.induct)
  case (run a q qs now expired go r c)
  then show ?case
    by (auto simp: actor_inv_def handle_command_def dest: perform_inv)
next
  case (interrupt a q qs now n c expired go c')
  then have "client_inv c" by (auto simp: actor_inv_def dest: interrupted_inv [rotated])
  then have "client_inv c'"
    using interrupt after_interrupt_inv [of c T D expired "qc_command q"] by simp
  with interrupt show ?case by (simp add: actor_inv_def cancel_pending_operations_def)
next
  case (idle a r c)
  then show ?case
    using keepsD [OF inv.keeps_next_event, of "ac_client a"] by (simp add: actor_inv_def)
next
  case (stopped a expired r c)
  then show ?case
    using bounded_disconnect_inv [of "ac_client a" T D expired] by (simp add: actor_inv_def)
qed (auto simp: actor_inv_def cancel_pending_operations_def)

lemma actor_trace_inv: "actor_trace T D x a ls b \<Longrightarrow> actor_inv a \<Longrightarrow> actor_inv b"
  by (induction rule: actor_trace.induct) (auto intro: actor_step_inv)

text \<open>C5: In every state an actor can reach, however it is driven (submissions, cancellations,
  interruptions at any suspension point, dropped disconnects, idle reads), the client invariant holds:
  the acknowledgement tables are consistent, disjoint and hold at most 256 codes each, the next
  observation identifier is not zero, a deferred inbox response excludes an outstanding request, and a
  disconnected client tracks nothing; and the command queue stays within its capacity.\<close>

theorem managed_client_invariant:
  assumes "actor_trace T D x (spawn_inner (with_valid_timeout t d) capacity) ls a"
  shows "client_inv (ac_client a) \<and> length (ac_queue a) \<le> capacity"
proof -
  have "ac_capacity b = capacity" if "actor_trace T D x (spawn_inner (with_valid_timeout t d) capacity) ls b" for ls b
    using that
    by (induction rule: actor_trace.induct)
      (auto simp: spawn_inner_def cancel_pending_operations_def elim!: actor_step.cases)
  with assms have "ac_capacity a = capacity" by blast
  moreover have "actor_inv (spawn_inner (with_valid_timeout t d) capacity)"
    by (simp add: actor_inv_def spawn_inner_def with_valid_timeout_inv)
  with assms have "actor_inv a" by (rule actor_trace_inv)
  ultimately show ?thesis by (simp add: actor_inv_def)
qed

theorem managed_client_invariant_witness:
  "client_inv (ac_client (spawn_inner (with_valid_timeout scripted_default 1) 1)) \<and>
   length (ac_queue (spawn_inner (with_valid_timeout scripted_default 1) 1 :: scripted_transport actor)) \<le> 1"
  by (rule managed_client_invariant [OF trace_nil])

section \<open>No command is replayed\<close>

fun started :: "actor_label list \<Rightarrow> (queued_command \<times> int) list" where
  "started [] = []"
| "started (L_Run q now # ls) = (q, now) # started ls"
| "started (L_Interrupt q now n # ls) = (q, now) # started ls"
| "started (_ # ls) = started ls"

fun handled :: "actor_label list \<Rightarrow> queued_command list" where
  "handled [] = []"
| "handled (L_Run q now # ls) = q # handled ls"
| "handled (L_Interrupt q now n # ls) = q # handled ls"
| "handled (L_Discard q # ls) = q # handled ls"
| "handled (_ # ls) = handled ls"

fun submitted :: "actor_label list \<Rightarrow> queued_command list" where
  "submitted [] = []"
| "submitted (L_Submit q # ls) = q # submitted ls"
| "submitted (_ # ls) = submitted ls"

fun completed :: "actor_label list \<Rightarrow> nat list" where
  "completed [] = []"
| "completed (L_Run q now # ls) = qc_reply q # completed ls"
| "completed (_ # ls) = completed ls"

fun cancellations :: "actor_label list \<Rightarrow> nat" where
  "cancellations [] = 0"
| "cancellations (L_Cancel # ls) = Suc (cancellations ls)"
| "cancellations (L_Interrupt q now n # ls) = Suc (cancellations ls)"
| "cancellations (_ # ls) = cancellations ls"

lemma label_append [simp]:
  "started (ls @ ms) = started ls @ started ms"
  "handled (ls @ ms) = handled ls @ handled ms"
  "submitted (ls @ ms) = submitted ls @ submitted ms"
  "completed (ls @ ms) = completed ls @ completed ms"
  "cancellations (ls @ ms) = cancellations ls + cancellations ms"
proof -
  show "started (ls @ ms) = started ls @ started ms" by (induction ls rule: started.induct) simp_all
  show "handled (ls @ ms) = handled ls @ handled ms" by (induction ls rule: handled.induct) simp_all
  show "submitted (ls @ ms) = submitted ls @ submitted ms" by (induction ls rule: submitted.induct) simp_all
  show "completed (ls @ ms) = completed ls @ completed ms" by (induction ls rule: completed.induct) simp_all
  show "cancellations (ls @ ms) = cancellations ls + cancellations ms"
    by (induction ls rule: cancellations.induct) simp_all
qed

abbreviation actor_log :: "('t \<Rightarrow> byte list list) \<Rightarrow> 't actor \<Rightarrow> byte list list" where
  "actor_log sent a \<equiv> sent (cl_transport (ac_client a))"

context droppable_transport
begin

lemma interrupted_within:
  assumes "interrupted ops D x now n command c = Some c'"
  shows "\<exists>ps. prefix ps (script now command) \<and> sent (cl_transport c') = sent (cl_transport c) @ ps"
proof -
  from assms obtain c1 where
      p: "perform (interruptible ops D) (fused_drops D) x now False command
        (with_transport (\<lambda>t. \<lparr>fu_inner = t, fu_left = n\<rparr>) c) = Some (Panic, c1)"
      and c': "c' = with_transport fu_inner c1"
    by (auto simp: interrupted_eq_Some)
  have "writes_within (\<lambda>f. sent (fu_inner f)) (script now command)
      (perform (interruptible ops D) (fused_drops D) x now False command)"
    by (rule fused.perform_within) simp
  from writes_withinD [OF this p] c' show ?thesis by simp
qed

lemma disconnect_logs_client:
  "sent (cl_transport (snd (bounded_disconnect ops D expired c))) = sent (cl_transport c)"
  "sent (cl_transport (snd (after_interrupt ops D expired command c))) = sent (cl_transport c)"
proof -
  have d: "op_disconnect ops c = Some (r, c') \<Longrightarrow> sent (cl_transport c') = sent (cl_transport c)" for r c'
    using followsD [OF follows_connections(3), of c r c'] by auto
  show "sent (cl_transport (snd (bounded_disconnect ops D expired c))) = sent (cl_transport c)"
    using d by (auto simp: bounded_disconnect_def drop_close_logs split: option.split)
  show "sent (cl_transport (snd (after_interrupt ops D expired command c))) = sent (cl_transport c)"
    using d by (auto simp: after_interrupt_def drop_close_logs split: option.split)
qed

lemma actor_step_logs:
  assumes "actor_step ops D x a l b"
  shows "\<exists>pss. actor_log sent b = actor_log sent a @ concat pss \<and>
    list_all2 (\<lambda>(q, now) ps. prefix ps (script now (qc_command q))) (started [l]) pss"
  using assms
proof cases
  case (run q qs now expired go r c)
  then obtain r' where "perform ops D x now expired (qc_command q) (ac_client a) = Some (r', c)"
    by (auto simp: handle_command_def)
  from writes_withinD [OF perform_within this] drop_close_logs obtain ps where
      "prefix ps (script now (qc_command q))" "sent (cl_transport c) = actor_log sent a @ ps" by blast
  with run show ?thesis by (intro exI [of _ "[ps]"]) simp
next
  case (interrupt q qs now n c expired go c')
  from interrupted_within [OF interrupt(6)] obtain ps where
      "prefix ps (script now (qc_command q))" "sent (cl_transport c) = actor_log sent a @ ps" by blast
  moreover have "sent (cl_transport c') = sent (cl_transport c)"
    using disconnect_logs_client(2) [of expired "qc_command q" c] interrupt by simp
  ultimately show ?thesis
    using interrupt by (intro exI [of _ "[ps]"]) (simp add: cancel_pending_operations_def)
next
  case (idle r c)
  with followsD [OF follows_next_event, of x "ac_client a" r c] show ?thesis by auto
next
  case (stopped expired r c)
  with disconnect_logs_client(1) [of expired "ac_client a"] show ?thesis by simp
qed (simp_all add: cancel_pending_operations_def)

lemma actor_trace_logs:
  assumes "actor_trace ops D x a ls b"
  shows "\<exists>pss. actor_log sent b = actor_log sent a @ concat pss \<and>
    list_all2 (\<lambda>(q, now) ps. prefix ps (script now (qc_command q))) (started ls) pss"
  using assms
proof (induction rule: actor_trace.induct)
  case trace_nil
  show ?case by simp
next
  case (trace_snoc ls b l b')
  then obtain pss where 1: "actor_log sent b = actor_log sent a @ concat pss"
      "list_all2 (\<lambda>(q, now) ps. prefix ps (script now (qc_command q))) (started ls) pss" by blast
  from actor_step_logs [OF trace_snoc(2)] obtain pss' where 2: "actor_log sent b' = actor_log sent b @ concat pss'"
      "list_all2 (\<lambda>(q, now) ps. prefix ps (script now (qc_command q))) (started [l]) pss'" by blast
  with 1 have "list_all2 (\<lambda>(q, now) ps. prefix ps (script now (qc_command q))) (started (ls @ [l])) (pss @ pss')"
    unfolding label_append by (intro list_all2_appendI)
  with 1 2 show ?case by (intro exI [of _ "pss @ pss'"]) simp
qed

end

text \<open>C1: Nothing is ever sent twice. Whatever an actor goes through, the packets handed to the
  transport are, command by command in the order the commands were started, an initial part of what that
  one command is meant to send. No step retries or replays a packet, neither after an error nor after an
  interruption, a cancellation or a reconnect, and the idle reader sends nothing.\<close>

theorem no_command_replayed:
  assumes "droppable_transport T sent D" and "actor_trace T D x a ls b"
  shows "\<exists>pss. actor_log sent b = actor_log sent a @ concat pss \<and>
    list_all2 (\<lambda>(q, now) ps. prefix ps (script now (qc_command q))) (started ls) pss"
  using droppable_transport.actor_trace_logs [OF assms] .



section \<open>Cancellation\<close>

lemma generation_counts:
  assumes "actor_trace T D x a ls b"
  shows "ac_generation b = ac_generation a + of_nat (cancellations ls)"
  using assms
proof (induction rule: actor_trace.induct)
  case trace_nil
  show ?case by simp
next
  case (trace_snoc ls b l b')
  from trace_snoc(2) have "ac_generation b' = ac_generation b + of_nat (cancellations [l])"
    by cases (simp_all add: cancel_pending_operations_def)
  with trace_snoc(3) show ?case by (simp add: add.assoc)
qed

lemma started_generation:
  assumes "actor_step T D x a l b" and "(q, now) \<in> set (started [l])"
  shows "qc_generation q = ac_generation a"
  using assms by cases auto


section \<open>Interruption\<close>

lemma read_within_connected:
  "read_within T x d c = (r, c') \<Longrightarrow> (\<And>e. r \<noteq> Err e) \<Longrightarrow> cl_connected c' = cl_connected c"
  by (auto simp: read_within_def read_next_packet_def dest: parse_packet_frames(2)
      split: prod.splits polled.splits result.splits option.splits)

lemma ack_arm_connected: "cl_connected (snd (ack_arm code p l c)) = cl_connected c"
  by (cases p) (simp_all add: ack_arm_def pass_on_def)

lemma dropped_ack_wait_connected:
  assumes "op_wait_for_ack T x code requested c = Some (Panic, c')"
  shows "cl_connected c'"
proof -
  have arm: "ack_arm code p l c = (q, c') \<Longrightarrow> cl_connected c' = cl_connected c" for p l q and c c' :: "'a client"
    using ack_arm_connected [of code p l c] by simp
  have loop: "q = Panic \<longrightarrow> cl_connected c1"
    if "recv_loop T x budget (ack_arm code) l c = Some (q, c1)" "cl_connected c" for budget l c q c1
    using that(1)
    by (rule recv_loop_rule [where L = "\<lambda>_. cl_connected" and Q = "\<lambda>r c. r = Panic \<longrightarrow> cl_connected c"])
      (use that(2) read_within_connected arm in \<open>fastforce+\<close>)
  have "cl_connected c1" if "await_ack T x code d c = Some (Panic, c1)" "cl_connected c" for d c c1
    using that loop by (auto simp: await_ack_def await_until_def Let_def split: option.splits result.splits)
  with assms show ?thesis
    by (auto simp: op_wait_for_ack_def act_bind_eq_Some act_of_def ensure_def ensure_connected_def
        validate_operation_timeout_def take_completed_ack_eq split: if_splits option.splits)
qed

text \<open>C6: After an interruption the session is never left half-way. An interrupted wait for an
  acknowledgement leaves the client connected and the actor running; after any other interrupted
  command either the actor stops or the client is disconnected with nothing tracked, so that a response
  to the abandoned command cannot be taken for the response to a later one.\<close>

theorem interruption_leaves_no_ambiguous_session:
  assumes "calm_transport T" and "actor_step T D x a (L_Interrupt q now n) b"
  shows "if is_ack_wait (qc_command q) then ac_running b \<and> cl_connected (ac_client b)
    else ac_running b \<longrightarrow> \<not> cl_connected (ac_client b) \<and> pending_ack_codes (ac_client b) = [] \<and>
      completed_ack_order (ac_client b) = [] \<and> sync_state (ac_client b) = Idle \<and>
      deferred_sync (ac_client b) = None"
  using assms(2)
proof cases
  case (interrupt qs c expired go c')
  show ?thesis
  proof (cases "is_ack_wait (qc_command q)")
    case True
    then obtain code d where q: "qc_command q = AC_WaitForAck code d"
      by (auto simp: is_ack_wait_def split: actor_command.splits)
    from interrupt q have "cl_connected c"
      by (auto simp: interrupted_eq_Some act_map_eq_Some eq_commute [of Panic] with_transport_def
          dest!: dropped_ack_wait_connected)
    with True interrupt show ?thesis by (auto simp: after_interrupt_def cancel_pending_operations_def)
  next
    case False
    have "op_disconnect T c \<noteq> Some (Panic, c1)" for c1
      using calm_transport.calm_connections(3) [OF assms(1)] by (simp add: calm_def)
    with False interrupt show ?thesis
      by (cases rule: op_disconnect_cases [of T c])
        (auto simp: after_interrupt_def cancel_pending_operations_def mark_disconnected_def
          clear_tracking_def clear_sync_tracking_def pending_ack_codes_def Let_def split: if_splits)
  qed
qed

section \<open>Progress\<close>

text \<open>C14: On a transport that has only finitely many packets to deliver, every command returns, whatever
  it is: no wait of the client goes on forever.\<close>

theorem every_command_returns:
  assumes "finite_transport T backlog"
  shows "\<exists>go r c'. handle_command T D x now expired command c = Some (go, r, c')"
  using finite_transport.returns_perform [OF assms, of D x now expired command]
  by (force simp: returns_def handle_command_def)


section \<open>Witnesses\<close>

text \<open>
  A small session on the scripted transport: the clock is set and the device answers \<^verbatim>\<open>Ok\<close>; then a
  second command is interrupted at its first suspension point.
\<close>

definition no_externs :: externs where
  "no_externs = \<lparr>hex_encode = (\<lambda>_. []), hex_decode = (\<lambda>_. None), sha256 = (\<lambda>_. [])\<rparr>"

definition sample_client :: "byte list list \<Rightarrow> byte list list \<Rightarrow> scripted_transport client" where
  "sample_client inbound outbound =
     (with_valid_timeout \<lparr>st_kind = Scripted, st_connected = True, incoming = inbound, outgoing = outbound\<rparr> 1)
       \<lparr>cl_connected := True\<rparr>"

definition sample_request :: queued_command where
  "sample_request = \<lparr>qc_command = AC_SetTime 5, qc_generation = 0, qc_reply = 7\<rparr>"

definition sample_actor :: "queued_command list \<Rightarrow> scripted_transport actor" where
  "sample_actor queue = (spawn_inner (sample_client [[0]] []) 1)\<lparr>ac_queue := queue\<rparr>"

definition sample_end :: "scripted_transport actor" where
  "sample_end =
     (spawn_inner (sample_client [] [[6, 5, 0, 0, 0]]) 1)\<lparr>ac_replies := [(7, Ok (RV_Unit ()))]\<rparr>"

lemmas sample_defs = sample_client_def sample_request_def sample_actor_def sample_end_def
  with_valid_timeout_def spawn_inner_def no_externs_def

lemmas session_defs = handle_command_def act_map_def op_set_time_def send_command_expect_ok_def
  act_bind_def ensure_def ensure_connected_def send_encoded_def send_raw_def write_raw_def
  await_reply_def recv_loop.simps read_within_def read_next_packet_def parse_packet_def returning_def
  scripted_defs MAX_INNER_PAYLOAD_def

lemma sample_reply: "parse x [0] = Ok (P_Ok None)"
  by (simp add: parse_def packet_code_from_u8_def parse_ok_def MAX_INNER_PAYLOAD_def)

lemma sample_command: "encode (cmd_set_time 5) = [6, 5, 0, 0, 0]"
  by (simp add: encode_def cmd_set_time_def u32_to_le_bytes_def)

lemma sample_run:
  "handle_command scripted_ops scripted_drops no_externs 0 False (AC_SetTime 5) (sample_client [[0]] []) =
     Some (True, Ok (RV_Unit ()), sample_client [] [[6, 5, 0, 0, 0]])"
  by (simp add: session_defs sample_defs sample_reply sample_command)

lemma sample_trace:
  "actor_trace scripted_ops scripted_drops no_externs (sample_actor [])
     [L_Submit sample_request, L_Enqueue, L_Run sample_request 0] sample_end"
proof -
  let ?s = "actor_step scripted_ops scripted_drops no_externs"
  have 1: "?s (sample_actor []) (L_Submit sample_request) ((sample_actor [])\<lparr>ac_waiting := [sample_request]\<rparr>)"
    using actor_step.submit [of "sample_actor []" sample_request "AC_SetTime 5" 7 scripted_ops]
    by (simp add: sample_defs request_def)
  have 2: "?s ((sample_actor [])\<lparr>ac_waiting := [sample_request]\<rparr>) L_Enqueue (sample_actor [sample_request])"
    using actor_step.enqueue [of "(sample_actor [])\<lparr>ac_waiting := [sample_request]\<rparr>" sample_request "[]" scripted_ops]
    by (simp add: sample_defs)
  have 3: "?s (sample_actor [sample_request]) (L_Run sample_request 0) sample_end"
    using actor_step.run [of "sample_actor [sample_request]" sample_request "[]" scripted_ops scripted_drops
        no_externs 0 False True "Ok (RV_Unit ())" "sample_client [] [[6, 5, 0, 0, 0]]"] sample_run
    by (simp add: sample_actor_def sample_request_def sample_end_def spawn_inner_def)
  show ?thesis
    using trace_snoc [OF trace_snoc [OF trace_snoc [OF trace_nil 1] 2] 3] by simp
qed

theorem no_command_replayed_witness:
  "\<exists>pss. actor_log outgoing sample_end = actor_log outgoing (sample_actor []) @ concat pss \<and>
    list_all2 (\<lambda>(q, now) ps. prefix ps (script now (qc_command q)))
      (started [L_Submit sample_request, L_Enqueue, L_Run sample_request 0]) pss"
  by (rule no_command_replayed [OF scripted_drop.droppable_transport_axioms sample_trace])



theorem every_command_returns_witness:
  "\<exists>go r c'. handle_command scripted_ops scripted_drops no_externs 0 False (AC_SetTime 5)
     (sample_client [[0]] []) = Some (go, r, c')"
  by (rule every_command_returns [OF scripted.finite_transport_axioms])


text \<open>The cancellation of a submitted command: its generation is no longer the current one.\<close>

definition late_request :: queued_command where
  "late_request = \<lparr>qc_command = AC_SetTime 5, qc_generation = 1, qc_reply = 7\<rparr>"


text \<open>The command dropped while its packet is being written.\<close>

lemma sample_interrupted:
  "interrupted scripted_ops scripted_drops no_externs 0 0 (AC_SetTime 5) (sample_client [[0]] []) =
     Some (sample_client [[0]] [])"
  by (simp add: interrupted_def with_transport_def burn_def scripted_drops_def session_defs sample_defs
      sample_command)

theorem interruption_leaves_no_ambiguous_session_witness:
  "\<exists>b. actor_step scripted_ops scripted_drops no_externs (sample_actor [sample_request])
      (L_Interrupt sample_request 0 0) b \<and>
    (if is_ack_wait (qc_command sample_request) then ac_running b \<and> cl_connected (ac_client b)
     else ac_running b \<longrightarrow> \<not> cl_connected (ac_client b) \<and> pending_ack_codes (ac_client b) = [] \<and>
       completed_ack_order (ac_client b) = [] \<and> sync_state (ac_client b) = Idle \<and>
       deferred_sync (ac_client b) = None)"
proof -
  obtain go c' where after: "after_interrupt scripted_ops scripted_drops False (AC_SetTime 5)
      (sample_client [[0]] []) = (go, c')" by fastforce
  have "\<exists>b. actor_step scripted_ops scripted_drops no_externs (sample_actor [sample_request])
      (L_Interrupt sample_request 0 0) b"
    using after actor_step.interrupt [of "sample_actor [sample_request]" sample_request "[]" scripted_ops scripted_drops
        no_externs 0 0 "sample_client [[0]] []" False go c'] sample_interrupted
    by (auto simp: sample_actor_def sample_request_def spawn_inner_def)
  then obtain b where "actor_step scripted_ops scripted_drops no_externs (sample_actor [sample_request])
      (L_Interrupt sample_request 0 0) b" by blast
  with interruption_leaves_no_ambiguous_session [OF scripted_calm.calm_transport_axioms this]
  show ?thesis by blast
qed

end
