(* ===== verification/Requests.thy ===== *)
theory Requests
  imports Managed
begin

text \<open>
  What the single operations guarantee, beyond the calculi of the earlier theories: the numbering of
  the messages an actor publishes, the guard around an outstanding inbox response, the wait for an
  acknowledgement, and the transmission of data to be signed.
\<close>

section \<open>What lasts over the life of an actor\<close>

text \<open>A property of the client that every command keeps, run to its end or interrupted, that the wait for
  the next event keeps, and that neither the loss of the connection nor the transport touches, holds
  throughout.\<close>

locale lasting =
  fixes T :: "'t transport_ops" and D :: "'t drops" and x :: externs and I :: "'t client \<Rightarrow> bool"
  assumes perform_keeps: "I c \<Longrightarrow> perform T D x now expired command c = Some (r, c') \<Longrightarrow> I c'"
    and interrupted_keeps: "I c \<Longrightarrow> interrupted T D x now n command c = Some c' \<Longrightarrow> I c'"
    and next_event_keeps: "I c \<Longrightarrow> op_next_event T x c = Some (q, c') \<Longrightarrow> I c'"
    and disconnected_keeps: "I c \<Longrightarrow> I (mark_disconnected c)"
    and transport_keeps: "I c \<Longrightarrow> I (c\<lparr>cl_transport := t\<rparr>)"
begin

lemma closing_keeps:
  "I c \<Longrightarrow> I (snd (after_interrupt T D expired command c))"
  "I c \<Longrightarrow> I (snd (bounded_disconnect T D expired c))"
  by (cases rule: op_disconnect_cases [of T c];
      simp add: after_interrupt_def bounded_disconnect_def disconnected_keeps transport_keeps)+

lemma step_keeps: "actor_step T D x a l b \<Longrightarrow> I (ac_client a) \<Longrightarrow> I (ac_client b)"
proof (induction rule: actor_step.induct)
  case (run a q qs now expired go r c)
  then show ?case by (auto simp: handle_command_def dest: perform_keeps)
next
  case (interrupt a q qs now n c expired go c')
  then have "I c" by (auto dest: interrupted_keeps)
  then show ?case
    using interrupt closing_keeps(1) [of c expired "qc_command q"]
    by (simp add: cancel_pending_operations_def)
next
  case (idle a r c)
  then show ?case using next_event_keeps by simp
next
  case (stopped a expired r c)
  then show ?case using closing_keeps(2) [of "ac_client a" expired] by simp
qed (simp_all add: cancel_pending_operations_def)

lemma trace_keeps: "actor_trace T D x a ls b \<Longrightarrow> I (ac_client a) \<Longrightarrow> I (ac_client b)"
  by (induction rule: actor_trace.induct) (auto intro: step_keeps)

end

section \<open>Message numbers over the life of an actor\<close>

lemma counted_with_transport [simp]: "counted k (with_transport f c) = counted k c"
  by (simp add: counted_def with_transport_def)

lemma counted_perform: "counted 0 c \<Longrightarrow> perform T D x now expired command c = Some (r, c') \<Longrightarrow> counted 0 c'"
  by (rule keepsD [OF numbering.keeps_perform]) simp_all

interpretation numbered: lasting T D x "counted 0" for T D x
proof
  show "counted 0 c \<Longrightarrow> interrupted T D x now n command c = Some c' \<Longrightarrow> counted 0 c'" for c now n command c'
    by (auto simp: interrupted_eq_Some dest: counted_perform [rotated])
  show "counted 0 c \<Longrightarrow> op_next_event T x c = Some (q, c') \<Longrightarrow> counted 0 c'" for c q c'
    using keepsD [OF numbering.keeps_next_event, of c] by simp
qed (simp_all add: counted_perform counted_mark)

lemma nth_observation_eq: "n < 2 ^ 64 - 1 \<Longrightarrow> nth_observation n = of_nat (Suc n)"
proof (induction n)
  case 0
  show ?case by (simp add: nth_observation_def)
next
  case (Suc n)
  then have "nth_observation n = of_nat (Suc n)" by simp
  moreover have "(of_nat (Suc n) :: u64) + 1 = of_nat (Suc (Suc n))" by simp
  moreover have "unat (of_nat (Suc (Suc n)) :: u64) = Suc (Suc n)"
    using Suc.prems by (simp add: unat_of_nat take_bit_nat_eq_self del: of_nat_Suc)
  then have "(of_nat (Suc (Suc n)) :: u64) \<noteq> 0" by (metis nat.distinct(1) unat_0)
  ultimately show ?case
    by (simp only: nth_observation_Suc [symmetric] next_observation_id_def if_False)
qed


section \<open>The outstanding inbox response\<close>

text \<open>The commands that send a request of their own.\<close>

definition is_request :: "actor_command \<Rightarrow> bool" where
  "is_request command =
     (case command of
        AC_Connect \<Rightarrow> False | AC_Disconnect \<Rightarrow> False | AC_Reconnect \<Rightarrow> False
      | AC_SyncNextMessage \<Rightarrow> False | AC_WaitForAck _ _ \<Rightarrow> False | AC_Shutdown \<Rightarrow> False
      | _ \<Rightarrow> True)"

definition refused :: "('t, 'r) action \<Rightarrow> bool" where
  "refused a \<longleftrightarrow>
     (\<forall>c. sync_state c = AwaitingResponse \<longrightarrow> (\<exists>r. a c = Some (r, c) \<and> (\<forall>v. r \<noteq> Ok v)))"

definition inert :: "('t, 'r) action \<Rightarrow> bool" where
  "inert a \<longleftrightarrow> (\<forall>c. \<exists>r. a c = Some (r, c))"

lemma inert_checks: "inert ensure" "inert (act_of r)"
  by (simp_all add: inert_def ensure_def act_of_def)

lemma refused_after:
  fixes a :: "('t, 'a) action"
  assumes "inert a" and "\<And>v. refused (k v)"
  shows "refused (act_bind a k)"
  unfolding refused_def
proof (intro allI impI)
  fix c :: "'t client"
  assume c: "sync_state c = AwaitingResponse"
  from assms(1) obtain r where a: "a c = Some (r, c)" by (auto simp: inert_def)
  show "\<exists>r. act_bind a k c = Some (r, c) \<and> (\<forall>v. r \<noteq> Ok v)"
  proof (cases r)
    case (Ok v)
    from assms(2) [of v] c obtain r' where "k v c = Some (r', c)" "\<forall>v. r' \<noteq> Ok v"
      by (auto simp: refused_def)
    with a Ok show ?thesis by (simp add: act_bind_def)
  qed (use a in \<open>simp_all add: act_bind_def\<close>)
qed

lemma refused_first:
  fixes a :: "('t, 'a) action"
  assumes "refused a"
  shows "refused (act_bind a k)"
  unfolding refused_def
proof (intro allI impI)
  fix c :: "'t client"
  assume "sync_state c = AwaitingResponse"
  with assms obtain r where "a c = Some (r, c)" "\<forall>v. r \<noteq> Ok v" by (auto simp: refused_def)
  then show "\<exists>r. act_bind a k c = Some (r, c) \<and> (\<forall>v. r \<noteq> Ok v)"
    by (cases r) (simp_all add: act_bind_def)
qed

lemma refused_send: "refused (send_encoded T command)" "refused (send_only T command)"
proof -
  show "refused (send_encoded T command)" for command
    by (simp add: refused_def send_encoded_def send_raw_def)
  then show "refused (send_only T command)"
    unfolding send_only_def by (intro refused_after inert_checks)
qed

lemma refused_act_map:
  fixes a :: "('t, 'a) action"
  assumes "refused a"
  shows "refused (act_map f a)"
  unfolding refused_def
proof (intro allI impI)
  fix c :: "'t client"
  assume "sync_state c = AwaitingResponse"
  with assms obtain r where "a c = Some (r, c)" "\<forall>v. r \<noteq> Ok v" by (auto simp: refused_def)
  then show "\<exists>r. act_map f a c = Some (r, c) \<and> (\<forall>v. r \<noteq> Ok v)"
    by (cases r) (simp_all add: act_map_def)
qed

lemmas refusal = refused_act_map refused_send refused_send [THEN refused_first]
  refused_after [OF inert_checks(1)] refused_after [OF inert_checks(2)]

lemma refused_helpers:
  "refused (send_command_expect_ok T x command)"
  "refused (expect_ok_of T x r)"
  "refused (send_command_expect T x command ctxt extract)"
  "refused (send_command_expect_msg_sent_inner T x command track)"
  "refused (send_command_expect_msg_sent T x command)"
  "refused (remote_request T x r ctxt wait)"
  "refused (send_disconnect_command T command)"
  "refused (collect_contacts T x lastmod)"
  unfolding send_command_expect_ok_def expect_ok_of_def send_command_expect_def
    send_command_expect_msg_sent_inner_def send_command_expect_msg_sent_def
    send_command_expect_msg_sent_untracked_def remote_request_def send_disconnect_command_def
    collect_contacts_def
  by (intro refusal refused_first; fail)+

lemmas request_defs = op_list_contacts_def op_list_contacts_snapshot_def op_query_device_info_def
  op_get_time_def op_set_time_def op_get_battery_def op_send_self_advert_def op_set_advert_name_def
  op_set_coordinates_def op_set_tx_power_def op_set_radio_params_def op_set_tuning_def
  op_get_tuning_def op_reset_path_def op_update_contact_def op_share_contact_def
  op_export_contact_def op_import_contact_def op_get_contact_def op_get_advert_path_def
  op_set_auto_add_config_def op_get_auto_add_config_def op_get_custom_vars_def op_set_custom_var_def
  op_get_stats_def op_get_allowed_repeat_frequencies_def op_set_path_hash_mode_def
  op_get_path_hash_mode_def op_set_flood_scope_def op_set_default_flood_scope_def
  op_clear_default_flood_scope_def op_get_default_flood_scope_def op_get_channel_def
  op_set_channel_def op_clear_channel_def op_remove_contact_def op_login_def op_logout_def
  op_has_connection_def op_remote_status_def op_get_self_telemetry_def op_binary_request_def
  op_anonymous_request_def op_send_node_discovery_def op_discover_path_def op_sign_def
  op_export_private_key_def op_import_private_key_def op_set_device_pin_def op_reboot_def
  op_factory_reset_def op_send_direct_text_def op_send_direct_command_def
  op_send_channel_message_def

lemma refused_request: "is_request command \<Longrightarrow> refused (perform T D x now expired command)"
  by (cases command)
    (simp_all add: is_request_def request_defs refusal refused_helpers refused_first)

text \<open>C12: While the response to an inbox request is outstanding, no other request can reach the device:
  every command that would send one is turned down and leaves the client, its transport included, exactly
  as it was. The response can therefore never be taken for the answer to another command.\<close>

theorem no_request_while_response_outstanding:
  assumes "sync_state c = AwaitingResponse" and "is_request command"
  shows "\<exists>r. handle_command T D x now expired command c = Some (True, r, c) \<and> (\<forall>v. r \<noteq> Ok v)"
  using refused_request [OF assms(2), of T D x now expired] assms
  by (force simp: refused_def handle_command_def is_request_def)

theorem no_request_while_response_outstanding_witness:
  "\<exists>r. handle_command scripted_ops scripted_drops no_externs 0 False (AC_SetTime 5)
     ((sample_client [[0]] [])\<lparr>sync_state := AwaitingResponse\<rparr>) =
       Some (True, r, (sample_client [[0]] [])\<lparr>sync_state := AwaitingResponse\<rparr>) \<and> (\<forall>v. r \<noteq> Ok v)"
  by (rule no_request_while_response_outstanding) (simp_all add: is_request_def)

section \<open>Acknowledgements\<close>

lemma discarded_entries:
  "pending_acks (discard_pending_ack k c) = (pending_acks c)(k := None)"
  "completed_acks (discard_completed_ack k c) = (completed_acks c)(k := None)"
  by (simp_all add: pending_defs completed_defs)

lemma publish_tables [simp]:
  "pending_acks (publish_event p c) = pending_acks c"
  "completed_acks (publish_event p c) = completed_acks c"
  by (simp_all add: publish_event_def Let_def split: option.split)

definition awaiting_ack :: "byte list \<Rightarrow> 't client \<Rightarrow> bool" where
  "awaiting_ack code c \<longleftrightarrow> client_ready c \<and> completed_acks c code = None"

lemma other_ack_passes:
  assumes "awaiting_ack code c" and "a_code a \<noteq> code"
  shows "awaiting_ack code (pass_on (P_Ack a) c)"
proof -
  let ?c = "publish_event (P_Ack a) c"
  have r: "client_ready ?c" using assms(1) inv.publish_keeps [of c] by (simp add: awaiting_ack_def)
  then have "client_ready (update_tracking (P_Ack a) ?c)" by (rule update_tracking_ready)
  moreover have "completed_acks (update_tracking (P_Ack a) ?c) code = None"
  proof (cases rule: update_tracking_cases [of "P_Ack a" ?c])
    case (acked b)
    then have "distinct (completed_ack_order (discard_pending_ack (a_code b) ?c))"
      using r by (simp add: client_ready_def client_inv_def tracked_def)
    from remember_completed_ack_entries [OF this, of b code] acked assms show ?thesis
      by (simp add: awaiting_ack_def)
  qed (use assms in \<open>simp_all add: awaiting_ack_def\<close>)
  ultimately show ?thesis by (simp add: awaiting_ack_def pass_on_def)
qed

lemma ack_arm_outcome:
  assumes "ack_arm code p l c = (q, c')" and "awaiting_ack code c"
  shows "(\<forall>a. q = Inl (Ok a) \<longrightarrow> a_code a = code \<and> pending_acks c' code = None) \<and>
    q \<noteq> Inl Panic \<and> awaiting_ack code c'"
proof -
  have other: "awaiting_ack code (publish_event p c)"
    using assms(2) inv.publish_keeps [of c p] by (simp add: awaiting_ack_def)
  show ?thesis
  proof (cases "\<exists>a. p = P_Ack a")
    case True
    then obtain a where p: "p = P_Ack a" by blast
    show ?thesis
    proof (cases "a_code a = code")
      case True
      have "client_ready (publish_event p (discard_pending_ack code c))"
        using assms(2) inv.publish_keeps [of "discard_pending_ack code c"] inv.discard_packet [of c]
        by (simp add: awaiting_ack_def)
      with True p assms show ?thesis
        by (auto simp: ack_arm_def awaiting_ack_def discarded_entries)
    next
      case False
      with p assms other_ack_passes [OF assms(2) False] show ?thesis by (auto simp: ack_arm_def)
    qed
  next
    case False
    with assms other show ?thesis by (cases p) (auto simp: ack_arm_def)
  qed
qed

lemma read_within_awaiting:
  assumes "awaiting_ack code c" and "read_within T x d c = (Ok p, c')"
  shows "awaiting_ack code c'"
  using assms inv.within_keeps [of c T x d "Ok p" c']
  by (auto simp: awaiting_ack_def read_within_def read_next_packet_def
      dest: parse_packet_frames split: prod.splits polled.splits result.splits option.splits)

lemma await_ack_outcome:
  assumes "await_ack T x code d c = Some (r, c')" and "awaiting_ack code c" and "r \<noteq> Panic"
  shows "(\<forall>a. r = Ok a \<longrightarrow> a_code a = code) \<and> pending_acks c' code = None \<and> completed_acks c' code = None"
proof -
  let ?Q = "\<lambda>r c. \<forall>a. r = Ok a \<longrightarrow> a_code a = code \<and> pending_acks c code = None \<and> completed_acks c code = None"
  have loop: "?Q q c1" if "recv_loop T x budget (ack_arm code) () c = Some (q, c1)" for budget q c1
    using that
  proof (rule recv_loop_rule [where L = "\<lambda>_. awaiting_ack code" and Q = ?Q])
    fix l c p c1 r c2
    assume "awaiting_ack code c" "read_within T x (budget c) c = (Ok p, c1)" "ack_arm code p l c1 = (Inl r, c2)"
    with ack_arm_outcome [OF this(3)] read_within_awaiting [OF this(1,2)] show "?Q r c2"
      by (simp add: awaiting_ack_def)
  next
    fix l c p c1 l' c2
    assume "awaiting_ack code c" "read_within T x (budget c) c = (Ok p, c1)" "ack_arm code p l c1 = (Inr l', c2)"
    with ack_arm_outcome [OF this(3)] read_within_awaiting [OF this(1,2)] show "awaiting_ack code c2" by simp
  qed (simp_all add: assms(2))
  from assms(1) obtain q c1 where q: "await_until T x d (ack_arm code) () c = Some (q, c1)"
    by (auto simp: await_ack_def split: option.splits)
  with loop have "?Q q c1" by (auto simp: await_until_def Let_def)
  with q assms show ?thesis
    by (cases q) (auto simp: await_ack_def forget_ack_def discarded_entries)
qed


section \<open>Signing\<close>


lemma sign_packet:
  "ch \<noteq> [] \<Longrightarrow> length ch \<le> SIGNING_CHUNK_BYTES \<Longrightarrow>
   command_script (cmd_sign_data ch) = [command_code_to_u8 CC_SignData # ch]"
  by (simp add: cmd_sign_data_def checked_def SIGNING_CHUNK_BYTES_def encode_def MAX_INNER_PAYLOAD_def)

text \<open>C26: Signing hands the device exactly the data. When a signature is returned, what was written is the
  start of the session, the data cut into packets of 1 to 120 bytes that join up to it again, and the end
  of the session, and nothing else.\<close>

theorem sign_transmits_data:
  assumes "logged_transport T sent" and "op_sign T x data c = Some (Ok signature, c')"
  shows "\<exists>pieces. concat pieces = data \<and> list_all (\<lambda>p. p \<noteq> [] \<and> length p \<le> 120) pieces \<and>
    sent (cl_transport c') = sent (cl_transport c) @
      [encode cmd_sign_start] @ map (\<lambda>p. command_code_to_u8 CC_SignData # p) pieces @ [encode cmd_sign_finish]"
proof -
  let ?pieces = "chunks SIGNING_CHUNK_BYTES data"
  have "concat (map (command_script \<circ> cmd_sign_data) ?pieces) =
      concat (map (\<lambda>p. [command_code_to_u8 CC_SignData # p]) ?pieces)"
    using length_chunk [of _ SIGNING_CHUNK_BYTES data]
    by (intro arg_cong [where f = concat] map_cong) (auto simp: sign_packet)
  also have "\<dots> = map (\<lambda>p. command_code_to_u8 CC_SignData # p) ?pieces" by (simp add: concat_map_singleton)
  finally have script: "concat (map (command_script \<circ> cmd_sign_data) ?pieces) =
      map (\<lambda>p. command_code_to_u8 CC_SignData # p) ?pieces" .
  have "sent (cl_transport c') = sent (cl_transport c) @
      [encode cmd_sign_start] @ map (\<lambda>p. command_code_to_u8 CC_SignData # p) ?pieces @ [encode cmd_sign_finish]"
    using followsD [OF logged_transport.follows_sign [OF assms(1)] assms(2)] by (simp add: script)
  moreover have "concat ?pieces = data" by (rule concat_chunks) (simp add: SIGNING_CHUNK_BYTES_def)
  moreover have "list_all (\<lambda>p. p \<noteq> [] \<and> length p \<le> 120) ?pieces"
    using length_chunk [of _ SIGNING_CHUNK_BYTES data] by (auto simp: list_all_iff SIGNING_CHUNK_BYTES_def)
  ultimately show ?thesis by blast
qed

lemma signing_replies:
  "parse x [19, 0, 200, 0, 0, 0] = Ok (P_SignStart 200)"
  "parse x (20 # replicate 64 0) = Ok (P_Signature (Signature (replicate 64 0)))"
  by (simp_all add: parse_def packet_code_from_u8_def parse_sign_start_def parse_signature_def
      require_exact_len_def require_len_def idx_def slice_def read_u32_def u32_from_le_bytes_def signature_try_from_bytes_def
      MAX_INNER_PAYLOAD_def)

lemma signing_commands:
  "encode cmd_sign_start = [33]" "encode cmd_sign_finish = [35]" "cmd_sign_data [7] = Ok \<lparr>cmd_code = CC_SignData, cmd_payload = [7]\<rparr>"
  "encode \<lparr>cmd_code = CC_SignData, cmd_payload = [7]\<rparr> = [34, 7]"
  "chunks 120 [7::byte] = [[7]]"
  by code_simp+

lemma sample_signing:
  "op_sign scripted_ops no_externs [7] (sample_client [[19, 0, 200, 0, 0, 0], [0], 20 # replicate 64 0] []) =
     Some (Ok (Signature (replicate 64 0)), sample_client [] [[33], [34, 7], [35]])"
  by (simp add: op_sign_def send_command_expect_def expect_ok_of_def act_of_def expected_reply_def
      SIGNING_CHUNK_BYTES_def session_defs sample_defs signing_replies signing_commands sample_reply)

theorem sign_transmits_data_witness:
  "\<exists>pieces. concat pieces = [7] \<and> list_all (\<lambda>p. p \<noteq> [] \<and> length p \<le> 120) pieces \<and>
    outgoing (cl_transport (sample_client [] [[33], [34, 7], [35]])) =
      outgoing (cl_transport (sample_client [[19, 0, 200, 0, 0, 0], [0], 20 # replicate 64 0] [])) @
      [encode cmd_sign_start] @ map (\<lambda>p. command_code_to_u8 CC_SignData # p) pieces @ [encode cmd_sign_finish]"
  by (rule sign_transmits_data [OF scripted_log.logged_transport_axioms sample_signing])

definition acked_client :: "scripted_transport client" where
  "acked_client = (sample_client [] [])
     \<lparr>completed_acks := [[1, 2, 3, 4] \<mapsto> \<lparr>a_code = [1, 2, 3, 4], trip_time_ms = None\<rparr>], completed_ack_order := [[1, 2, 3, 4]]\<rparr>"



end
