(* ===== verification/Mqtt_Events.thy ===== *)
theory Mqtt_Events
  imports Mqtt_Schema Requests
begin

text \<open>
  From the radio to the broker: the client of \<^verbatim>\<open>meshquill-core\<close> and the schema of \<^verbatim>\<open>meshquill-mqtt\<close>
  together. Every packet the parser accepts becomes an event whose publication, where the schema has
  one, passes the schema's own validation; and so, by one more reading of the calculus of \<open>Session\<close>,
  does every event an actor ever publishes.
\<close>

section \<open>Hexadecimal text\<close>

text \<open>What \<^verbatim>\<open>hex::encode\<close> promises: two lowercase digits for each byte.\<close>

definition encodes_lower_hex :: "externs \<Rightarrow> bool" where
  "encodes_lower_hex x \<longleftrightarrow>
     (\<forall>bs. length (hex_encode x bs) = 2 * length bs \<and> list_all is_lower_hex_digit (hex_encode x bs))"

lemma lower_hex_encode:
  "encodes_lower_hex x \<Longrightarrow> is_lower_hex_exact (hex_encode x bs) n \<longleftrightarrow> length bs = n"
  "encodes_lower_hex x \<Longrightarrow> is_lower_hex_bounded (hex_encode x bs) n \<longleftrightarrow> length bs \<le> n"
  by (auto simp: encodes_lower_hex_def is_lower_hex_exact_def is_lower_hex_bounded_def)

lemma lower_hex_lowercase: "list_all is_lower_hex_digit s \<Longrightarrow> to_ascii_lowercase s = s"
  by (induction s)
    (auto simp: to_ascii_lowercase_def is_lower_hex_digit_def word_le_nat_alt)

lemma digit_lower_hex: "n < 16 \<Longrightarrow> is_lower_hex_digit (DIGITS ! n)"
proof -
  assume "n < 16"
  moreover have "\<forall>d\<in>set DIGITS. is_lower_hex_digit d"
    by (simp add: DIGITS_def bytes_of_def is_lower_hex_digit_def)
  moreover have "length DIGITS = 16" by (simp add: DIGITS_def bytes_of_def)
  ultimately show ?thesis by (metis nth_mem)
qed

lemma nibbles: "unat (drop_bit 4 b) < 16" "unat (b AND 0x0F) < 16" for b :: byte
proof -
  have "unat b < 2 ^ LENGTH(8)" by (rule unsigned_less)
  then show "unat (drop_bit 4 b) < 16" by (simp add: unsigned_drop_bit_eq drop_bit_eq_div [of _ "unat b"] take_bit_nat_eq_self)
  have "b AND 0x0F \<le> 0x0F" by (rule word_and_le1)
  then have "unat (b AND 0x0F) \<le> unat (0x0F :: byte)" by (simp only: word_le_nat_alt)
  then show "unat (b AND 0x0F) < 16" by simp
qed

lemma lowercase_hex_digits:
  "length (lowercase_hex bs) = 2 * length bs" "list_all is_lower_hex_digit (lowercase_hex bs)"
  by (induction bs) (simp_all add: lowercase_hex_def digit_lower_hex nibbles)

lemma lower_hex_lowercase_hex:
  "is_lower_hex_exact (lowercase_hex bs) n \<longleftrightarrow> length bs = n"
  "is_lower_hex_bounded (lowercase_hex bs) n \<longleftrightarrow> length bs \<le> n"
  by (auto simp: is_lower_hex_exact_def is_lower_hex_bounded_def lowercase_hex_digits)

section \<open>Parsed floats\<close>

lemma exact_quarter [simp]: "exact_float 24 (quarter v)"
  by (simp add: quarter_def flt_of_int_def exact_float_def round_to_idem)

lemma exact_scaled [simp]: "exact_float 53 (parse_scaled_i32 b0 b1 b2 b3)"
  by (simp add: parse_scaled_i32_def flt_of_int_def exact_float_def round_to_idem)

section \<open>Packets\<close>

definition publishable :: "externs \<Rightarrow> event \<Rightarrow> bool" where
  "publishable x e \<longleftrightarrow>
     (\<forall>p. from_core_event x e = Some p \<longrightarrow>
        publication_exact p \<and> validate_event_data (publication_kind p) (data_value p) = Ok ())"

definition packet_publishable :: "externs \<Rightarrow> packet \<Rightarrow> bool" where
  "packet_publishable x p \<longleftrightarrow> (\<forall>e. into_event p = Some e \<longrightarrow> publishable x e)"

lemma connection_publishable [simp]: "publishable x E_Connected" "publishable x E_Disconnected"
  by (simp_all add: publishable_def from_core_event_def)

lemma contact_hex:
  "encodes_lower_hex x \<Longrightarrow> contact_wf c \<Longrightarrow>
     is_lower_hex_exact (cd_public_key (contact_data_of x c)) 32 \<and>
     is_lower_hex_bounded (cd_out_path (contact_data_of x c)) 128"
  by (simp add: contact_data_of_def public_key_to_hex_def path_to_hex_def lower_hex_encode contact_wf_def
      public_key_wf_def route_wf_def path_wf_def PATH_MAX_BYTES_def)

lemma contacts_publishable:
  assumes "encodes_lower_hex x"
    and "\<And>c. c \<in> set cs \<Longrightarrow> contact_wf c \<and> exact_float 53 (c_adv_lat c) \<and> exact_float 53 (c_adv_lon c)"
  shows "publishable x (E_Contacts cs lastmod)"
proof -
  let ?ds = "map (contact_data_of x) cs"
  have "list_all contact_exact ?ds"
    using assms(2) by (auto simp: list_all_iff contact_exact_def contact_data_of_def)
  moreover have "validate_contacts ?ds = Ok ()"
    using assms(2) by (induction cs) (simp_all add: contact_hex [OF assms(1)])
  ultimately show ?thesis
    by (simp add: publishable_def from_core_event_def contacts_data_of_def read_contacts_data_json)
qed

lemma message_publishable:
  assumes "message_wf m" and "pred_option (exact_float 24) (msg_snr m)"
    and "\<And>s. msg_source m = Direct s \<Longrightarrow> is_lower_hex_exact s 6"
  shows "publishable x (E_Message m)"
proof -
  have "to_ascii_lowercase s = s" if "msg_source m = Direct s" for s
    using assms(3) [OF that] by (simp add: is_lower_hex_exact_def lower_hex_lowercase)
  then show ?thesis
    using assms
    by (auto simp: publishable_def from_core_event_def read_message_data_json message_data_of_def
        validate_incoming_message_def message_wf_def lower_hex_lowercase_hex
        split: message_source.splits option.splits)
qed


text \<open>What the parsers add to well-formed packets here: floats of their type, prefixes that are the
  text of six bytes, and payloads within the packet.\<close>

fun packet_exact :: "externs \<Rightarrow> packet \<Rightarrow> bool" where
  "packet_exact x (P_Contact c) \<longleftrightarrow> exact_float 53 (c_adv_lat c) \<and> exact_float 53 (c_adv_lon c)"
| "packet_exact x (P_ContactMsg m) \<longleftrightarrow> pred_option (exact_float 24) (msg_snr m) \<and>
     (\<exists>prefix. msg_source m = Direct (hex_encode x prefix) \<and> length prefix = 6)"
| "packet_exact x (P_ChannelMsg m) \<longleftrightarrow> pred_option (exact_float 24) (msg_snr m)"
| "packet_exact x (P_DeviceStats (DS_Radio s)) \<longleftrightarrow> exact_float 24 (rs_last_snr s)"
| "packet_exact x (P_TelemetryResponse r) \<longleftrightarrow> length (tr_payload r) \<le> MAX_INNER_PAYLOAD"
| "packet_exact x p \<longleftrightarrow> True"

lemma prefix_text: "\<exists>prefix. hex_encode x (take 6 bs) = hex_encode x prefix \<and> length prefix = 6" if "6 \<le> length bs"
  using that by (intro exI [of _ "take 6 bs"]) simp

lemma parse_contact_msg_exact: "parse_contact_msg x raw v = Ok p \<Longrightarrow> packet_exact x p"
  by (auto simp: parse_contact_msg_def parsers rbind_eq_Ok Let_def intro!: prefix_text split: if_splits)

lemma parse_contact_exact:
  assumes "parse_contact raw = Ok p"
  shows "packet_exact x p"
proof -
  obtain route n where "contact_route_of (raw ! 35) = (route, n)" by (cases "contact_route_of (raw ! 35)")
  with assms show ?thesis
    by (auto simp: parse_contact_def parsers rbind_eq_Ok Let_def read_scaled_def slice_def split: if_splits)
qed

lemma parsers_exact:
  "parse_channel_msg raw v = Ok p \<Longrightarrow> packet_exact x p"
  "parse_stats raw = Ok p \<Longrightarrow> packet_exact x p"
  "parse_telemetry_response raw = Ok p \<Longrightarrow> length raw \<le> MAX_INNER_PAYLOAD \<Longrightarrow> packet_exact x p"
  by (auto simp: parse_channel_msg_def parse_stats_def parse_telemetry_response_def parsers rbind_eq_Ok Let_def
      split: if_splits)

lemma telemetry_publishable:
  "telemetry_exact d \<Longrightarrow> validate_telemetry d = Ok () \<Longrightarrow> from_core_event x e = Some (PubTelemetry d) \<Longrightarrow>
   publishable x e"
  by (simp add: publishable_def read_telemetry_json del: telemetry_json.simps)

lemma packet_publishable_wf:
  assumes "encodes_lower_hex x" and "packet_wf p" and "packet_exact x p"
  shows "packet_publishable x p"
proof (cases p)
  case (P_Contact c)
  then show ?thesis
    using assms contacts_publishable [OF assms(1), of "[c]"] by (simp add: packet_publishable_def)
next
  case (P_ContactEnd lastmod)
  then show ?thesis
    using contacts_publishable [OF assms(1), of "[]"] by (simp add: packet_publishable_def)
next
  case (P_ContactMsg m)
  then show ?thesis
    using assms message_publishable [of m x] lower_hex_encode(1) [OF assms(1)]
    by (auto simp: packet_publishable_def)
next
  case (P_ChannelMsg m)
  then show ?thesis using assms message_publishable [of m x] by (auto simp: packet_publishable_def)
next
  case (P_DeviceStats d)
  then have "telemetry_exact (stats_data_of d)" using assms(3) by (cases d) simp_all
  moreover have "validate_telemetry (stats_data_of d) = Ok ()" by (cases d) simp_all
  ultimately show ?thesis
    using P_DeviceStats telemetry_publishable by (simp add: packet_publishable_def from_core_event_def)
next
  case (P_TelemetryResponse r)
  moreover from this assms(2,3) have "validate_telemetry (raw_telemetry r) = Ok ()"
    by (simp add: raw_telemetry_def lower_hex_lowercase_hex prefix_wf_def MAX_INNER_PAYLOAD_def)
  ultimately show ?thesis
    using telemetry_publishable [of "raw_telemetry r"]
    by (simp add: packet_publishable_def from_core_event_def raw_telemetry_def)
next
  case (P_Battery b)
  then show ?thesis
    using telemetry_publishable [of "TD_Battery b" x "E_Battery (bat_level b) (used_kb b) (total_kb b)"]
    by (simp add: packet_publishable_def from_core_event_def)
qed (use assms in \<open>simp_all add: packet_publishable_def publishable_def from_core_event_def ack_data_of_def
       lower_hex_lowercase_hex\<close>)


lemma parse_exact:
  assumes "parse x raw = Ok p"
  shows "packet_exact x p"
proof -
  have raw: "raw \<noteq> []" "length raw \<le> MAX_INNER_PAYLOAD" using parse_selects_code [OF assms] by simp_all
  consider "parse_contact raw = Ok p" | v where "parse_contact_msg x raw v = Ok p"
    | v where "parse_channel_msg raw v = Ok p" | "parse_stats raw = Ok p"
    | "parse_telemetry_response raw = Ok p"
    | "packet_code_of p \<notin> {PC_Contact, PC_ContactMsgRecv, PC_ChannelMsgRecv, PC_Stats, PC_TelemetryResponse}"
    using assms parse_selects_code(3) [OF assms] raw
    by (cases "packet_code_from_u8 (raw ! 0)") (auto simp: parse_def canonical_code_def)
  then show ?thesis
  proof cases
    case 6
    then show ?thesis by (cases p) simp_all
  qed (use raw in \<open>auto intro: parse_contact_exact parse_contact_msg_exact parsers_exact\<close>)
qed


lemma parse_publishable:
  assumes "encodes_lower_hex x" and "parse x raw = Ok p"
  shows "packet_publishable x p"
proof -
  have "utf8 (hex_encode x bs)" for bs
  proof (rule utf8_ascii)
    have "list_all is_lower_hex_digit (hex_encode x bs)" using assms(1) by (simp add: encodes_lower_hex_def)
    then show "list_all (\<lambda>b. b \<le> 0x7F) (hex_encode x bs)"
      by (rule list.pred_mono_strong) (auto simp: is_lower_hex_digit_def word_le_nat_alt)
  qed
  then have "packet_wf p" using assms(2) by (rule parse_wf)
  with assms(1) show ?thesis using parse_exact [OF assms(2)] by (rule packet_publishable_wf)
qed

section \<open>Events of a client\<close>

definition sendable :: "externs \<Rightarrow> 't client \<Rightarrow> bool" where
  "sendable x c \<longleftrightarrow> (encodes_lower_hex x \<longrightarrow> list_all (publishable x) (cl_events c))"

definition sendable_read :: "externs \<Rightarrow> packet \<Rightarrow> 't client \<Rightarrow> bool" where
  "sendable_read x p c \<longleftrightarrow> sendable x c \<and> (encodes_lower_hex x \<longrightarrow> packet_publishable x p)"

lemma sendable_cong: "cl_events c' = cl_events c \<Longrightarrow> sendable x c' = sendable x c"
  by (simp add: sendable_def)

lemma sendable_transport [simp]:
  "sendable x (c\<lparr>cl_transport := t\<rparr>) = sendable x c" "sendable x (with_transport f c) = sendable x c"
  by (simp_all add: sendable_def with_transport_def)

lemma sendable_emit: "sendable x c \<Longrightarrow> publishable x e \<Longrightarrow> sendable x (emit e c)"
  by (simp add: sendable_def emit_def)

lemma sendable_mark: "sendable x c \<Longrightarrow> sendable x (mark_disconnected c)"
  by (simp add: mark_disconnected_def Let_def clear_tracking_def clear_sync_tracking_def sendable_def emit_def)

lemma message_publishable_observed: "publishable x (E_Message (m\<lparr>observation_id := i\<rparr>)) = publishable x (E_Message m)"
  by (simp add: publishable_def from_core_event_def message_data_of_def)

lemma sendable_parse:
  assumes "parse_packet x raw c = (r, c')" and "sendable x c"
  shows "(\<forall>p. r = Ok p \<longrightarrow> sendable_read x p c') \<and> ((\<forall>p. r \<noteq> Ok p) \<longrightarrow> sendable x c')"
proof (cases "parse x raw")
  case (Ok p)
  have "packet_publishable x p" if "encodes_lower_hex x" using parse_publishable [OF that Ok] .
  with Ok assms show ?thesis
    by (cases p)
      (auto simp: parse_packet_def sendable_read_def sendable_def packet_publishable_def
        message_publishable_observed)
qed (use assms in \<open>auto simp: parse_packet_def\<close>)


lemma sendable_frames [simp]:
  "sendable x (update_tracking q c) = sendable x c"
  "sendable x (discard_pending_ack code c) = sendable x c"
  "sendable x (discard_completed_ack code c) = sendable x c"
  "sendable x (retain_sync_response q c) = sendable x c"
  "sendable x (c\<lparr>sync_state := s\<rparr>) = sendable x c"
  "sendable x (c\<lparr>deferred_sync := d\<rparr>) = sendable x c"
  "sendable x (c\<lparr>cl_connected := b\<rparr>) = sendable x c"
  "sendable x (clear_sync_tracking (clear_tracking c)) = sendable x c"
  by (rule sendable_cong; simp add: clear_tracking_def clear_sync_tracking_def)+

interpretation sending: reader x "sendable x" "sendable_read x" for x
  by unfold_locales (auto dest: sendable_parse simp: sendable_mark)

interpretation sending: session_calculus T x "sendable x" "sendable x" "sendable_read x" for T x
proof (unfold_locales, goal_cases)
  case (3 c limit r c')
  then show ?case by (rule sending.reads)
next
  case (4 c r c')
  then show ?case by (rule sending.reads)
next
  case (5 c payload w c')
  then show ?case using sending.reads(3) by blast
next
  case (7 p c e)
  then show ?case
    by (simp add: sendable_read_def) (auto simp: sendable_def emit_def packet_publishable_def)
qed (simp_all add: sendable_read_def sendable_emit sendable_mark take_completed_ack_eq forget_ack_def)

lemma sendable_perform: "sendable x c \<Longrightarrow> perform T D x now expired command c = Some (r, c') \<Longrightarrow> sendable x c'"
  by (rule keepsD [OF sending.keeps_perform]) simp_all

interpretation sending: lasting T D x "sendable x" for T D x
proof
  show "sendable x c \<Longrightarrow> interrupted T D x now n command c = Some c' \<Longrightarrow> sendable x c'" for c now n command c'
    by (auto simp: interrupted_eq_Some dest: sendable_perform [rotated])
  show "sendable x c \<Longrightarrow> op_next_event T x c = Some (q, c') \<Longrightarrow> sendable x c'" for c q c'
    using keepsD [OF sending.keeps_next_event, of x c] by simp
qed (simp_all add: sendable_perform sendable_mark)

section \<open>From the radio to the broker\<close>

text \<open>C17: Whatever the radio sends can be forwarded. Every event an actor ever publishes, through any
  sequence of commands, failures and interruptions, either is outside the MQTT schema or becomes a
  publication from which a valid envelope is built, for every non-nil identifier and every acceptable
  origin: no event the client produces is turned down by the gateway's own validation. (The hex library
  writes two lowercase digits for each byte.)\<close>

theorem client_events_publishable:
  assumes "actor_trace T D x (spawn_inner (with_valid_timeout t d) capacity) ls a"
    and "encodes_lower_hex x" and "e \<in> set (cl_events (ac_client a))" and "from_core_event x e = Some p"
    and "event_id \<noteq> 0" and "origin_ok origin"
  shows "publication_exact p \<and> (\<exists>envelope. from_publication event_id origin timestamp p = Ok envelope)"
proof -
  have "sendable x (ac_client (spawn_inner (with_valid_timeout t d) capacity))"
    by (simp add: sendable_def spawn_inner_def with_valid_timeout_def)
  with assms(1) have "sendable x (ac_client a)" by (rule sending.trace_keeps)
  with assms(2,3) have "publishable x e" by (simp add: sendable_def list_all_iff)
  with assms(4) have "publication_exact p" "validate_event_data (publication_kind p) (data_value p) = Ok ()"
    by (simp_all add: publishable_def)
  with assms(5,6) show ?thesis
    by (simp add: from_publication_def envelope_new_def validate_envelope_def)
qed


text \<open>A radio that sends an acknowledgement and closes the stream, so that connecting to it fails.\<close>

definition hex_externs :: externs where
  "hex_externs = \<lparr>hex_encode = lowercase_hex, hex_decode = (\<lambda>_. None), sha256 = (\<lambda>_. replicate 32 0)\<rparr>"

definition sample_radio :: scripted_transport where
  "sample_radio =
     \<lparr>st_kind = Scripted, st_connected = False, incoming = [[0x82, 1, 2, 3, 4, 0, 1, 0, 0]], outgoing = []\<rparr>"

definition sample_ack :: ack where
  "sample_ack = \<lparr>a_code = [1, 2, 3, 4], trip_time_ms = Some 0x0100\<rparr>"

lemma radio_ack: "parse x [0x82, 1, 2, 3, 4, 0, 1, 0, 0] = Ok (P_Ack sample_ack)"
  by (simp add: parse_def packet_code_from_u8_def parse_ack_def MAX_INNER_PAYLOAD_def parsers Let_def
      u32_from_le_bytes_def sample_ack_def)

lemmas connect_defs = op_connect_def start_session_def open_with_def op_init_def init_arm_def send_only_def
  pass_on_def publish_event_def update_tracking_def take_pending_ack_def close_with_def emit_def
  clear_tracking_def clear_sync_tracking_def retain_sync_response_def Let_def mark_disconnected_def

lemma radio_run:
  "\<exists>r c. handle_command scripted_ops scripted_drops hex_externs 0 False AC_Connect
       (with_valid_timeout sample_radio 1) = Some (True, r, c) \<and>
     r \<noteq> Panic \<and> E_Ack sample_ack \<in> set (cl_events c)"
proof -
  have "encode cmd_app_start \<noteq> [] \<and> length (cmd_payload cmd_app_start) \<le> 175"
    by (simp add: cmd_app_start_def encode_def bytes_of_def)
  then show ?thesis
    by (simp add: session_defs connect_defs sample_radio_def with_valid_timeout_def radio_ack)
qed


theorem client_events_publishable_witness:
  "\<exists>envelope. from_publication 5 (bytes_of ''site'') 1 (PubAck (ack_data_of sample_ack)) = Ok envelope"
proof -
  let ?a = "spawn_inner (with_valid_timeout sample_radio 1) 1"
  let ?q = "request AC_Connect 0 ?a"
  let ?step = "actor_step scripted_ops scripted_drops hex_externs"
  obtain r c where run: "handle_command scripted_ops scripted_drops hex_externs 0 False AC_Connect
      (with_valid_timeout sample_radio 1) = Some (True, r, c)" "r \<noteq> Panic" "E_Ack sample_ack \<in> set (cl_events c)"
    using radio_run by blast
  have 1: "?step ?a (L_Submit ?q) (?a\<lparr>ac_waiting := [?q]\<rparr>)"
    using actor_step.submit [of ?a ?q AC_Connect 0] by (simp add: spawn_inner_def)
  have 2: "?step (?a\<lparr>ac_waiting := [?q]\<rparr>) L_Enqueue (?a\<lparr>ac_queue := [?q]\<rparr>)"
    using actor_step.enqueue [of "?a\<lparr>ac_waiting := [?q]\<rparr>" ?q "[]"] by (simp add: spawn_inner_def)
  have "?step (?a\<lparr>ac_queue := [?q]\<rparr>) (L_Run ?q 0)
      (?a\<lparr>ac_queue := [], ac_client := c, ac_running := True, ac_replies := [(0, r)]\<rparr>)"
    using actor_step.run [of "?a\<lparr>ac_queue := [?q]\<rparr>" ?q "[]" scripted_ops scripted_drops hex_externs 0 False True r c]
      run
    by (simp add: spawn_inner_def request_def)
  note trace = trace_snoc [OF trace_snoc [OF trace_snoc [OF trace_nil 1] 2] this]
  have "encodes_lower_hex hex_externs"
    by (simp add: encodes_lower_hex_def hex_externs_def lowercase_hex_digits)
  moreover have "origin_ok (bytes_of ''site'')" by (simp add: origin_ok_def text_checks)
  ultimately show ?thesis
    using client_events_publishable [OF trace, of "E_Ack sample_ack" _ 5 "bytes_of ''site''" 1] run(3)
    by (simp add: from_core_event_def)
qed

end
