(* ===== verification/Mqtt_Gateway.thy ===== *)
theory Mqtt_Gateway
  imports Mqtt_Schema "HOL-Library.Sublist"
begin

text \<open>
  The MQTT gateway of \<^verbatim>\<open>meshquill-mqtt/src/runner.rs\<close>: the task that polls the broker connection and
  reports to the gateway over a channel, the gateway that publishes events and hands accepted
  commands to the application, and the way both are built from a configuration. The broker library
  is outside: what a poll returns and how an operation on it ends are inputs of a turn, as are the
  outcomes of the channels (delivered, full, closed) and the moments at which the cancellation token
  fires. A cancelled token stays cancelled, and every wait prefers it to anything else.
\<close>

section \<open>Notices and errors\<close>

datatype network_notice =
    NN_Connected
  | NN_Disconnected
  | NN_CommandReady
  | NN_CommandSubscriptionRejected
  | NN_Publish "byte list" "byte list" bool \<comment> \<open>topic, payload, retain\<close>

datatype gateway_notice =
    GN_BrokerState connection_status
  | GN_CommandReady
  | GN_Command accepted_command
  | GN_Rejected command_error

datatype (plugins only: code size) gateway_error =
    GE_Config config_error
  | GE_Command command_error
  | GE_Backoff backoff_error
  | GE_Schema schema_error
  | GE_ProtocolPartsMismatch
  | GE_PublicationTooLarge nat nat
  | GE_NonPublishableEvent
  | GE_Cancelled
  | GE_PublicationChannelClosed
  | GE_NoticeChannelClosed
  | GE_NetworkChannelClosed
  | GE_NetworkWorkerStopped
  | GE_CommandSubscriptionRejected
  | GE_Client rstr
  | GE_BrokerOperationTimeout u64
  | GE_ClockBeforeUnixEpoch
  | GE_TimestampOverflow

text \<open>
  What the broker library reports, as far as the two \<^verbatim>\<open>classify\<close> functions look at it: of a
  subscription acknowledgement, for each return code whether it is a success.
\<close>

datatype broker_event =
    BE_ConnAck
  | BE_Publish "byte list" "byte list" bool
  | BE_SubAck "bool list"
  | BE_Other

fun classify_event :: "broker_event \<Rightarrow> network_notice option" where
  "classify_event BE_ConnAck = Some NN_Connected"
| "classify_event (BE_Publish topic payload retain) = Some (NN_Publish topic payload retain)"
| "classify_event (BE_SubAck return_codes) =
     Some (if return_codes = [True] then NN_CommandReady else NN_CommandSubscriptionRejected)"
| "classify_event BE_Other = None"

section \<open>The network worker\<close>

datatype send_turn = Delivered | TokenCancelled | ChannelClosed

text \<open>What happens to the worker in one turn of its loop: whether the token fires before the poll, what the
  poll returns, how a send ends, and whether the token fires during the sleep.\<close>

record turn =
  tn_cancelled :: bool
  tn_poll :: "(unit, broker_event) result"
  tn_send :: send_turn
  tn_sleep_cancelled :: bool

text \<open>\<open>wk_delays\<close> keeps the delays slept since the last connection.\<close>

record worker =
  wk_connected :: bool
  wk_backoff :: exponential_backoff
  wk_cancelled :: bool
  wk_sent :: "network_notice list"
  wk_delays :: "u64 list"

definition worker_new :: "exponential_backoff \<Rightarrow> worker" where
  "worker_new b = \<lparr>wk_connected = False, wk_backoff = b, wk_cancelled = False, wk_sent = [], wk_delays = []\<rparr>"

definition send_network_notice ::
    "send_turn \<Rightarrow> network_notice \<Rightarrow> worker \<Rightarrow> (gateway_error, unit) result \<times> worker" where
  "send_network_notice t notice w =
     (if wk_cancelled w then (Ok (), w)
      else case t of
        Delivered \<Rightarrow> (Ok (), w\<lparr>wk_sent := wk_sent w @ [notice]\<rparr>)
      | TokenCancelled \<Rightarrow> (Ok (), w\<lparr>wk_cancelled := True\<rparr>)
      | ChannelClosed \<Rightarrow> (Err GE_NetworkChannelClosed, w))"

text \<open>The end of a failed poll: the next delay of the generator, slept unless the token fires.\<close>

definition sleep_backoff :: "turn \<Rightarrow> worker \<Rightarrow> (gateway_error, unit) result option \<times> worker" where
  "sleep_backoff t w =
     (case next_delay (wk_backoff w) of
        (delay, b) \<Rightarrow>
          if wk_cancelled w \<or> tn_sleep_cancelled t
          then (Some (Ok ()), w\<lparr>wk_backoff := b, wk_cancelled := True\<rparr>)
          else (None, w\<lparr>wk_backoff := b, wk_delays := wk_delays w @ [delay]\<rparr>))"

definition continue_with ::
    "('e, unit) result \<times> 's \<Rightarrow> ('s \<Rightarrow> ('e, unit) result option \<times> 's) \<Rightarrow> ('e, unit) result option \<times> 's" where
  "continue_with out k = (case out of (Ok _, s) \<Rightarrow> k s | (Err e, s) \<Rightarrow> (Some (Err e), s) | (Panic, s) \<Rightarrow> (Some Panic, s))"

definition worker_turn :: "turn \<Rightarrow> worker \<Rightarrow> (gateway_error, unit) result option \<times> worker" where
  "worker_turn t w =
     (if wk_cancelled w \<or> tn_cancelled t then (Some (Ok ()), w\<lparr>wk_cancelled := True\<rparr>)
      else case tn_poll t of
        Ok event \<Rightarrow>
          (case classify_event event of
             Some NN_Connected \<Rightarrow>
               continue_with (send_network_notice (tn_send t) NN_Connected
                 (w\<lparr>wk_connected := True, wk_backoff := backoff_reset (wk_backoff w), wk_delays := []\<rparr>))
                 (Pair None)
           | Some notice \<Rightarrow> continue_with (send_network_notice (tn_send t) notice w) (Pair None)
           | None \<Rightarrow> (None, w))
      | Err _ \<Rightarrow>
          continue_with
            (if wk_connected w
             then send_network_notice (tn_send t) NN_Disconnected (w\<lparr>wk_connected := False\<rparr>)
             else (Ok (), w))
            (sleep_backoff t)
      | Panic \<Rightarrow> (Some Panic, w))"

text \<open>A result, once there is one; none while the worker is still running.\<close>

fun worker_loop :: "turn list \<Rightarrow> worker \<Rightarrow> (gateway_error, unit) result option \<times> worker" where
  "worker_loop [] w = (None, w)"
| "worker_loop (t # ts) w =
     (case worker_turn t w of (None, w') \<Rightarrow> worker_loop ts w' | (Some r, w') \<Rightarrow> (Some r, w'))"

definition poll_event_loop ::
    "reconnect_config \<Rightarrow> turn list \<Rightarrow> (gateway_error, (gateway_error, unit) result option \<times> worker) result" where
  "poll_event_loop reconnect ts =
     rbind (map_err GE_Backoff (backoff_new reconnect)) (\<lambda>b. Ok (worker_loop ts (worker_new b)))"


section \<open>The gateway\<close>

datatype try_turn = TrySent | TryFull | TryClosed

datatype broker_turn = Accepted | OperationCancelled | ClientFailed rstr | OperationTimedOut

record prepared_publication =
  pp_kind :: event_kind
  pp_payload :: "byte list"

text \<open>The gateway task, with what it has handed to the application and to the broker.\<close>

record gateway =
  gw_config :: mqtt_config
  gw_topics :: topic_set
  gw_processor :: command_processor
  gw_cancelled :: bool
  gw_input_open :: bool
  gw_notices :: "gateway_notice list"
  gw_subscribed :: "rstr list"
  gw_published :: "(rstr \<times> byte list) list"

text \<open>The surroundings of one notice: the clocks, a fresh identifier, and how the waits end.\<close>

record moment =
  mo_now :: instant
  mo_unix_ms :: int
  mo_event_id :: uuid
  mo_notice :: send_turn
  mo_rejection :: try_turn
  mo_subscribe :: broker_turn
  mo_publish :: broker_turn

definition unix_timestamp_millis :: "int \<Rightarrow> (gateway_error, u64) result" where
  "unix_timestamp_millis elapsed =
     (if elapsed < 0 then Err GE_ClockBeforeUnixEpoch
      else if elapsed \<ge> 2 ^ 64 then Err GE_TimestampOverflow
      else Ok (of_int elapsed))"

definition prepare_publication ::
    "mqtt_externs \<Rightarrow> publication \<Rightarrow> uuid \<Rightarrow> rstr \<Rightarrow> u64 \<Rightarrow> nat \<Rightarrow> (gateway_error, prepared_publication) result" where
  "prepare_publication x p event_id origin timestamp max_payload =
     rbind (map_err GE_Schema (from_publication event_id origin timestamp p)) (\<lambda>envelope.
     rbind (map_err GE_Schema (encode_envelope x envelope)) (\<lambda>payload.
     if length payload > max_payload then Err (GE_PublicationTooLarge (length payload) max_payload)
     else Ok \<lparr>pp_kind = publication_kind p, pp_payload = payload\<rparr>))"

text \<open>What the publisher puts into the gateway's channel, and the identifier it returns.\<close>

definition publish_with_metadata ::
    "mqtt_externs \<Rightarrow> mqtt_config \<Rightarrow> publication \<Rightarrow> uuid \<Rightarrow> u64 \<Rightarrow> send_turn \<Rightarrow>
     (gateway_error, prepared_publication \<times> uuid) result" where
  "publish_with_metadata x c p event_id timestamp t =
     rbind (prepare_publication x p event_id (mq_origin c) timestamp (max_payload_bytes c)) (\<lambda>prepared.
     case t of
       Delivered \<Rightarrow> Ok (prepared, event_id)
     | TokenCancelled \<Rightarrow> Err GE_Cancelled
     | ChannelClosed \<Rightarrow> Err GE_PublicationChannelClosed)"

definition await_broker_operation ::
    "broker_turn \<Rightarrow> (gateway \<Rightarrow> gateway) \<Rightarrow> gateway \<Rightarrow> (gateway_error, unit) result \<times> gateway" where
  "await_broker_operation t effect g =
     (if gw_cancelled g then (Err GE_Cancelled, g)
      else case t of
        Accepted \<Rightarrow> (Ok (), effect g)
      | OperationCancelled \<Rightarrow> (Err GE_Cancelled, g\<lparr>gw_cancelled := True\<rparr>)
      | ClientFailed reason \<Rightarrow> (Err (GE_Client reason), g)
      | OperationTimedOut \<Rightarrow> (Err (GE_BrokerOperationTimeout (broker_operation_timeout_ms (gw_config g))), g))"

definition publish_prepared ::
    "broker_turn \<Rightarrow> prepared_publication \<Rightarrow> gateway \<Rightarrow> (gateway_error, unit) result \<times> gateway" where
  "publish_prepared t p g =
     (case for_event (gw_topics g) (pp_kind p) of
        None \<Rightarrow> (Err GE_NonPublishableEvent, g)
      | Some topic \<Rightarrow>
          await_broker_operation t (\<lambda>g. g\<lparr>gw_published := gw_published g @ [(topic, pp_payload p)]\<rparr>) g)"

definition send_notice :: "send_turn \<Rightarrow> gateway_notice \<Rightarrow> gateway \<Rightarrow> (gateway_error, unit) result \<times> gateway" where
  "send_notice t notice g =
     (if gw_cancelled g then (Ok (), g)
      else case t of
        Delivered \<Rightarrow> (Ok (), g\<lparr>gw_notices := gw_notices g @ [notice]\<rparr>)
      | TokenCancelled \<Rightarrow> (Ok (), g\<lparr>gw_cancelled := True\<rparr>)
      | ChannelClosed \<Rightarrow> (Err GE_NoticeChannelClosed, g))"

definition try_send_rejection :: "try_turn \<Rightarrow> command_error \<Rightarrow> gateway \<Rightarrow> (gateway_error, unit) result \<times> gateway" where
  "try_send_rejection t e g =
     (case t of
        TrySent \<Rightarrow> (Ok (), g\<lparr>gw_notices := gw_notices g @ [GN_Rejected e]\<rparr>)
      | TryFull \<Rightarrow> (Ok (), g)
      | TryClosed \<Rightarrow> (Err GE_NoticeChannelClosed, g))"

definition and_then ::
    "('e, unit) result \<times> 's \<Rightarrow> ('s \<Rightarrow> ('e, unit) result \<times> 's) \<Rightarrow> ('e, unit) result \<times> 's" where
  "and_then out k = (case out of (Ok _, s) \<Rightarrow> k s | (Err e, s) \<Rightarrow> (Err e, s) | (Panic, s) \<Rightarrow> (Panic, s))"

definition publish_connection_state ::
    "mqtt_externs \<Rightarrow> moment \<Rightarrow> connection_status \<Rightarrow> gateway \<Rightarrow> (gateway_error, unit) result \<times> gateway" where
  "publish_connection_state x m status g =
     (case rbind (unix_timestamp_millis (mo_unix_ms m)) (\<lambda>timestamp.
        prepare_publication x
          (PubConnectionState \<lparr>csd_component = MqttBroker, csd_status = status, csd_reason = None\<rparr>)
          (mo_event_id m) (mq_origin (gw_config g)) timestamp (max_payload_bytes (gw_config g))) of
        Ok prepared \<Rightarrow> publish_prepared (mo_publish m) prepared g
      | Err e \<Rightarrow> (Err e, g)
      | Panic \<Rightarrow> (Panic, g))"

definition subscribe_commands :: "moment \<Rightarrow> gateway \<Rightarrow> (gateway_error, unit) result \<times> gateway" where
  "subscribe_commands m g =
     (case subscription_topic (gw_processor g) of
        None \<Rightarrow> (Ok (), g)
      | Some topic \<Rightarrow>
          await_broker_operation (mo_subscribe m) (\<lambda>g. g\<lparr>gw_subscribed := gw_subscribed g @ [topic]\<rparr>) g)"

definition handle_network_notice ::
    "mqtt_externs \<Rightarrow> moment \<Rightarrow> network_notice \<Rightarrow> gateway \<Rightarrow> (gateway_error, unit) result \<times> gateway" where
  "handle_network_notice x m notice g =
     (case notice of
        NN_Connected \<Rightarrow>
          and_then (send_notice (mo_notice m) (GN_BrokerState CS_Connected) g) (\<lambda>g.
          and_then (subscribe_commands m g) (publish_connection_state x m CS_Connected))
      | NN_Disconnected \<Rightarrow>
          and_then (send_notice (mo_notice m) (GN_BrokerState CS_Disconnected) g)
            (publish_connection_state x m CS_Disconnected)
      | NN_CommandReady \<Rightarrow> send_notice (mo_notice m) GN_CommandReady g
      | NN_CommandSubscriptionRejected \<Rightarrow> (Err GE_CommandSubscriptionRejected, g)
      | NN_Publish topic payload retain \<Rightarrow>
          if retain then try_send_rejection (mo_rejection m) RetainedCommand g
          else if \<not> utf8 topic then try_send_rejection (mo_rejection m) InvalidTopicEncoding g
          else
            (case process_at x topic payload (mo_now m) (gw_processor g) of
               (Ok command, p) \<Rightarrow> send_notice (mo_notice m) (GN_Command command) (g\<lparr>gw_processor := p\<rparr>)
             | (Err e, p) \<Rightarrow> try_send_rejection (mo_rejection m) e (g\<lparr>gw_processor := p\<rparr>)
             | (Panic, p) \<Rightarrow> (Panic, g\<lparr>gw_processor := p\<rparr>)))"

text \<open>What the gateway's loop receives next.\<close>

datatype gateway_input =
    GI_Cancel
  | GI_Publication prepared_publication broker_turn
  | GI_PublicationsClosed
  | GI_Notice moment network_notice
  | GI_NetworkClosed

fun process :: "mqtt_externs \<Rightarrow> gateway_input list \<Rightarrow> gateway \<Rightarrow> (gateway_error, unit) result option \<times> gateway" where
  "process x [] g = (None, g)"
| "process x (i # rest) g =
     (if gw_cancelled g then (Some (Ok ()), g)
      else case i of
        GI_Cancel \<Rightarrow> (Some (Ok ()), g\<lparr>gw_cancelled := True\<rparr>)
      | GI_Publication p t \<Rightarrow>
          if gw_input_open g then continue_with (publish_prepared t p g) (process x rest) else process x rest g
      | GI_PublicationsClosed \<Rightarrow> process x rest (g\<lparr>gw_input_open := False\<rparr>)
      | GI_Notice m notice \<Rightarrow> continue_with (handle_network_notice x m notice g) (process x rest)
      | GI_NetworkClosed \<Rightarrow> (Some (Err GE_NetworkWorkerStopped), g))"

text \<open>What \<^verbatim>\<open>run\<close> makes of the results of the two tasks.\<close>

fun run_result :: "(gateway_error, unit) result \<Rightarrow> (gateway_error, unit) result \<Rightarrow> (gateway_error, unit) result" where
  "run_result (Ok _) worker_result = worker_result"
| "run_result (Err e) worker_result = (if e = GE_Cancelled then worker_result else Err e)"
| "run_result Panic worker_result = Panic"

section \<open>Construction\<close>

definition from_protocol_parts :: "tls_files \<Rightarrow> mqtt_config \<Rightarrow> (gateway_error, gateway) result" where
  "from_protocol_parts fs c =
     rbind (map_err GE_Config (topic_set_new (topic_prefix c))) (\<lambda>topics.
     rbind (map_err GE_Command (processor_new fs c)) (\<lambda>processor.
       Ok \<lparr>gw_config = c, gw_topics = topics, gw_processor = processor, gw_cancelled = False,
           gw_input_open = True, gw_notices = [], gw_subscribed = [], gw_published = []\<rparr>))"

definition packet_size_bound :: "mqtt_config \<Rightarrow> nat" where
  "packet_size_bound c = max_payload_bytes c + 2048"

text \<open>\<^verbatim>\<open>connect\<close>, where \<open>transport\<close> is the outcome of loading certificates for the TLS library.\<close>

definition gateway_connect ::
    "tls_files \<Rightarrow> (gateway_error, unit) result \<Rightarrow> mqtt_config \<Rightarrow> mqtt_password option \<Rightarrow> (gateway_error, gateway) result" where
  "gateway_connect fs transport c password =
     rbind (map_err GE_Config (validate_config fs c)) (\<lambda>_.
     rbind (map_err GE_Config (validate_credentials c password)) (\<lambda>_.
     rbind transport (\<lambda>_. from_protocol_parts fs c)))"

definition from_parts :: "tls_files \<Rightarrow> mqtt_protocol \<Rightarrow> mqtt_config \<Rightarrow> (gateway_error, gateway) result" where
  "from_parts fs parts c =
     rbind (map_err GE_Config (validate_config fs c)) (\<lambda>_.
       if mq_protocol c \<noteq> parts then Err GE_ProtocolPartsMismatch else from_protocol_parts fs c)"


section \<open>What the worker reports\<close>

text \<open>Whether the last report says that the connection is up, and that every report of a loss follows the
  report of a connection.\<close>

definition link_up :: "network_notice list \<Rightarrow> bool" where
  "link_up ns = fold (\<lambda>n up. if n = NN_Connected then True else if n = NN_Disconnected then False else up) ns False"

definition losses_follow_connections :: "network_notice list \<Rightarrow> bool" where
  "losses_follow_connections ns \<longleftrightarrow> (\<forall>i<length ns. ns ! i = NN_Disconnected \<longrightarrow> link_up (take i ns))"

lemma link_up_snoc:
  "link_up (ns @ [n]) = (if n = NN_Connected then True else if n = NN_Disconnected then False else link_up ns)"
  by (simp add: link_up_def)

lemma losses_snoc:
  "losses_follow_connections (ns @ [n]) \<longleftrightarrow> losses_follow_connections ns \<and> (n = NN_Disconnected \<longrightarrow> link_up ns)"
  by (auto simp: losses_follow_connections_def nth_append less_Suc_eq)

definition after_delays :: "nat \<Rightarrow> exponential_backoff \<Rightarrow> exponential_backoff" where
  "after_delays n = (snd \<circ> next_delay) ^^ n"

lemma delays_snoc: "delays (Suc n) b = delays n b @ [fst (next_delay (after_delays n b))]"
proof (induction n arbitrary: b)
  case (Suc n)
  have "after_delays (Suc n) b = after_delays n (snd (next_delay b))"
    by (simp add: after_delays_def funpow_swap1)
  with Suc.IH [of "snd (next_delay b)"] show ?case by (simp add: case_prod_beta)
qed (simp add: after_delays_def case_prod_beta)

lemma after_delays_Suc: "snd (next_delay (after_delays n b)) = after_delays (Suc n) b"
  by (simp add: after_delays_def)

lemma after_delays_reset: "backoff_reset (after_delays n b) = backoff_reset b"
  by (induction n) (simp_all add: after_delays_def backoff_reset_def next_delay_def)

text \<open>What holds of the worker throughout, and what holds in addition while it runs.\<close>

definition worker_sound :: "exponential_backoff \<Rightarrow> worker \<Rightarrow> bool" where
  "worker_sound b w \<longleftrightarrow>
     losses_follow_connections (wk_sent w) \<and> wk_delays w = delays (length (wk_delays w)) b"

definition worker_inv :: "exponential_backoff \<Rightarrow> worker \<Rightarrow> bool" where
  "worker_inv b w \<longleftrightarrow>
     worker_sound b w \<and> wk_backoff w = after_delays (length (wk_delays w)) b \<and>
     (\<not> wk_cancelled w \<longrightarrow> wk_connected w = link_up (wk_sent w))"

lemma send_network_notice_cases:
  obtains "send_network_notice t n w = (Ok (), w)" "wk_cancelled w"
  | "send_network_notice t n w = (Ok (), w\<lparr>wk_sent := wk_sent w @ [n]\<rparr>)" "\<not> wk_cancelled w"
  | "send_network_notice t n w = (Ok (), w\<lparr>wk_cancelled := True\<rparr>)" "\<not> wk_cancelled w"
  | "send_network_notice t n w = (Err GE_NetworkChannelClosed, w)" "\<not> wk_cancelled w"
  by (cases "wk_cancelled w"; cases t) (simp_all add: send_network_notice_def)

lemma sleep_backoff_keeps:
  assumes "worker_inv b w" and "sleep_backoff t w = (r, w')"
  shows "worker_sound b w' \<and> (r = None \<longrightarrow> worker_inv b w') \<and> r \<in> {None, Some (Ok ())}"
proof -
  obtain d b' where n: "next_delay (wk_backoff w) = (d, b')" by (cases "next_delay (wk_backoff w)")
  with assms(1) have "b' = after_delays (Suc (length (wk_delays w))) b"
      "delays (Suc (length (wk_delays w))) b = wk_delays w @ [d]"
    using after_delays_Suc [of "length (wk_delays w)" b] delays_snoc [of "length (wk_delays w)" b]
    by (simp_all add: worker_inv_def worker_sound_def)
  with assms n show ?thesis
    by (auto simp: sleep_backoff_def worker_inv_def worker_sound_def split: if_splits)
qed


lemma report_keeps:
  assumes "worker_inv b w" and "n \<notin> {NN_Connected, NN_Disconnected}"
    and "continue_with (send_network_notice t n w) (Pair None) = (r, w')"
  shows "worker_sound b w' \<and> (r = None \<longrightarrow> worker_inv b w')"
  using assms
  by (cases rule: send_network_notice_cases [of t n w])
    (auto simp: continue_with_def worker_inv_def worker_sound_def losses_snoc link_up_snoc)

lemma connection_keeps:
  assumes "worker_inv b w" and "backoff_reset b = b" and "\<not> wk_cancelled w"
    and "continue_with (send_network_notice t NN_Connected
      (w\<lparr>wk_connected := True, wk_backoff := backoff_reset (wk_backoff w), wk_delays := []\<rparr>)) (Pair None) = (r, w')"
  shows "worker_sound b w' \<and> (r = None \<longrightarrow> worker_inv b w')"
proof -
  have "backoff_reset (wk_backoff w) = b"
    using assms(1,2) by (simp add: worker_inv_def after_delays_reset)
  with assms show ?thesis
    by (cases t)
      (auto simp: send_network_notice_def continue_with_def worker_inv_def worker_sound_def losses_snoc
        link_up_snoc after_delays_def)
qed

lemma loss_keeps:
  assumes "worker_inv b w" and "\<not> wk_cancelled w"
    and "continue_with (if wk_connected w
        then send_network_notice (tn_send t) NN_Disconnected (w\<lparr>wk_connected := False\<rparr>) else (Ok (), w))
      (sleep_backoff t) = (r, w')"
  shows "worker_sound b w' \<and> (r = None \<longrightarrow> worker_inv b w')"
proof (cases "wk_connected w")
  case True
  with assms(1,2) have up: "link_up (wk_sent w)" by (simp add: worker_inv_def)
  let ?w = "w\<lparr>wk_connected := False\<rparr>"
  show ?thesis
  proof (cases rule: send_network_notice_cases [of "tn_send t" NN_Disconnected ?w])
    case 2
    moreover have "worker_inv b (?w\<lparr>wk_sent := wk_sent ?w @ [NN_Disconnected]\<rparr>)"
      using assms(1) up by (simp add: worker_inv_def worker_sound_def losses_snoc link_up_snoc)
    ultimately show ?thesis
      using True assms(3) sleep_backoff_keeps by (auto simp: continue_with_def)
  next
    case 3
    moreover have "worker_inv b (?w\<lparr>wk_cancelled := True\<rparr>)"
      using assms(1) by (simp add: worker_inv_def worker_sound_def)
    ultimately show ?thesis
      using True assms(3) sleep_backoff_keeps by (auto simp: continue_with_def)
  qed (use True assms in \<open>auto simp: continue_with_def worker_inv_def worker_sound_def\<close>)
next
  case False
  with assms show ?thesis using sleep_backoff_keeps by (auto simp: continue_with_def)
qed

lemma classify_event_cases:
  obtains "classify_event e = None" | "classify_event e = Some NN_Connected"
  | n where "classify_event e = Some n" "n \<notin> {NN_Connected, NN_Disconnected}"
  by (cases e) auto

lemma worker_turn_keeps:
  assumes "worker_inv b w" and "backoff_reset b = b" and "worker_turn t w = (r, w')"
  shows "worker_sound b w' \<and> (r = None \<longrightarrow> worker_inv b w')"
proof (cases "wk_cancelled w \<or> tn_cancelled t")
  case True
  with assms show ?thesis by (auto simp: worker_turn_def worker_inv_def worker_sound_def)
next
  case False
  show ?thesis
  proof (cases "tn_poll t")
    case (Ok e)
    show ?thesis
    proof (cases rule: classify_event_cases [of e])
      case 1
      with Ok False assms show ?thesis by (auto simp: worker_turn_def worker_inv_def)
    next
      case 2
      with Ok False assms show ?thesis
        by (intro connection_keeps [OF assms(1,2)]) (auto simp: worker_turn_def)
    next
      case (3 n)
      then have "worker_turn t w = continue_with (send_network_notice (tn_send t) n w) (Pair None)"
        using Ok False by (cases n) (simp_all add: worker_turn_def)
      with 3 assms show ?thesis by (intro report_keeps [OF assms(1)]) auto
    qed
  next
    case (Err u)
    then show ?thesis using assms False loss_keeps [OF assms(1)] by (simp add: worker_turn_def)
  next
    case Panic
    with assms False show ?thesis by (simp add: worker_turn_def worker_inv_def)
  qed
qed

lemma worker_loop_keeps:
  "worker_inv b w \<Longrightarrow> backoff_reset b = b \<Longrightarrow> worker_loop ts w = (r, w') \<Longrightarrow> worker_sound b w'"
proof (induction ts arbitrary: w)
  case Nil
  then show ?case by (simp add: worker_inv_def)
next
  case (Cons t ts)
  obtain q w1 where t: "worker_turn t w = (q, w1)" by (cases "worker_turn t w")
  with Cons worker_turn_keeps [OF Cons.prems(1,2) t] show ?case by (cases q) auto
qed

text \<open>C18: What the gateway learns about the broker connection is consistent, and reconnecting is paced.
  Whatever the broker does, every report that the connection was lost follows a report that it was
  established with none between them, so that a loss is never reported twice. And the \<open>i\<close>-th failed poll
  since the last connection is followed by a delay of \<open>initial * multiplier ^ i\<close> milliseconds or the
  configured maximum, whichever is smaller, computed exactly although the arithmetic is 64-bit.\<close>

theorem worker_reports_consistent:
  assumes "poll_event_loop reconnect ts = Ok (r, w)"
  shows "losses_follow_connections (wk_sent w) \<and>
    map unat (wk_delays w) =
      map (\<lambda>i. min (unat (initial_delay_ms reconnect) * unat (multiplier_factor reconnect) ^ i)
        (unat (max_delay_ms reconnect))) [0..<length (wk_delays w)]"
proof -
  from assms obtain b where b: "backoff_new reconnect = Ok b" "worker_loop ts (worker_new b) = (r, w)"
    by (auto simp: poll_event_loop_def rbind_eq_Ok map_err_eq_Ok)
  then have "backoff_reset b = b" by (auto simp: backoff_new_def backoff_reset_def split: if_splits)
  moreover have "worker_inv b (worker_new b)"
    by (simp add: worker_inv_def worker_sound_def worker_new_def losses_follow_connections_def after_delays_def
        link_up_def)
  ultimately have w: "worker_sound b w" using b(2) worker_loop_keeps by blast
  have "unat (wk_delays w ! i) =
      min (unat (initial_delay_ms reconnect) * unat (multiplier_factor reconnect) ^ i) (unat (max_delay_ms reconnect))"
    if "i < length (wk_delays w)" for i
    using backoff_series [OF b(1) that] w by (simp add: worker_sound_def)
  with w show ?thesis by (auto simp: worker_sound_def intro: nth_equalityI)
qed

section \<open>What the gateway hands on\<close>

fun commands :: "gateway_notice list \<Rightarrow> accepted_command list" where
  "commands [] = []"
| "commands (GN_Command a # ns) = a # commands ns"
| "commands (_ # ns) = commands ns"

fun accepted :: "(command_error, accepted_command) result list \<Rightarrow> accepted_command list" where
  "accepted [] = []"
| "accepted (Ok a # rs) = a # accepted rs"
| "accepted (_ # rs) = accepted rs"

text \<open>The publications the command processor is asked about: not retained, on a topic that is text.\<close>

fun admitted :: "gateway_input list \<Rightarrow> (rstr \<times> byte list \<times> instant) list" where
  "admitted [] = []"
| "admitted (GI_Notice m (NN_Publish topic payload retain) # rest) =
     (if \<not> retain \<and> utf8 topic then (topic, payload, mo_now m) # admitted rest else admitted rest)"
| "admitted (_ # rest) = admitted rest"

lemma commands_append [simp]: "commands (ns @ ms) = commands ns @ commands ms"
  by (induction ns rule: commands.induct) simp_all

lemma await_broker_operation_cases:
  obtains "await_broker_operation t f g = (Ok (), f g)"
  | e where "await_broker_operation t f g = (Err e, g)"
  | e where "await_broker_operation t f g = (Err e, g\<lparr>gw_cancelled := True\<rparr>)"
  by (cases "gw_cancelled g"; cases t) (simp_all add: await_broker_operation_def)

lemma send_notice_cases:
  obtains "send_notice t n g = (Ok (), g)" "gw_cancelled g"
  | "send_notice t n g = (Ok (), g\<lparr>gw_notices := gw_notices g @ [n]\<rparr>)"
  | "send_notice t n g = (Ok (), g\<lparr>gw_cancelled := True\<rparr>)"
  | e where "send_notice t n g = (Err e, g)"
  by (cases "gw_cancelled g"; cases t) (simp_all add: send_notice_def)

lemma try_send_rejection_cases:
  obtains "try_send_rejection t e g = (Ok (), g\<lparr>gw_notices := gw_notices g @ [GN_Rejected e]\<rparr>)"
  | "try_send_rejection t e g = (Ok (), g)"
  | e' where "try_send_rejection t e g = (Err e', g)"
  by (cases t) (simp_all add: try_send_rejection_def)

text \<open>What an operation does to the gateway apart from the broker: it keeps the processor and hands no
  command on.\<close>

definition no_command :: "gateway \<Rightarrow> gateway \<Rightarrow> bool" where
  "no_command g g' \<longleftrightarrow> gw_processor g' = gw_processor g \<and> commands (gw_notices g') = commands (gw_notices g)"

lemma no_command_refl [simp]: "no_command g g"
  by (simp add: no_command_def)

lemma no_command_trans: "no_command g h \<Longrightarrow> no_command h k \<Longrightarrow> no_command g k"
  by (simp add: no_command_def)

lemma publish_prepared_no_command: "no_command g (snd (publish_prepared t p g))"
proof (cases "for_event (gw_topics g) (pp_kind p)")
  case (Some topic)
  then show ?thesis
    by (cases rule: await_broker_operation_cases
        [of t "\<lambda>g. g\<lparr>gw_published := gw_published g @ [(topic, pp_payload p)]\<rparr>" g])
      (simp_all add: publish_prepared_def no_command_def)
qed (simp add: publish_prepared_def)

lemma subscribe_commands_no_command: "no_command g (snd (subscribe_commands m g))"
proof (cases "subscription_topic (gw_processor g)")
  case (Some topic)
  then show ?thesis
    by (cases rule: await_broker_operation_cases
        [of "mo_subscribe m" "\<lambda>g. g\<lparr>gw_subscribed := gw_subscribed g @ [topic]\<rparr>" g])
      (simp_all add: subscribe_commands_def no_command_def)
qed (simp add: subscribe_commands_def)

lemma send_notice_no_command: "commands [n] = [] \<Longrightarrow> no_command g (snd (send_notice t n g))"
  by (cases rule: send_notice_cases [of t n g]) (simp_all add: no_command_def)

lemma try_send_rejection_no_command: "no_command g (snd (try_send_rejection t e g))"
  by (cases rule: try_send_rejection_cases [of t e g]) (simp_all add: no_command_def)

text \<open>A relation between the states of the gateway that its elementary steps keep is kept by every notice
  that is not a command.\<close>

definition issued :: "mqtt_externs \<Rightarrow> mqtt_config \<Rightarrow> prepared_publication \<Rightarrow> bool" where
  "issued x c p \<longleftrightarrow> (\<exists>pub event_id timestamp.
     prepare_publication x pub event_id (mq_origin c) timestamp (max_payload_bytes c) = Ok p)"

lemma issuedI:
  "prepare_publication x pub event_id (mq_origin c) timestamp (max_payload_bytes c) = Ok p \<Longrightarrow> issued x c p"
  unfolding issued_def by blast

locale gateway_relation =
  fixes x :: mqtt_externs and R :: "gateway \<Rightarrow> gateway \<Rightarrow> bool"
  assumes refl [simp, intro]: "R g g"
    and trans: "R g h \<Longrightarrow> R h k \<Longrightarrow> R g k"
    and publishing: "issued x (gw_config g) p \<Longrightarrow> R g (snd (publish_prepared t p g))"
    and subscribing: "R g (snd (subscribe_commands m g))"
    and notifying: "commands [n] = [] \<Longrightarrow> R g (snd (send_notice s n g))"
    and rejecting: "R g (snd (try_send_rejection r e g))"
begin

lemma chained:
  "R g (snd o1) \<Longrightarrow> (\<And>h. R h (snd (k h))) \<Longrightarrow> R g (snd (and_then o1 k))"
  by (cases o1) (auto simp: and_then_def split: result.splits intro: trans)

lemma stating: "R g (snd (publish_connection_state x m status g))"
  by (auto simp: publish_connection_state_def rbind_eq_Ok split: result.split intro!: publishing intro: issuedI)

lemma plain_notice:
  assumes "handle_network_notice x m n g = (r, h)" and "admitted [GI_Notice m n] = []"
  shows "R g h"
proof -
  have "R g (snd (handle_network_notice x m n g))"
    using assms(2)
    by (cases n)
      (auto simp: handle_network_notice_def notifying rejecting subscribing stating intro!: chained split: if_splits)
  with assms(1) show ?thesis by simp
qed

end

interpretation quiet: gateway_relation x no_command for x
  by unfold_locales
    (auto intro: no_command_trans simp: publish_prepared_no_command subscribe_commands_no_command
      send_notice_no_command try_send_rejection_no_command)

lemma command_notice:
  assumes "handle_network_notice x m (NN_Publish topic payload False) g = (r, h)" and "utf8 topic"
    and "process_at x topic payload (mo_now m) (gw_processor g) = (q, p)"
  shows "gw_processor h = p \<and>
    (commands (gw_notices h) = commands (gw_notices g) @ accepted [q] \<or>
     commands (gw_notices h) = commands (gw_notices g) \<and> (gw_cancelled h \<or> r \<noteq> Ok ()))"
proof (cases q)
  case (Ok a)
  with assms show ?thesis
    by (cases rule: send_notice_cases [of "mo_notice m" "GN_Command a" "g\<lparr>gw_processor := p\<rparr>"])
      (auto simp: handle_network_notice_def)
next
  case (Err e)
  with assms show ?thesis
    by (cases rule: try_send_rejection_cases [of "mo_rejection m" e "g\<lparr>gw_processor := p\<rparr>"])
      (auto simp: handle_network_notice_def)
qed (use assms in \<open>auto simp: handle_network_notice_def\<close>)

text \<open>The commands handed on, against the verdicts on the publications admitted.\<close>

definition handed_on ::
    "accepted_command list \<Rightarrow> (gateway_error, unit) result option \<Rightarrow> gateway \<Rightarrow> gateway \<Rightarrow> bool" where
  "handed_on as r g g' \<longleftrightarrow>
     (\<exists>cs. commands (gw_notices g') = commands (gw_notices g) @ cs \<and> prefix cs as \<and>
        (r = None \<and> \<not> gw_cancelled g' \<longrightarrow> cs = as))"

lemma handed_on_none: "commands (gw_notices g') = commands (gw_notices g) \<Longrightarrow> r \<noteq> None \<or> gw_cancelled g' \<Longrightarrow> handed_on as r g g'"
  by (auto simp: handed_on_def)

lemma handed_on_step:
  assumes "commands (gw_notices h) = commands (gw_notices g) @ cs" and "handed_on as r h g'"
  shows "handed_on (cs @ as) r g g'"
  using assms by (auto simp: handed_on_def)

lemma process_cancelled: "gw_cancelled g \<Longrightarrow> snd (process x inputs g) = g"
  by (cases inputs) simp_all

lemma accepted_Cons: "accepted (v # vs) = accepted [v] @ accepted vs"
  by (cases v) simp_all

lemma admitted_hands_on:
  assumes "handle_network_notice x m (NN_Publish topic payload False) g = (q, h)" and "utf8 topic"
    and "continue_with (q, h) (process x rest) = (r, g')"
    and "\<And>h. process x rest h = (r, g') \<Longrightarrow>
      handed_on (accepted (gate x (admitted rest) (gw_processor h))) r h g'"
  shows "handed_on (accepted (gate x ((topic, payload, mo_now m) # admitted rest) (gw_processor g))) r g g'"
proof -
  obtain v p where v: "process_at x topic payload (mo_now m) (gw_processor g) = (v, p)"
    by (cases "process_at x topic payload (mo_now m) (gw_processor g)")
  let ?later = "accepted (gate x (admitted rest) p)"
  have goal: "accepted (gate x ((topic, payload, mo_now m) # admitted rest) (gw_processor g)) = accepted [v] @ ?later"
    by (simp only: gate.simps v prod.case accepted_Cons [symmetric])
  have p: "gw_processor h = p" using command_notice [OF assms(1,2) v] by simp
  have ended: "g' = h \<and> r \<noteq> None" if "q \<noteq> Ok ()"
    using that assms(3) by (cases q) (auto simp: continue_with_def)
  from command_notice [OF assms(1,2) v] consider
      "commands (gw_notices h) = commands (gw_notices g) @ accepted [v]"
    | "commands (gw_notices h) = commands (gw_notices g)" "gw_cancelled h \<or> q \<noteq> Ok ()"
    by blast
  then show ?thesis
  proof cases
    case 1
    have "handed_on ?later r h g'"
      using assms(3,4) p ended by (cases q) (auto simp: continue_with_def intro: handed_on_none)
    with 1 show ?thesis unfolding goal by (rule handed_on_step)
  next
    case 2
    then have "g' = h" using ended assms(3) process_cancelled [of h x rest]
      by (cases "q = Ok ()") (auto simp: continue_with_def)
    with 2 ended show ?thesis unfolding goal by (auto intro: handed_on_none)
  qed
qed

lemma process_hands_on:
  "process x inputs g = (r, g') \<Longrightarrow> handed_on (accepted (gate x (admitted inputs) (gw_processor g))) r g g'"
proof (induction inputs arbitrary: g)
  case (Cons i rest)
  note IH = Cons.IH and run = Cons.prems
  have skip: "handed_on (accepted (gate x (admitted rest) (gw_processor g))) r g g'"
    if "no_command g h" "process x rest h = (r, g')" for h
    using IH [OF that(2)] handed_on_step [of h g "[]"] that(1) by (simp add: no_command_def)
  have carry_on: "handed_on (accepted (gate x (admitted rest) (gw_processor g))) r g g'"
    if "no_command g h" "continue_with (q, h) (process x rest) = (r, g')" for q h
    using that skip by (cases q) (auto simp: continue_with_def no_command_def intro: handed_on_none)
  show ?case
  proof (cases "gw_cancelled g")
    case True
    with run show ?thesis by (auto intro: handed_on_none)
  next
    case False
    show ?thesis
    proof (cases i)
      case GI_Cancel
      with run False show ?thesis by (auto intro: handed_on_none)
    next
      case (GI_Publication p t)
      with run False show ?thesis
        using skip [of g] carry_on [of "snd (publish_prepared t p g)"] publish_prepared_no_command [of g t p]
        by (cases "publish_prepared t p g") (auto split: if_splits)
    next
      case GI_PublicationsClosed
      with run False show ?thesis using skip [of "g\<lparr>gw_input_open := False\<rparr>"] by (simp add: no_command_def)
    next
      case (GI_Notice m n)
      obtain q h where h: "handle_network_notice x m n g = (q, h)" by (cases "handle_network_notice x m n g")
      with run False GI_Notice have c: "continue_with (q, h) (process x rest) = (r, g')" by simp
      show ?thesis
      proof (cases "admitted [GI_Notice m n] = []")
        case True
        then have "admitted (i # rest) = admitted rest" by (cases n) (auto simp: GI_Notice split: if_splits)
        with carry_on [OF quiet.plain_notice [OF h True] c] show ?thesis by simp
      next
        case False
        then obtain topic payload where n: "n = NN_Publish topic payload False" "utf8 topic"
          by (cases n) (auto split: if_splits)
        with admitted_hands_on [of x m topic payload g q h rest r g'] h c IH show ?thesis
          by (simp add: GI_Notice del: gate.simps)
      qed
    next
      case GI_NetworkClosed
      with run False show ?thesis by (auto intro: handed_on_none)
    qed
  qed
qed (simp add: handed_on_def)


lemma gateway_parts:
  assumes "from_protocol_parts fs c = Ok g"
  shows "gw_config g = c" "topic_set_new (topic_prefix c) = Ok (gw_topics g)"
    "gw_published g = []" "gw_subscribed g = []" "processor_new fs c = Ok (gw_processor g)"
    "gw_notices g = []" "\<not> gw_cancelled g"
  using assms by (auto simp: from_protocol_parts_def rbind_eq_Ok map_err_eq_Ok)

lemma processor_settings:
  assumes "processor_new fs c = Ok p"
  shows "cp_allow_send p = allow_send c"
    and "topic_set_new (topic_prefix c) = Ok topics \<Longrightarrow> outbound_topic p = ts_outbound_send topics"
  using assms by (auto simp: processor_new_def rbind_eq_Ok map_err_eq_Ok)

lemma gate_disabled: "\<not> cp_allow_send p \<Longrightarrow> accepted (gate x inputs p) = []"
  by (induction inputs) (auto simp: process_at_def screen_command_def)

text \<open>C8: Commands reach the application only through the command processor. In any run of a gateway built
  from a configuration, the commands handed to the application are, in order, those the processor accepted
  of the publications that were not retained and came on a topic that is text; the run may end early, when
  the gateway is cancelled or fails, but nothing else is ever handed on, and none is left out while it
  runs. When sending is not allowed there are none.\<close>

theorem gateway_commands_gated:
  assumes "from_protocol_parts fs c = Ok g" and "process x inputs g = (r, g')"
  shows "prefix (commands (gw_notices g')) (accepted (gate x (admitted inputs) (gw_processor g))) \<and>
    processor_new fs c = Ok (gw_processor g) \<and>
    (r = None \<and> \<not> gw_cancelled g' \<longrightarrow>
      commands (gw_notices g') = accepted (gate x (admitted inputs) (gw_processor g))) \<and>
    (\<not> allow_send c \<longrightarrow> commands (gw_notices g') = [])"
proof -
  note g = gateway_parts(5,6) [OF assms(1)]
  with gate_disabled have "\<not> allow_send c \<Longrightarrow> accepted (gate x (admitted inputs) (gw_processor g)) = []"
    by (simp add: processor_settings(1))
  with g process_hands_on [OF assms(2)] show ?thesis by (auto simp: handed_on_def)
qed


section \<open>What the gateway puts on the broker\<close>

text \<open>The traffic of a gateway is confined when it has published only issued envelopes, on the topics of
  their kinds, and subscribed only to the topic its processor names.\<close>

definition confined :: "mqtt_externs \<Rightarrow> gateway \<Rightarrow> bool" where
  "confined x g \<longleftrightarrow>
     (\<forall>(topic, payload) \<in> set (gw_published g).
        \<exists>p. issued x (gw_config g) p \<and> for_event (gw_topics g) (pp_kind p) = Some topic \<and> payload = pp_payload p) \<and>
     (\<forall>topic \<in> set (gw_subscribed g). subscription_topic (gw_processor g) = Some topic)"

definition same_gateway :: "gateway \<Rightarrow> gateway \<Rightarrow> bool" where
  "same_gateway g h \<longleftrightarrow> gw_config h = gw_config g \<and> gw_topics h = gw_topics g \<and>
     subscription_topic (gw_processor h) = subscription_topic (gw_processor g)"

definition confines :: "mqtt_externs \<Rightarrow> gateway \<Rightarrow> gateway \<Rightarrow> bool" where
  "confines x g h \<longleftrightarrow> same_gateway g h \<and> (confined x g \<longrightarrow> confined x h)"

lemma confines_silent:
  "same_gateway g h \<Longrightarrow> gw_published h = gw_published g \<Longrightarrow> gw_subscribed h = gw_subscribed g \<Longrightarrow> confines x g h"
  by (simp add: confines_def confined_def same_gateway_def)

lemma confines_trans: "confines x g h \<Longrightarrow> confines x h k \<Longrightarrow> confines x g k"
  by (simp add: confines_def same_gateway_def)

lemma confines_published:
  assumes "issued x (gw_config g) p" shows "confines x g (snd (publish_prepared t p g))"
proof (cases "for_event (gw_topics g) (pp_kind p)")
  case (Some topic)
  with assms show ?thesis
    by (cases rule: await_broker_operation_cases
        [of t "\<lambda>g. g\<lparr>gw_published := gw_published g @ [(topic, pp_payload p)]\<rparr>" g])
      (auto simp: publish_prepared_def confines_def confined_def same_gateway_def)
qed (simp add: publish_prepared_def confines_silent same_gateway_def)

lemma confines_subscribed: "confines x g (snd (subscribe_commands m g))"
proof (cases "subscription_topic (gw_processor g)")
  case (Some topic)
  then show ?thesis
    by (cases rule: await_broker_operation_cases
        [of "mo_subscribe m" "\<lambda>g. g\<lparr>gw_subscribed := gw_subscribed g @ [topic]\<rparr>" g])
      (auto simp: subscribe_commands_def confines_def confined_def same_gateway_def)
qed (simp add: subscribe_commands_def confines_silent same_gateway_def)

lemma confines_notice: "confines x g (snd (send_notice t n g))"
  by (cases rule: send_notice_cases [of t n g]) (simp_all add: confines_silent same_gateway_def)

lemma confines_rejection: "confines x g (snd (try_send_rejection t e g))"
  by (cases rule: try_send_rejection_cases [of t e g]) (simp_all add: confines_silent same_gateway_def)

interpretation traffic: gateway_relation x "confines x" for x
  by unfold_locales
    (auto intro: confines_trans confines_published confines_subscribed confines_notice confines_rejection
      simp: confines_silent same_gateway_def)

lemma subscription_kept:
  "subscription_topic (snd (process_at x topic payload now p)) = subscription_topic p"
  by (cases rule: process_at_cases [of x topic payload now p]) (simp_all add: subscription_topic_def)

lemma command_confines:
  assumes "utf8 topic"
  shows "confines x g (snd (handle_network_notice x m (NN_Publish topic payload False) g))"
proof -
  obtain v p where v: "process_at x topic payload (mo_now m) (gw_processor g) = (v, p)"
    by (cases "process_at x topic payload (mo_now m) (gw_processor g)")
  with subscription_kept [of x topic payload "mo_now m" "gw_processor g"]
  have "confines x g (g\<lparr>gw_processor := p\<rparr>)" by (simp add: confines_silent same_gateway_def)
  with assms v confines_notice confines_rejection show ?thesis
    by (auto simp: handle_network_notice_def intro: confines_trans split: result.split)
qed

lemma notice_confines: "confines x g (snd (handle_network_notice x m n g))"
proof (cases "admitted [GI_Notice m n] = []")
  case True
  then show ?thesis using traffic.plain_notice [of x m n g] by (cases "handle_network_notice x m n g") simp
next
  case False
  then show ?thesis by (cases n) (auto simp: command_confines split: if_splits)
qed

lemma process_confines:
  assumes "\<And>p t. GI_Publication p t \<in> set inputs \<Longrightarrow> issued x (gw_config g) p"
  shows "confines x g (snd (process x inputs g))"
  using assms
proof (induction inputs arbitrary: g)
  case (Cons i rest)
  have carry_on: "confines x g (snd (continue_with out (process x rest)))" if "confines x g (snd out)" for out
    using that Cons.IH [of "snd out"] Cons.prems
    by (cases out) (auto simp: continue_with_def confines_def same_gateway_def split: result.split)
  have rest: "confines x g (snd (process x rest h))" if "confines x g h" for h
    using carry_on [of "(Ok (), h)"] that by (simp add: continue_with_def)
  show ?case
  proof (cases "gw_cancelled g")
    case False
    show ?thesis
    proof (cases i)
      case (GI_Publication p t)
      with Cons.prems [of p t] have "issued x (gw_config g) p" by simp
      with False GI_Publication show ?thesis by (simp add: carry_on confines_published rest)
    next
      case GI_PublicationsClosed
      with False show ?thesis by (simp add: rest confines_silent same_gateway_def)
    next
      case (GI_Notice m n)
      with False show ?thesis by (simp add: carry_on notice_confines)
    qed (use False in \<open>simp_all add: confines_silent same_gateway_def\<close>)
  qed simp
qed simp

lemma issued_meaning:
  "issued x c p \<Longrightarrow> length (pp_payload p) \<le> max_payload_bytes c \<and>
     (\<exists>pub event_id timestamp envelope. from_publication event_id (mq_origin c) timestamp pub = Ok envelope \<and>
        encode_envelope x envelope = Ok (pp_payload p) \<and> pp_kind p = publication_kind pub)"
  by (cases p) (auto simp: issued_def prepare_publication_def rbind_eq_Ok map_err_eq_Ok not_less split: if_splits)

lemma event_topic_not_outbound:
  "topic_set_new base = Ok topics \<Longrightarrow> for_event topics k \<noteq> Some (ts_outbound_send topics)"
  by (cases k) (auto simp: topic_set_new_def Let_def rbind_eq_Ok bytes_of_def)


text \<open>A configuration that passes validation gives a gateway, and its worker its delays.\<close>

lemma validated_gateway:
  assumes "validate_config fs c = Ok ()"
  shows "\<exists>g. from_protocol_parts fs c = Ok g" and "\<exists>out. poll_event_loop (mq_reconnect c) ts = Ok out"
proof -
  note parts = validated_parts [OF assms]
  obtain topics where "topic_set_new (topic_prefix c) = Ok topics" using topics_of_validated [OF parts(1)] by blast
  moreover have "\<exists>d. dedupe_new (dedupe_capacity (mq_dedupe c)) (unat (dedupe_ttl_secs (mq_dedupe c)) * 10 ^ 9) = Ok d"
    using parts(3)
    by (auto simp: dedupe_new_def validate_dedupe_def word_le_nat_alt unat_eq_0 split: if_splits)
  ultimately show "\<exists>g. from_protocol_parts fs c = Ok g"
    using assms by (auto simp: from_protocol_parts_def processor_new_def)
  show "\<exists>out. poll_event_loop (mq_reconnect c) ts = Ok out"
    using backoff_of_validated [OF parts(2)] by (simp add: poll_event_loop_def)
qed

text \<open>C9: A validated configuration, with credentials that match it and certificates that load, gives a
  gateway and a worker, and the gateway's traffic is confined. Whatever it is fed, when the publications it
  takes from its channel are those the publisher put there, every packet it publishes is the encoding of a
  valid envelope under its own origin, within the configured payload limit, on the topic of its kind, which
  is never the topic commands come in on; and it subscribes to that topic only, and only when sending is
  allowed.\<close>

theorem gateway_traffic_confined:
  assumes "validate_config fs c = Ok ()" and "validate_credentials c password = Ok ()"
    and "\<And>p t. GI_Publication p t \<in> set inputs \<Longrightarrow>
      \<exists>pub event_id timestamp. publish_with_metadata x c pub event_id timestamp Delivered = Ok (p, event_id)"
  shows "\<exists>g topics out. gateway_connect fs (Ok ()) c password = Ok g \<and>
    poll_event_loop (mq_reconnect c) ts = Ok out \<and> topic_set_new (topic_prefix c) = Ok topics \<and>
    (\<forall>(topic, payload) \<in> set (gw_published (snd (process x inputs g))).
      topic \<noteq> ts_outbound_send topics \<and> length payload \<le> max_payload_bytes c \<and>
      (\<exists>pub event_id timestamp envelope.
        from_publication event_id (mq_origin c) timestamp pub = Ok envelope \<and>
        encode_envelope x envelope = Ok payload \<and> for_event topics (publication_kind pub) = Some topic)) \<and>
    set (gw_subscribed (snd (process x inputs g))) \<subseteq> (if allow_send c then {ts_outbound_send topics} else {})"
proof -
  obtain g out where parts: "from_protocol_parts fs c = Ok g" and out: "poll_event_loop (mq_reconnect c) ts = Ok out"
    using validated_gateway [OF assms(1)] by blast
  let ?g = "snd (process x inputs g)"
  note g = gateway_parts [OF parts]
  then have sub: "subscription_topic (gw_processor g) =
      (if allow_send c then Some (ts_outbound_send (gw_topics g)) else None)"
    by (simp add: subscription_topic_def processor_settings [OF g(5)])
  have "issued x (gw_config g) p" if "GI_Publication p t \<in> set inputs" for p t
    using assms(3) [OF that] g(1) by (auto simp: publish_with_metadata_def rbind_eq_Ok intro: issuedI)
  then have "confines x g ?g" by (rule process_confines)
  moreover have "confined x g" using g by (simp add: confined_def)
  ultimately have conf: "confined x ?g" "gw_config ?g = c" "gw_topics ?g = gw_topics g"
      "subscription_topic (gw_processor ?g) = subscription_topic (gw_processor g)"
    using g(1) by (auto simp: confines_def same_gateway_def)
  have "topic \<noteq> ts_outbound_send (gw_topics g) \<and> length payload \<le> max_payload_bytes c \<and>
      (\<exists>pub event_id timestamp envelope.
        from_publication event_id (mq_origin c) timestamp pub = Ok envelope \<and>
        encode_envelope x envelope = Ok payload \<and> for_event (gw_topics g) (publication_kind pub) = Some topic)"
    if "(topic, payload) \<in> set (gw_published ?g)" for topic payload
  proof -
    from conf that obtain p where p: "issued x c p" "for_event (gw_topics g) (pp_kind p) = Some topic"
      "payload = pp_payload p" by (fastforce simp: confined_def)
    with event_topic_not_outbound [OF g(2), of "pp_kind p"] have "topic \<noteq> ts_outbound_send (gw_topics g)" by auto
    with p(2,3) issued_meaning [OF p(1)] show ?thesis by metis
  qed
  moreover have "set (gw_subscribed ?g) \<subseteq> (if allow_send c then {ts_outbound_send (gw_topics g)} else {})"
    using conf sub by (auto simp: confined_def)
  moreover have "gateway_connect fs (Ok ()) c password = Ok g"
    using assms(1,2) parts by (simp add: gateway_connect_def)
  ultimately show ?thesis using out g(2) by blast
qed


section \<open>Examples\<close>

definition sample_turns :: "turn list" where
  "sample_turns = map (\<lambda>e. \<lparr>tn_cancelled = False, tn_poll = e, tn_send = Delivered, tn_sleep_cancelled = False\<rparr>)
     [Ok BE_ConnAck, Err (), Err ()]"

theorem worker_reports_consistent_witness:
  "\<exists>w. poll_event_loop reconnect_default sample_turns = Ok (None, w) \<and>
     wk_sent w = [NN_Connected, NN_Disconnected] \<and> map unat (wk_delays w) = [250, 500]"
proof -
  define run where "run = poll_event_loop reconnect_default sample_turns"
  have "\<exists>w. run = Ok (None, w) \<and> wk_sent w = [NN_Connected, NN_Disconnected] \<and> length (wk_delays w) = 2"
    by (simp add: run_def poll_event_loop_def backoff_new_def reconnect_default_def sample_turns_def worker_new_def
        worker_turn_def backoff_reset_def continue_with_def send_network_notice_def sleep_backoff_def next_delay_def Let_def)
  then obtain w where w: "run = Ok (None, w)" "wk_sent w = [NN_Connected, NN_Disconnected]" "length (wk_delays w) = 2"
    by blast
  moreover have "[0..<2] = [0, 1::nat]" by (simp add: upt_rec)
  ultimately show ?thesis using worker_reports_consistent [OF w(1) [unfolded run_def]]
    by (simp add: run_def reconnect_default_def)
qed


definition sample_moment :: moment where
  "sample_moment = \<lparr>mo_now = 0, mo_unix_ms = 1, mo_event_id = 5, mo_notice = Delivered, mo_rejection = TrySent,
     mo_subscribe = Accepted, mo_publish = Accepted\<rparr>"

definition sample_gateway :: gateway where
  "sample_gateway = (case from_protocol_parts no_files sample_config of Ok g \<Rightarrow> g)"

lemma sample_valid: "validate_config no_files sample_config = Ok ()"
  using sample_processor_new by (auto simp: processor_new_def rbind_eq_Ok map_err_eq_Ok)

lemma sample_gateway_new: "from_protocol_parts no_files sample_config = Ok sample_gateway"
  using validated_gateway(1) [OF sample_valid] by (auto simp: sample_gateway_def)

lemma sample_gateway_parts:
  "gw_processor sample_gateway = sample_processor" "\<not> gw_cancelled sample_gateway" "gw_notices sample_gateway = []"
  using gateway_parts [OF sample_gateway_new] sample_processor_new by simp_all

lemma sample_verdict:
  "process_at Mqtt_Command.sample_externs sample_topic [0] 0 sample_processor =
     (Ok sample_accepted, sample_processor\<lparr>cp_dedupe := sample_memory Mapping.empty 0\<rparr>)"
  using sample_screened [of "cp_dedupe sample_processor"] sample_replay(1)
  by (simp add: process_at_def sample_accepted_def)

theorem gateway_commands_gated_witness:
  "\<exists>g'. process Mqtt_Command.sample_externs [GI_Notice sample_moment (NN_Publish sample_topic [0] False)] sample_gateway = (None, g') \<and>
     commands (gw_notices g') = [sample_accepted]"
proof -
  have topic: "utf8 sample_topic" by (simp add: sample_topic_def bytes_of_def SCHEMA_VERSION_def)
  obtain g' where run: "process Mqtt_Command.sample_externs [GI_Notice sample_moment (NN_Publish sample_topic [0] False)] sample_gateway
      = (None, g')" "\<not> gw_cancelled g'"
    by (simp add: handle_network_notice_def topic sample_gateway_parts sample_verdict sample_moment_def send_notice_def
        continue_with_def)
  with gateway_commands_gated [OF sample_gateway_new run(1)] show ?thesis
    by (simp add: topic sample_gateway_parts sample_verdict sample_moment_def)
qed

definition sample_inputs :: "gateway_input list" where
  "sample_inputs = [GI_Notice sample_moment NN_Connected, GI_Notice sample_moment NN_Disconnected]"

theorem gateway_traffic_confined_witness:
  "\<exists>g. gateway_connect no_files (Ok ()) sample_config None = Ok g \<and>
     set (gw_subscribed (snd (process Mqtt_Command.sample_externs sample_inputs g))) \<subseteq> {sample_topic}"
proof -
  have "validate_credentials sample_config None = Ok ()"
    by (simp add: validate_credentials_def sample_config_def mqtt_default_def)
  moreover have "GI_Publication p t \<notin> set sample_inputs" for p t by (simp add: sample_inputs_def)
  ultimately
  obtain g topics where g: "gateway_connect no_files (Ok ()) sample_config None = Ok g"
      "topic_set_new (topic_prefix sample_config) = Ok topics"
      "set (gw_subscribed (snd (process Mqtt_Command.sample_externs sample_inputs g))) \<subseteq>
        (if allow_send sample_config then {ts_outbound_send topics} else {})"
    using gateway_traffic_confined [OF sample_valid, of None sample_inputs Mqtt_Command.sample_externs "[]"] by blast
  then show ?thesis
    by (auto simp: sample_config_def mqtt_default_def topic_set_new_def sample_settings Let_def sample_topic_def)
qed

end
