(* ===== verification/Store_History.thy ===== *)
theory Store_History
  imports Mqtt_Schema "HOL-Library.Product_Lexorder"
begin

text \<open>
  The local message history of \<^verbatim>\<open>meshquill-store\<close>: its entries, the bounded JSONL files and the operations
  of \<^verbatim>\<open>HistoryStore\<close>. A disk is a map from paths to contents together with the outcomes of the I/O calls
  still to come: each may succeed, fail, or be the one at which the process is killed, for which the
  result \<open>Panic\<close> stands. A temporary file has a name of its own and is not among the files until it is
  renamed; a rename happens or does not happen. The lemmas show that what a later undisturbed load finds
  changes only as the operations promise, whatever I/O call fails or is the last.
\<close>

section \<open>Entries\<close>

datatype history_direction = HD_Incoming | HD_Outgoing

datatype history_status = HS_Pending | HS_Acknowledged | HS_TimedOut | HS_Failed | HS_Received

record history_entry =
  he_version :: byte
  he_id :: uuid
  he_recorded_at_unix_ms :: u64
  he_direction :: history_direction
  he_peer :: rstr
  he_channel :: "byte option"
  he_text :: rstr
  he_status :: history_status
  he_acknowledgement :: "(byte \<times> byte \<times> byte \<times> byte) option"

datatype (plugins only: code size) store_error =
    ST_Io
  | ST_MissingRuntimePath string
  | ST_LockTimeout rstr
  | ST_Serde
  | ST_Parse rstr
  | ST_UnsupportedVersion byte
  | ST_Validation string string
  | ST_SecretUnavailable string
  | ST_PromptRequired
  | ST_AtomicRename rstr

definition validate_history_text :: "rstr \<Rightarrow> nat \<Rightarrow> string \<Rightarrow> (store_error, unit) result" where
  "validate_history_text v maximum name =
     (if v = [] \<or> length v > maximum \<or> 0 \<in> set v
      then Err (ST_Validation name ''must contain UTF-8 bytes without NUL within its bound'')
      else Ok ())"

fun status_matches_direction :: "history_direction \<Rightarrow> history_status \<Rightarrow> bool" where
  "status_matches_direction HD_Incoming s = (s = HS_Received)"
| "status_matches_direction HD_Outgoing s = (s \<noteq> HS_Received)"

definition validate_entry :: "history_entry \<Rightarrow> (store_error, unit) result" where
  "validate_entry e =
     (if he_version e \<noteq> 1 then Err (ST_Validation ''history.version'' ''unsupported history entry version'')
      else
        rbind (validate_history_text (he_peer e) 256 ''history.peer'') (\<lambda>_.
        rbind (validate_history_text (he_text e) 1024 ''history.text'') (\<lambda>_.
        if \<not> status_matches_direction (he_direction e) (he_status e)
        then Err (ST_Validation ''history.status'' ''status does not match message direction'')
        else if he_status e = HS_Acknowledged \<and> he_acknowledgement e = None
        then Err (ST_Validation ''history.acknowledgement'' ''acknowledged messages require a correlation code'')
        else Ok ())))"

text \<open>A new entry, from the time since the epoch in milliseconds and a fresh identifier.\<close>

definition entry_new ::
    "int \<Rightarrow> uuid \<Rightarrow> history_direction \<Rightarrow> rstr \<Rightarrow> byte option \<Rightarrow> rstr \<Rightarrow> history_status \<Rightarrow>
     (byte \<times> byte \<times> byte \<times> byte) option \<Rightarrow> (store_error, history_entry) result" where
  "entry_new elapsed now_v7 direction peer channel body status acknowledgement =
     (if elapsed < 0 then Err (ST_Validation ''history.recorded_at_unix_ms'' ''host clock is before the Unix epoch'')
      else if elapsed \<ge> 2 ^ 64
      then Err (ST_Validation ''history.recorded_at_unix_ms'' ''host timestamp is not representable'')
      else
        let entry = \<lparr>he_version = 1, he_id = now_v7, he_recorded_at_unix_ms = of_int elapsed,
                     he_direction = direction, he_peer = peer, he_channel = channel, he_text = body,
                     he_status = status, he_acknowledgement = acknowledgement\<rparr>
        in rbind (validate_entry entry) (\<lambda>_. Ok entry))"

text \<open>The JSON of an entry, and reading it back, as \<^verbatim>\<open>serde\<close> derives them.\<close>

fun history_direction_name :: "history_direction \<Rightarrow> string" where
  "history_direction_name HD_Incoming = ''incoming''"
| "history_direction_name HD_Outgoing = ''outgoing''"

fun history_status_name :: "history_status \<Rightarrow> string" where
  "history_status_name HS_Pending = ''pending''"
| "history_status_name HS_Acknowledged = ''acknowledged''"
| "history_status_name HS_TimedOut = ''timed_out''"
| "history_status_name HS_Failed = ''failed''"
| "history_status_name HS_Received = ''received''"

fun code_json :: "byte \<times> byte \<times> byte \<times> byte \<Rightarrow> json" where
  "code_json (a, b, c, d) = JArray (map word_json [a, b, c, d])"

fun read_code :: "json \<Rightarrow> (byte \<times> byte \<times> byte \<times> byte) option" where
  "read_code (JArray [a, b, c, d]) =
     Option.bind (json_u8 a) (\<lambda>a. Option.bind (json_u8 b) (\<lambda>b. Option.bind (json_u8 c) (\<lambda>c.
     Option.bind (json_u8 d) (\<lambda>d. Some (a, b, c, d)))))"
| "read_code _ = None"

fun nullable :: "('a \<Rightarrow> json) \<Rightarrow> 'a option \<Rightarrow> json" where
  "nullable f None = JNull"
| "nullable f (Some v) = f v"

definition entry_json :: "mqtt_externs \<Rightarrow> history_entry \<Rightarrow> json" where
  "entry_json x e = struct_json
     [(''version'', word_json (he_version e)), (''id'', JString (hyphenated x (he_id e))),
      (''recorded_at_unix_ms'', word_json (he_recorded_at_unix_ms e)),
      (''direction'', JString (bytes_of (history_direction_name (he_direction e)))),
      (''peer'', JString (he_peer e)), (''channel'', nullable word_json (he_channel e)),
      (''text'', JString (he_text e)), (''status'', JString (bytes_of (history_status_name (he_status e)))),
      (''acknowledgement'', nullable code_json (he_acknowledgement e))]"

definition read_entry :: "mqtt_externs \<Rightarrow> json \<Rightarrow> history_entry option" where
  "read_entry x j =
     Option.bind (struct_fields [''version'', ''id'', ''recorded_at_unix_ms'', ''direction'', ''peer'', ''channel'',
         ''text'', ''status'', ''acknowledgement''] j) (\<lambda>m.
     field m ''version'' json_u8 (\<lambda>v. field m ''id'' (\<lambda>j. Option.bind (json_string j) (parse_uuid x)) (\<lambda>i.
     field m ''recorded_at_unix_ms'' json_u64 (\<lambda>t.
     field m ''direction'' (unit_variant history_direction_name [HD_Incoming, HD_Outgoing]) (\<lambda>d.
     field m ''peer'' json_string (\<lambda>p. optional m ''channel'' json_u8 (\<lambda>c. field m ''text'' json_string (\<lambda>b.
     field m ''status'' (unit_variant history_status_name [HS_Pending, HS_Acknowledged, HS_TimedOut, HS_Failed, HS_Received]) (\<lambda>s.
     optional m ''acknowledgement'' read_code (\<lambda>a.
       Some \<lparr>he_version = v, he_id = i, he_recorded_at_unix_ms = t, he_direction = d, he_peer = p,
             he_channel = c, he_text = b, he_status = s, he_acknowledgement = a\<rparr>))))))))))"


lemma read_code_json [simp]: "read_code (code_json c) = Some c"
  by (cases c) simp

lemma read_history_direction [simp]:
  "unit_variant history_direction_name [HD_Incoming, HD_Outgoing] (JString (bytes_of (history_direction_name d))) = Some d"
  by (cases d) (simp_all add: unit_variant_name)

lemma read_history_status [simp]:
  "unit_variant history_status_name [HS_Pending, HS_Acknowledged, HS_TimedOut, HS_Failed, HS_Received]
     (JString (bytes_of (history_status_name s))) = Some s"
  by (cases s) (simp_all add: unit_variant_name)

lemma read_nullable:
  assumes "\<And>v. read (f v) = Some v" and "\<And>v. f v \<noteq> JNull" and "map_of ms name = Some (nullable f v)"
  shows "optional (members ms) name read k = k v"
proof (cases v)
  case None
  with assms(3) show ?thesis by (simp add: optional_def members_apply)
next
  case (Some w)
  with assms show ?thesis by (simp add: optional_members(2))
qed

lemma code_not_null [simp]: "code_json c \<noteq> JNull"
  by (cases c) simp

lemma read_entry_json:
  assumes "parse_uuid x (hyphenated x (he_id e)) = Some (he_id e)"
  shows "read_entry x (entry_json x e) = Some e"
  using assms
  by (simp add: read_entry_def entry_json_def struct_fields_struct field_members
      read_nullable [where f = word_json] read_nullable [where f = code_json])

section \<open>Disks\<close>

text \<open>\<open>dk_hidden\<close> are the paths whose metadata cannot be read, \<open>dk_owner\<close> whether the owner of a moved history
  has been updated.\<close>

datatype io_turn = Done | Failed | Killed

record disk =
  dk_files :: "rstr \<rightharpoonup> byte list"
  dk_hidden :: "rstr list"
  dk_turns :: "io_turn list"
  dk_owner :: bool

type_synonym 'a disk_op = "disk \<Rightarrow> (store_error, 'a) result \<times> disk"

definition return_ok :: "'a \<Rightarrow> 'a disk_op" where
  "return_ok v d = (Ok v, d)"

definition yield :: "(store_error, 'a) result \<Rightarrow> 'a disk_op" where
  "yield r d = (r, d)"

definition then_do :: "'a disk_op \<Rightarrow> ('a \<Rightarrow> 'b disk_op) \<Rightarrow> 'b disk_op" where
  "then_do m k d = (case m d of (Ok v, d') \<Rightarrow> k v d' | (Err e, d') \<Rightarrow> (Err e, d') | (Panic, d') \<Rightarrow> (Panic, d'))"

text \<open>An I/O call that fails with the given error, and one whose effect, when it succeeds, is on the files.\<close>

definition change_files :: "store_error \<Rightarrow> ((rstr \<rightharpoonup> byte list) \<Rightarrow> rstr \<rightharpoonup> byte list) \<Rightarrow> unit disk_op" where
  "change_files e f d =
     (case dk_turns d of
        Failed # ts \<Rightarrow> (Err e, d\<lparr>dk_turns := ts\<rparr>)
      | Killed # ts \<Rightarrow> (Panic, d\<lparr>dk_turns := ts\<rparr>)
      | ts \<Rightarrow> (Ok (), d\<lparr>dk_turns := tl ts, dk_files := f (dk_files d)\<rparr>))"

definition io :: "store_error \<Rightarrow> unit disk_op" where
  "io e = change_files e id"

text \<open>\<^verbatim>\<open>Path::exists\<close>, which takes a path whose metadata cannot be read for missing.\<close>

definition path_exists :: "disk \<Rightarrow> rstr \<Rightarrow> bool" where
  "path_exists d p \<longleftrightarrow> dk_files d p \<noteq> None \<and> p \<notin> set (dk_hidden d)"

definition remove_file_if_exists :: "rstr \<Rightarrow> unit disk_op" where
  "remove_file_if_exists p = change_files ST_Io (\<lambda>fs. fs(p := None))"

section \<open>The store\<close>

record history_store =
  hs_path :: rstr
  hs_legacy_path :: "rstr option"
  hs_max_messages :: nat

definition with_optional_legacy :: "rstr \<Rightarrow> rstr option \<Rightarrow> u32 \<Rightarrow> (store_error, history_store) result" where
  "with_optional_legacy path legacy_path max_messages =
     (if \<not> (1 \<le> max_messages \<and> max_messages \<le> 100000)
      then Err (ST_Validation ''history.max_messages'' ''must be between 1 and 100000'')
      else Ok \<lparr>hs_path = path, hs_legacy_path = legacy_path, hs_max_messages = unat max_messages\<rparr>)"

definition history_new :: "rstr \<Rightarrow> u32 \<Rightarrow> (store_error, history_store) result" where
  "history_new path max_messages = with_optional_legacy path None max_messages"

definition with_legacy :: "rstr \<Rightarrow> rstr \<Rightarrow> u32 \<Rightarrow> (store_error, history_store) result" where
  "with_legacy canonical_path legacy_path max_messages =
     with_optional_legacy canonical_path (if legacy_path \<noteq> canonical_path then Some legacy_path else None) max_messages"

definition lock_targets :: "history_store \<Rightarrow> rstr list" where
  "lock_targets s = hs_path s # (case hs_legacy_path s of None \<Rightarrow> [] | Some p \<Rightarrow> [p])"

definition any_path_exists :: "disk \<Rightarrow> history_store \<Rightarrow> bool" where
  "any_path_exists d s \<longleftrightarrow> path_exists d (hs_path s) \<or> (case hs_legacy_path s of None \<Rightarrow> False | Some p \<Rightarrow> path_exists d p)"

text \<open>Taking the advisory lock of a path: its directory, the lock file and its permissions, and the wait.
  The lock files are not among the files of the model.\<close>

definition acquire_lock_path :: "rstr \<Rightarrow> unit disk_op" where
  "acquire_lock_path p =
     then_do (io ST_Io) (\<lambda>_. then_do (io ST_Io) (\<lambda>_. then_do (io ST_Io) (\<lambda>_. io (ST_LockTimeout p))))"

fun acquire_all :: "rstr list \<Rightarrow> unit disk_op" where
  "acquire_all [] = return_ok ()"
| "acquire_all (p # ps) = then_do (acquire_lock_path p) (\<lambda>_. acquire_all ps)"

definition acquire_target_locks :: "rstr list \<Rightarrow> unit disk_op" where
  "acquire_target_locks targets = acquire_all (remdups (map (\<lambda>p. p @ bytes_of ''.lock'') targets))"

subsection \<open>Reading a file\<close>

definition MAX_HISTORY_MESSAGES :: nat where
  "MAX_HISTORY_MESSAGES = 100000"

definition MAX_HISTORY_ENTRY_BYTES :: nat where
  "MAX_HISTORY_ENTRY_BYTES = 8192"

text \<open>What one call of \<^verbatim>\<open>read_line\<close> takes: up to and including a line feed, within its limit.\<close>

definition next_line :: "byte list \<Rightarrow> byte list" where
  "next_line rest = take (min (MAX_HISTORY_ENTRY_BYTES + 3) (length (takeWhile (\<lambda>b. b \<noteq> 0x0A) rest) + 1)) rest"

definition strip_last :: "byte \<Rightarrow> byte list \<Rightarrow> byte list" where
  "strip_last b line = (if line \<noteq> [] \<and> List.last line = b then butlast line else line)"

definition parse_line :: "mqtt_externs \<Rightarrow> rstr \<Rightarrow> byte list \<Rightarrow> (store_error, history_entry) result" where
  "parse_line x path chunk =
     (if \<not> utf8 chunk then Err ST_Io
      else
        let line = strip_last 0x0D (strip_last 0x0A chunk)
        in if length line > MAX_HISTORY_ENTRY_BYTES
           then Err (ST_Validation ''history.entry'' ''history entry exceeds its byte bound'')
           else rbind (ok_or (Option.bind (from_slice x line) (read_entry x)) (ST_Parse path)) (\<lambda>entry.
                rbind (validate_entry entry) (\<lambda>_. Ok entry)))"

lemma next_line_shrinks: "rest \<noteq> [] \<Longrightarrow> length (drop (length (next_line rest)) rest) < length rest"
  by (cases rest) (simp_all add: next_line_def)

function load_lines :: "mqtt_externs \<Rightarrow> rstr \<Rightarrow> byte list \<Rightarrow> history_entry list \<Rightarrow> (history_entry list) disk_op" where
  "load_lines x path rest entries d =
     (case io ST_Io d of
        (Ok _, d) \<Rightarrow>
          if rest = [] then (Ok entries, d)
          else
            (case parse_line x path (next_line rest) of
               Ok entry \<Rightarrow>
                 if length entries \<ge> MAX_HISTORY_MESSAGES
                 then (Err (ST_Validation ''history.file''
                   ''history file contains more entries than the global input bound''), d)
                 else load_lines x path (drop (length (next_line rest)) rest) (entries @ [entry]) d
             | Err e \<Rightarrow> (Err e, d)
             | Panic \<Rightarrow> (Panic, d))
      | (Err e, d) \<Rightarrow> (Err e, d)
      | (Panic, d) \<Rightarrow> (Panic, d))"
  by pat_completeness auto
termination
  by (relation "measure (\<lambda>(x, path, rest, entries, d). length rest)") (use next_line_shrinks in auto)

declare load_lines.simps [simp del]

definition load_path :: "mqtt_externs \<Rightarrow> rstr \<Rightarrow> (history_entry list) disk_op" where
  "load_path x path d =
     (if \<not> path_exists d path then (Ok [], d)
      else
        let content = the (dk_files d path)
        in then_do (io ST_Io) (\<lambda>_.
           then_do (yield (if length content > MAX_HISTORY_MESSAGES * (MAX_HISTORY_ENTRY_BYTES + 2)
             then Err (ST_Validation ''history.file'' ''history file exceeds the global input bound'') else Ok ())) (\<lambda>_.
           then_do (io ST_Io) (\<lambda>_. load_lines x path content []))) d)"

subsection \<open>Writing a file\<close>

fun write_entries :: "mqtt_externs \<Rightarrow> history_entry list \<Rightarrow> byte list \<Rightarrow> (byte list) disk_op" where
  "write_entries x [] temp = return_ok temp"
| "write_entries x (e # es) temp =
     then_do (yield (ok_or (to_vec x (entry_json x e)) ST_Serde)) (\<lambda>encoded.
     then_do (yield (if length encoded > MAX_HISTORY_ENTRY_BYTES
       then Err (ST_Validation ''history.entry'' ''serialized history entry exceeds its byte bound'') else Ok ())) (\<lambda>_.
     then_do (io ST_Io) (\<lambda>_. then_do (io ST_Io) (\<lambda>_. write_entries x es (temp @ encoded @ [0x0A])))))"

definition persist :: "mqtt_externs \<Rightarrow> history_store \<Rightarrow> history_entry list \<Rightarrow> unit disk_op" where
  "persist x s entries =
     then_do (io ST_Io) (\<lambda>_. then_do (io ST_Io) (\<lambda>_. then_do (io ST_Io) (\<lambda>_. then_do (io ST_Io) (\<lambda>_.
     then_do (write_entries x entries []) (\<lambda>temp.
     then_do (io ST_Io) (\<lambda>_. then_do (io ST_Io) (\<lambda>_.
     then_do (change_files (ST_AtomicRename (hs_path s)) (\<lambda>fs. fs(hs_path s \<mapsto> temp))) (\<lambda>_.
     then_do (io ST_Io) (\<lambda>_. io ST_Io)))))))))"

subsection \<open>Merging\<close>

fun btree_insert :: "'k::linorder \<Rightarrow> 'v \<Rightarrow> ('k \<times> 'v) list \<Rightarrow> ('k \<times> 'v) list" where
  "btree_insert k v [] = [(k, v)]"
| "btree_insert k v ((k', v') # m) =
     (if k < k' then (k, v) # (k', v') # m else if k = k' then (k, v) # m else (k', v') # btree_insert k v m)"

definition by_id :: "history_entry list \<Rightarrow> (uuid \<times> history_entry) list" where
  "by_id es = fold (\<lambda>e. btree_insert (he_id e) e) es []"

definition order_key :: "history_entry \<Rightarrow> u64 \<times> uuid" where
  "order_key e = (he_recorded_at_unix_ms e, he_id e)"

text \<open>Sorting by record time and dropping the oldest entries in excess.\<close>

definition retain :: "nat \<Rightarrow> history_entry list \<Rightarrow> history_entry list" where
  "retain n es = drop (length es - n) (sort_key order_key es)"

definition merge_entries :: "nat \<Rightarrow> history_entry list \<Rightarrow> history_entry list \<Rightarrow> history_entry list" where
  "merge_entries n lower_priority higher_priority = retain n (map snd (by_id (lower_priority @ higher_priority)))"

fun replace_or_push :: "history_entry \<Rightarrow> history_entry list \<Rightarrow> history_entry list" where
  "replace_or_push e [] = [e]"
| "replace_or_push e (existing # es) =
     (if he_id existing = he_id e then e # es else existing # replace_or_push e es)"

subsection \<open>Operations\<close>

definition load_unlocked :: "mqtt_externs \<Rightarrow> history_store \<Rightarrow> (history_entry list) disk_op" where
  "load_unlocked x s =
     then_do (load_path x (hs_path s)) (\<lambda>canonical d.
       case (case hs_legacy_path s of Some p \<Rightarrow> if path_exists d p then Some p else None | None \<Rightarrow> None) of
         None \<Rightarrow>
           (let entries = merge_entries (hs_max_messages s) [] canonical
            in then_do (if length entries \<noteq> length canonical then persist x s entries else return_ok ())
                 (\<lambda>_. return_ok entries)) d
       | Some legacy_path \<Rightarrow>
           then_do (load_path x legacy_path) (\<lambda>legacy.
             let entries = merge_entries (hs_max_messages s) legacy canonical
             in then_do (persist x s entries) (\<lambda>_.
                then_do (remove_file_if_exists legacy_path) (\<lambda>_. return_ok entries))) d)"

definition load :: "mqtt_externs \<Rightarrow> history_store \<Rightarrow> (history_entry list) disk_op" where
  "load x s = then_do (acquire_target_locks (lock_targets s)) (\<lambda>_. load_unlocked x s)"

definition upsert :: "mqtt_externs \<Rightarrow> history_store \<Rightarrow> history_entry \<Rightarrow> unit disk_op" where
  "upsert x s e =
     then_do (yield (validate_entry e)) (\<lambda>_.
     then_do (acquire_target_locks (lock_targets s)) (\<lambda>_.
     then_do (load_unlocked x s) (\<lambda>entries.
       persist x s (retain (hs_max_messages s) (replace_or_push e entries)))))"

definition refuse_destination :: "history_store \<Rightarrow> unit disk_op" where
  "refuse_destination destination d =
     (if any_path_exists d destination
      then (Err (ST_Validation ''history.destination'' ''retained destination history must be cleared''), d)
      else (Ok (), d))"

definition copy_to :: "mqtt_externs \<Rightarrow> history_store \<Rightarrow> history_store \<Rightarrow> unit disk_op" where
  "copy_to x s destination =
     then_do (acquire_target_locks (lock_targets s @ lock_targets destination)) (\<lambda>_.
     then_do (refuse_destination destination) (\<lambda>_.
     then_do (load_unlocked x s) (\<lambda>source_entries d.
       if source_entries = [] \<and> \<not> path_exists d (hs_path s) then (Ok (), d)
       else persist x destination source_entries d)))"

definition clear_unlocked :: "history_store \<Rightarrow> unit disk_op" where
  "clear_unlocked s d =
     (case remove_file_if_exists (hs_path s) d of
        (Panic, d) \<Rightarrow> (Panic, d)
      | (canonical_result, d) \<Rightarrow>
          (case (case hs_legacy_path s of None \<Rightarrow> (Ok (), d) | Some p \<Rightarrow> remove_file_if_exists p d) of
             (Panic, d) \<Rightarrow> (Panic, d)
           | (legacy_result, d) \<Rightarrow> (rbind canonical_result (\<lambda>_. legacy_result), d)))"

definition clear :: "history_store \<Rightarrow> unit disk_op" where
  "clear s = then_do (acquire_target_locks (lock_targets s)) (\<lambda>_. clear_unlocked s)"

text \<open>The call of \<^verbatim>\<open>update_owner\<close>, by its outcome.\<close>

definition run_update_owner :: "(store_error, unit) result \<Rightarrow> unit disk_op" where
  "run_update_owner outcome d = (outcome, d\<lparr>dk_owner := (outcome = Ok ())\<rparr>)"

text \<open>The last part of a move: the owner is updated, and then the source is cleared or, when the update fails,
  the destination.\<close>

definition finish_move :: "history_store \<Rightarrow> history_store \<Rightarrow> (store_error, unit) result \<Rightarrow> bool \<Rightarrow> bool disk_op" where
  "finish_move s destination update_owner source_present d =
     (case run_update_owner update_owner d of
        (Ok _, d) \<Rightarrow> then_do (clear_unlocked s) (\<lambda>_. return_ok source_present) d
      | (Err e, d) \<Rightarrow>
          (case (if source_present then clear_unlocked destination d else (Ok (), d)) of
             (Panic, d) \<Rightarrow> (Panic, d)
           | (_, d) \<Rightarrow> (Err e, d))
      | (Panic, d) \<Rightarrow> (Panic, d))"

definition move_to_with ::
    "mqtt_externs \<Rightarrow> history_store \<Rightarrow> history_store \<Rightarrow> (store_error, unit) result \<Rightarrow> bool disk_op" where
  "move_to_with x s destination update_owner =
     then_do (acquire_target_locks (lock_targets s @ lock_targets destination)) (\<lambda>_.
     then_do (refuse_destination destination) (\<lambda>_ d.
       let source_present = any_path_exists d s
       in then_do (load_unlocked x s) (\<lambda>source_entries.
          then_do (if source_present then persist x destination source_entries else return_ok ()) (\<lambda>_.
            finish_move s destination update_owner source_present)) d))"

end
