(* ===== verification/Store_Safety.thy ===== *)
theory Store_Safety
  imports Store_History
begin

text \<open>
  What the message history promises: which entries it retains, that reading back gives what was written,
  and that an operation that fails or is killed at any I/O call leaves the history as it was or as the
  operation makes it.
\<close>

section \<open>Retained entries\<close>

text \<open>A history lists its entries by record time, one for each identifier. \<open>top_entries n R S\<close>: \<open>R\<close> are the
  \<open>n\<close> newest entries of \<open>S\<close>, or all of them if there are fewer.\<close>

definition history :: "history_entry list \<Rightarrow> bool" where
  "history es \<longleftrightarrow> sorted (map order_key es) \<and> distinct (map he_id es)"

definition top_entries :: "nat \<Rightarrow> history_entry set \<Rightarrow> history_entry set \<Rightarrow> bool" where
  "top_entries n R S \<longleftrightarrow>
     R \<subseteq> S \<and> card R = min n (card S) \<and> (\<forall>r \<in> R. \<forall>e \<in> S - R. order_key e < order_key r)"

lemma order_key_id: "order_key e = order_key e' \<Longrightarrow> he_id e = he_id e'"
  by (simp add: order_key_def)

lemma distinct_keys: "distinct (map he_id es) \<Longrightarrow> distinct (map order_key es)"
  by (induction es) (auto dest: order_key_id simp: image_iff)

lemma inj_on_key: "distinct (map he_id es) \<Longrightarrow> inj_on order_key (set es)"
  using distinct_keys distinct_map by blast

lemma history_unique:
  assumes "history xs" and "history ys" and "set xs = set ys"
  shows "xs = ys"
proof -
  have "map order_key xs = map order_key ys"
    using assms distinct_keys by (intro sorted_distinct_set_unique) (auto simp: history_def)
  with assms show ?thesis using inj_on_key inj_on_map_eq_map by (metis Un_absorb history_def)
qed

lemma top_entries_unique:
  assumes "finite S" and "top_entries n R S" and "top_entries n R' S"
  shows "R = R'"
proof (rule ccontr)
  assume "R \<noteq> R'"
  moreover have fin: "finite R" "finite R'" and "card R = card R'"
    using assms by (auto simp: top_entries_def intro: finite_subset)
  ultimately have "\<not> R \<subseteq> R'" "\<not> R' \<subseteq> R" using card_subset_eq by metis+
  then obtain r r' where r: "r \<in> R" "r \<notin> R'" "r' \<in> R'" "r' \<notin> R" by blast
  with assms have "order_key r' < order_key r" "order_key r < order_key r'" by (auto simp: top_entries_def)
  then show False by simp
qed

lemma retain_history: "distinct (map he_id es) \<Longrightarrow> history (retain n es)"
proof -
  assume "distinct (map he_id es)"
  then have "distinct (map he_id (sort_key order_key es))" by (simp add: distinct_map)
  then show ?thesis
    using sorted_wrt_drop [of "(\<le>)" "map order_key (sort_key order_key es)"]
    by (simp add: history_def retain_def drop_map [symmetric])
qed

lemma retain_length: "length (retain n es) = min n (length es)"
  by (simp add: retain_def)

lemma retain_top:
  assumes "distinct (map he_id es)"
  shows "top_entries n (set (retain n es)) (set es)"
proof -
  let ?s = "sort_key order_key es" let ?k = "length es - n"
  have d: "distinct (map he_id ?s)" using assms by (simp add: distinct_map)
  then have keys: "distinct (map order_key ?s)" by (rule distinct_keys)
  have s: "take ?k ?s @ drop ?k ?s = ?s" by simp
  have "order_key e < order_key r" if "r \<in> set (drop ?k ?s)" "e \<in> set (take ?k ?s)" for e r
  proof -
    have "sorted (map order_key (take ?k ?s @ drop ?k ?s))" by simp
    with that have "order_key e \<le> order_key r" by (auto simp: sorted_append simp del: append_take_drop_id)
    moreover from keys have "distinct (map order_key (take ?k ?s @ drop ?k ?s))" by simp
    with that have "order_key e \<noteq> order_key r" by (auto simp del: append_take_drop_id)
    ultimately show ?thesis by simp
  qed
  moreover have "set es = set (take ?k ?s) \<union> set (drop ?k ?s)"
    by (metis s set_append set_sort)
  moreover have "card (set (drop ?k ?s)) = min n (card (set es))"
    using d assms by (simp add: distinct_card distinct_map)
  ultimately show ?thesis by (auto simp: top_entries_def retain_def)
qed

lemma retain_all: "history es \<Longrightarrow> length es \<le> n \<Longrightarrow> retain n es = es"
  by (simp add: retain_def history_def sort_key_id_if_sorted)


section \<open>Merging\<close>

text \<open>The entry of each identifier: the last one listed.\<close>

definition latest :: "history_entry list \<Rightarrow> uuid \<rightharpoonup> history_entry" where
  "latest es = fold (\<lambda>e m. m(he_id e \<mapsto> e)) es Map.empty"

lemma latest_snoc [simp]: "latest (es @ [e]) = (latest es)(he_id e \<mapsto> e)"
  by (simp add: latest_def)

lemma latest_Nil [simp]: "latest [] = Map.empty"
  by (simp add: latest_def)

lemma latest_append: "latest (xs @ ys) = latest xs ++ latest ys"
proof (induction ys rule: rev_induct)
  case (snoc y ys)
  have "latest (xs @ ys @ [y]) = latest ((xs @ ys) @ [y])" by simp
  also have "\<dots> = latest xs ++ latest (ys @ [y])" using snoc by (simp only: latest_snoc) simp
  finally show ?case .
qed simp

lemma latest_listed: "latest es i = Some e \<Longrightarrow> e \<in> set es \<and> he_id e = i"
  by (induction es rule: rev_induct) (auto split: if_splits)

lemma latest_dom: "dom (latest es) = he_id ` set es"
proof (induction es rule: rev_induct)
  case (snoc e es)
  then show ?case by (simp only: latest_snoc dom_fun_upd) simp
qed simp

lemma latest_distinct: "distinct (map he_id es) \<Longrightarrow> e \<in> set es \<Longrightarrow> latest es (he_id e) = Some e"
  by (induction es rule: rev_induct) (auto simp: image_iff)

lemma btree_insert_keys: "fst ` set (btree_insert k v m) = insert k (fst ` set m)"
  by (induction k v m rule: btree_insert.induct) auto

lemma btree_insert_sorted:
  "sorted_wrt (<) (map fst m) \<Longrightarrow> sorted_wrt (<) (map fst (btree_insert k v m))"
  by (induction k v m rule: btree_insert.induct) (auto simp: btree_insert_keys [simplified] image_iff)

lemma btree_insert_map_of:
  "sorted_wrt (<) (map fst m) \<Longrightarrow> map_of (btree_insert k v m) = (map_of m)(k \<mapsto> v)"
  by (induction k v m rule: btree_insert.induct) (auto simp: fun_eq_iff dest: map_of_SomeD)


lemma by_id_sorted: "sorted_wrt (<) (map fst (by_id es))"
  by (induction es rule: rev_induct) (simp_all add: by_id_def btree_insert_sorted)

lemma by_id_map_of: "map_of (by_id es) = latest es"
proof (induction es rule: rev_induct)
  case (snoc e es)
  then show ?case using btree_insert_map_of [OF by_id_sorted [of es]] by (simp add: by_id_def)
qed (simp add: by_id_def)

lemma by_id_distinct: "distinct (map fst (by_id es))"
  using by_id_sorted strict_sorted_iff by blast

lemma by_id_listed: "(i, e) \<in> set (by_id es) \<longleftrightarrow> latest es i = Some e"
  using by_id_distinct [of es] by (simp add: by_id_map_of [symmetric])

lemma by_id_values: "set (map snd (by_id es)) = ran (latest es)"
  using ran_distinct [OF by_id_distinct, of es] by (simp add: by_id_map_of)

lemma by_id_ids: "map he_id (map snd (by_id es)) = map fst (by_id es)"
  by (auto simp: by_id_listed dest: latest_listed)

lemma merge_history: "history (merge_entries n lo hi)"
  using by_id_distinct [of "lo @ hi"] unfolding merge_entries_def
  by (intro retain_history) (simp only: by_id_ids)

lemma merge_top: "top_entries n (set (merge_entries n lo hi)) (ran (latest (lo @ hi)))"
  using by_id_distinct [of "lo @ hi"] retain_top [of "map snd (by_id (lo @ hi))" n]
  unfolding merge_entries_def by (simp only: by_id_ids by_id_values)

lemma merge_length: "length (merge_entries n lo hi) \<le> n"
  by (simp add: merge_entries_def retain_length)

lemma merge_listed: "e \<in> set (merge_entries n lo hi) \<Longrightarrow> e \<in> set lo \<union> set hi"
  using merge_top [of n lo hi] latest_listed by (force simp: top_entries_def ran_def)

lemma finite_latest: "finite (ran (latest es))"
  using finite_set by (metis by_id_values)

lemma merge_eqI:
  assumes "history es" and "top_entries n (set es) (ran (latest (lo @ hi)))"
  shows "merge_entries n lo hi = es"
  using assms merge_history merge_top finite_latest by (metis history_unique top_entries_unique)

lemma latest_history: "history es \<Longrightarrow> ran (latest es) = set es"
  by (auto simp: history_def ran_def dest: latest_listed latest_distinct)

lemma merge_nothing:
  assumes "history es" shows "merge_entries n [] es = retain n es"
proof (rule merge_eqI)
  have "distinct (map he_id es)" using assms by (simp add: history_def)
  then show "history (retain n es)" "top_entries n (set (retain n es)) (ran (latest ([] @ es)))"
    using latest_history [OF assms] by (simp_all add: retain_history retain_top)
qed

text \<open>The entries of two files agree on when an entry was recorded.\<close>

definition times_agree :: "history_entry list \<Rightarrow> bool" where
  "times_agree es \<longleftrightarrow>
     (\<forall>e \<in> set es. \<forall>e' \<in> set es. he_id e = he_id e' \<longrightarrow> he_recorded_at_unix_ms e = he_recorded_at_unix_ms e')"

text \<open>Merging the legacy file again into the result of merging it changes nothing.\<close>

lemma merge_again:
  assumes "times_agree (lo @ hi)"
  shows "merge_entries n lo (merge_entries n lo hi) = merge_entries n lo hi"
proof -
  define M where "M = merge_entries n lo hi"
  let ?U = "ran (latest (lo @ hi))" let ?V = "ran (latest (lo @ M))"
  have top: "top_entries n (set M) ?U" unfolding M_def by (rule merge_top)
  have hist: "history M" unfolding M_def by (rule merge_history)
  have M: "set M \<subseteq> ?V"
  proof
    fix e assume "e \<in> set M"
    with hist have "latest M (he_id e) = Some e" by (simp add: history_def latest_distinct)
    then have "latest (lo @ M) (he_id e) = Some e" by (simp add: latest_append)
    then show "e \<in> ?V" by (rule ranI)
  qed
  have other: "\<exists>u \<in> ?U - set M. order_key u = order_key e" if e: "e \<in> ?V - set M" for e
  proof -
    from e obtain i where i: "latest (lo @ M) i = Some e" by (auto simp: ran_def)
    with e have "latest M i = None" and lo: "latest lo i = Some e"
      by (auto simp: latest_append map_add_Some_iff dest: latest_listed)
    then have none: "i \<notin> he_id ` set M" using latest_dom [of M] by (auto simp: domIff)
    from lo have "i \<in> dom (latest (lo @ hi))" by (auto simp: latest_append)
    then obtain u where u: "latest (lo @ hi) i = Some u" by blast
    have "he_id u = he_id e" "u \<in> set (lo @ hi)" "e \<in> set (lo @ hi)"
      using latest_listed [OF u] latest_listed [OF lo] by simp_all
    moreover from this assms have "he_recorded_at_unix_ms u = he_recorded_at_unix_ms e"
      unfolding times_agree_def by blast
    ultimately have "order_key u = order_key e" by (simp add: order_key_def)
    moreover have "u \<notin> set M" using none latest_listed [OF u] by auto
    ultimately show ?thesis using u by (auto simp: ran_def)
  qed
  have "card (set M) = min n (card ?V)"
  proof (cases "?V = set M")
    case True
    have "card (set M) \<le> n" using top by (simp add: top_entries_def)
    with True show ?thesis by simp
  next
    case False
    with M other have "set M \<noteq> ?U" by fastforce
    with top have "set M \<subset> ?U" by (auto simp: top_entries_def)
    with finite_latest have "card (set M) < card ?U" by (rule psubset_card_mono)
    with top have "card (set M) = n" by (simp add: top_entries_def)
    with card_mono [OF finite_latest M] show ?thesis by simp
  qed
  moreover have "order_key e < order_key r" if "r \<in> set M" "e \<in> ?V - set M" for e r
    using other [OF that(2)] top that(1) unfolding top_entries_def by metis
  ultimately have "top_entries n (set M) ?V" using M by (simp add: top_entries_def)
  then show ?thesis unfolding M_def [symmetric] by (rule merge_eqI [OF hist])
qed

text \<open>Replacing an entry, or adding it.\<close>

lemma replace_or_push_set:
  "distinct (map he_id es) \<Longrightarrow> set (replace_or_push e es) = insert e {e' \<in> set es. he_id e' \<noteq> he_id e}"
  by (induction es) (auto simp: image_iff)

lemma replace_or_push_ids:
  "he_id ` set (replace_or_push e es) = insert (he_id e) (he_id ` set es)"
  by (induction es) auto

lemma replace_or_push_distinct: "distinct (map he_id es) \<Longrightarrow> distinct (map he_id (replace_or_push e es))"
  by (induction es) (auto simp: replace_or_push_ids [simplified])

definition update_history :: "nat \<Rightarrow> history_entry \<Rightarrow> history_entry list \<Rightarrow> history_entry list" where
  "update_history n e es = retain n (replace_or_push e es)"

lemma update_history_history: "history es \<Longrightarrow> history (update_history n e es)"
  by (simp add: update_history_def retain_history replace_or_push_distinct history_def [of es])


section \<open>Operations that only read\<close>

text \<open>A disk whose I/O calls all succeed. A steady operation leaves the disk as it is but for the outcomes it
  uses up, and what it returns it also returns undisturbed.\<close>

definition calm :: "disk \<Rightarrow> disk" where
  "calm d = d\<lparr>dk_turns := []\<rparr>"

lemma calm_simps [simp]:
  "dk_files (calm d) = dk_files d" "dk_hidden (calm d) = dk_hidden d" "dk_turns (calm d) = []"
  "dk_owner (calm d) = dk_owner d" "calm (calm d) = calm d" "calm (d\<lparr>dk_turns := ts\<rparr>) = calm d"
  "path_exists (calm d) p = path_exists d p"
  by (simp_all add: calm_def path_exists_def)

lemma calm_eq: "calm d = calm d' \<longleftrightarrow> dk_files d = dk_files d' \<and> dk_hidden d = dk_hidden d' \<and> dk_owner d = dk_owner d'"
  by (cases d; cases d') (auto simp: calm_def)

definition steady :: "'a disk_op \<Rightarrow> bool" where
  "steady m \<longleftrightarrow> (\<forall>d r d'. m d = (r, d') \<longrightarrow> calm d' = calm d \<and> (\<forall>v. r = Ok v \<longrightarrow> m (calm d) = (Ok v, calm d)))"

lemma steadyD:
  assumes "steady m" and "m d = (r, d')"
  shows "calm d' = calm d" and "r = Ok v \<Longrightarrow> m (calm d) = (Ok v, calm d)"
  using assms by (auto simp: steady_def)

lemma steady_return [simp]: "steady (return_ok v)" "steady (yield r)"
  by (simp_all add: steady_def return_ok_def yield_def)

lemma steady_io [simp]: "steady (io e)"
  by (auto simp: steady_def io_def change_files_def split: list.splits io_turn.splits)

lemma steady_then:
  assumes "steady m" and "\<And>v. steady (k v)" shows "steady (then_do m k)"
  unfolding steady_def
proof (intro allI impI)
  fix d r d' assume run: "then_do m k d = (r, d')"
  obtain q d1 where m: "m d = (q, d1)" by (cases "m d")
  note 1 = steadyD [OF assms(1) m]
  show "calm d' = calm d \<and> (\<forall>v. r = Ok v \<longrightarrow> then_do m k (calm d) = (Ok v, calm d))"
  proof (cases q)
    case (Ok v)
    with run m have "k v d1 = (r, d')" by (simp add: then_do_def)
    from steadyD [OF assms(2) this] 1 Ok show ?thesis by (auto simp: then_do_def)
  qed (use run m 1 in \<open>auto simp: then_do_def\<close>)
qed

lemma steady_load_lines: "steady (load_lines x path rest entries)"
proof (induction "length rest" arbitrary: rest entries rule: less_induct)
  case less
  have "load_lines x path rest entries =
      then_do (io ST_Io) (\<lambda>_. if rest = [] then return_ok entries
        else then_do (yield (parse_line x path (next_line rest))) (\<lambda>entry.
          if length entries \<ge> MAX_HISTORY_MESSAGES
          then yield (Err (ST_Validation ''history.file''
            ''history file contains more entries than the global input bound''))
          else load_lines x path (drop (length (next_line rest)) rest) (entries @ [entry])))"
    by (rule ext, subst load_lines.simps)
      (auto simp: then_do_def return_ok_def yield_def split: prod.split result.split)
  moreover have "rest \<noteq> [] \<Longrightarrow> steady (load_lines x path (drop (length (next_line rest)) rest) es)" for es
    using less next_line_shrinks by blast
  ultimately show ?case by (auto intro!: steady_then)
qed

lemma steady_locks [simp]: "steady (acquire_target_locks ps)"
proof -
  have "steady (acquire_all ps)" for ps
    by (induction ps) (auto simp: acquire_lock_path_def intro!: steady_then)
  then show ?thesis by (simp add: acquire_target_locks_def)
qed


lemma steady_load_path [simp]: "steady (load_path x path)"
proof -
  define m where "m d =
      (if \<not> path_exists d path then return_ok []
       else then_do (io ST_Io) (\<lambda>_.
           then_do (yield (if length (the (dk_files d path)) > MAX_HISTORY_MESSAGES * (MAX_HISTORY_ENTRY_BYTES + 2)
             then Err (ST_Validation ''history.file'' ''history file exceeds the global input bound'') else Ok ())) (\<lambda>_.
           then_do (io ST_Io) (\<lambda>_. load_lines x path (the (dk_files d path)) []))))" for d
  have "load_path x path d = m d d" "steady (m d)" "m (calm d) = m d" for d
    by (simp_all add: m_def load_path_def return_ok_def Let_def steady_then steady_load_lines)
  then show ?thesis unfolding steady_def by metis
qed

text \<open>What an undisturbed load of a file finds.\<close>

definition file_entries :: "mqtt_externs \<Rightarrow> disk \<Rightarrow> rstr \<Rightarrow> (store_error, history_entry list) result" where
  "file_entries x d path = fst (load_path x path (calm d))"

lemma file_entries_calm: "calm d = calm d' \<Longrightarrow> file_entries x d path = file_entries x d' path"
  by (simp add: file_entries_def)

text \<open>A steady step of an operation ends it or is as good as not there.\<close>

lemma then_steady:
  assumes "then_do m k d = (r, d')" and "steady m"
  obtains (stopped) "calm d' = calm d" "\<And>v. r \<noteq> Ok v"
  | (went_on) v d1 where "m d = (Ok v, d1)" "m (calm d) = (Ok v, calm d)" "calm d1 = calm d" "k v d1 = (r, d')"
proof -
  obtain q d1 where m: "m d = (q, d1)" by (cases "m d")
  show ?thesis
  proof (cases q)
    case (Ok v)
    with assms(1) m have "k v d1 = (r, d')" by (simp add: then_do_def)
    with went_on m Ok steadyD [OF assms(2) m] show ?thesis by blast
  qed (use assms(1) m stopped steadyD(1) [OF assms(2) m] in \<open>auto simp: then_do_def\<close>)
qed

section \<open>Writing and reading back\<close>

fun encoded :: "mqtt_externs \<Rightarrow> history_entry list \<Rightarrow> byte list option" where
  "encoded x [] = Some []"
| "encoded x (e # es) =
     Option.bind (to_vec x (entry_json x e)) (\<lambda>b.
       if length b > MAX_HISTORY_ENTRY_BYTES then None
       else Option.bind (encoded x es) (\<lambda>r. Some (b @ [0x0A] @ r)))"

lemma steady_write_entries: "steady (write_entries x es temp)"
  by (induction es arbitrary: temp) (auto intro!: steady_then)

lemma calm_io: "io e (calm d) = (Ok (), calm d)"
  by (cases d) (simp add: io_def change_files_def calm_def)

lemma write_entries_encoded:
  "write_entries x es temp (calm d) = (Ok out, d') \<Longrightarrow> \<exists>bs. encoded x es = Some bs \<and> out = temp @ bs"
proof (induction es arbitrary: temp)
  case (Cons e es)
  then show ?case
    by (cases "to_vec x (entry_json x e)")
      (fastforce simp: then_do_def yield_def calm_io split: if_splits)+
qed (simp add: return_ok_def)

text \<open>An operation that writes does nothing and does not return, or its effect on an undisturbed disk is \<open>F\<close>.\<close>

definition writes :: "'a disk_op \<Rightarrow> (disk \<Rightarrow> disk \<Rightarrow> bool) \<Rightarrow> bool" where
  "writes m F \<longleftrightarrow>
     (\<forall>d r d'. m d = (r, d') \<longrightarrow> calm d' = calm d \<and> (\<forall>v. r \<noteq> Ok v) \<or> F (calm d) (calm d'))"

lemma writesD:
  assumes "writes m F" and "m d = (r, d')"
  obtains (kept) "calm d' = calm d" "\<And>v. r \<noteq> Ok v" | (written) "F (calm d) (calm d')"
  using assms by (auto simp: writes_def)

lemma writes_then:
  assumes "steady m" and "\<And>v d. m (calm d) = (Ok v, calm d) \<Longrightarrow> writes (k v) F"
  shows "writes (then_do m k) F"
  unfolding writes_def
proof (intro allI impI)
  fix d r d' assume "then_do m k d = (r, d')"
  from this assms(1) show "calm d' = calm d \<and> (\<forall>v. r \<noteq> Ok v) \<or> F (calm d) (calm d')"
  proof (cases rule: then_steady)
    case (went_on v d1)
    with assms(2) have "writes (k v) F" by blast
    from this went_on(4) show ?thesis using went_on(3) by (cases rule: writesD) simp_all
  qed simp
qed

definition with_file :: "rstr \<Rightarrow> byte list option \<Rightarrow> disk \<Rightarrow> disk" where
  "with_file p c d = d\<lparr>dk_files := (dk_files d)(p := c)\<rparr>"

lemma with_file_simps [simp]:
  "dk_files (with_file p c d) = (dk_files d)(p := c)" "dk_hidden (with_file p c d) = dk_hidden d"
  "dk_owner (with_file p c d) = dk_owner d" "calm (with_file p c d) = with_file p c (calm d)"
  by (simp_all add: with_file_def calm_def)

lemma change_file_writes:
  assumes "steady k"
  shows "writes (then_do (change_files e (\<lambda>fs. fs(p := c))) (\<lambda>_. k)) (\<lambda>d d'. d' = with_file p c d)"
  unfolding writes_def
proof (intro allI impI)
  fix d r d' assume run: "then_do (change_files e (\<lambda>fs. fs(p := c))) (\<lambda>_. k) d = (r, d')"
  obtain q d1 where q: "change_files e (\<lambda>fs. fs(p := c)) d = (q, d1)" by fastforce
  then have "calm d1 = calm d \<and> (\<forall>v. q \<noteq> Ok v) \<or> q = Ok () \<and> calm d1 = with_file p c (calm d)"
    by (auto simp: change_files_def with_file_def calm_def split: list.splits io_turn.splits)
  with run q assms steadyD(1) [of k d1 r d']
  show "calm d' = calm d \<and> (\<forall>v. r \<noteq> Ok v) \<or> calm d' = with_file p c (calm d)"
    by (cases q) (auto simp: then_do_def)
qed

lemma writes_io: "writes m F \<Longrightarrow> writes (then_do (io e) (\<lambda>_. m)) F"
  by (simp add: writes_then)

lemma persist_writes: "writes (persist x s es) (\<lambda>d d'. \<exists>bs. encoded x es = Some bs \<and> d' = with_file (hs_path s) (Some bs) d)"
  unfolding persist_def
proof (intro writes_io, rule writes_then [OF steady_write_entries], intro writes_io)
  fix temp d
  assume "write_entries x es [] (calm d) = (Ok temp, calm d)"
  then have "encoded x es = Some temp" using write_entries_encoded by fastforce
  moreover have "steady (then_do (io ST_Io) (\<lambda>_. io ST_Io))" by (simp add: steady_then)
  note change_file_writes [OF this, of "ST_AtomicRename (hs_path s)" "hs_path s" "Some temp"]
  ultimately show "writes (then_do (change_files (ST_AtomicRename (hs_path s)) (\<lambda>fs. fs(hs_path s \<mapsto> temp)))
      (\<lambda>_. then_do (io ST_Io) (\<lambda>_. io ST_Io)))
      (\<lambda>d d'. \<exists>bs. encoded x es = Some bs \<and> d' = with_file (hs_path s) (Some bs) d)"
    by (simp add: writes_def)
qed

lemma remove_writes: "writes (remove_file_if_exists p) (\<lambda>d d'. d' = with_file p None d)"
proof -
  have "then_do m (\<lambda>_. return_ok ()) = m" for m :: "unit disk_op"
    by (auto simp: fun_eq_iff then_do_def return_ok_def split: prod.split result.split)
  then show ?thesis
    using change_file_writes [of "return_ok ()" ST_Io p None] by (simp add: remove_file_if_exists_def)
qed

text \<open>What the JSON library is relied on for: a document it printed is text without line breaks and is read
  back, as is an identifier.\<close>

definition json_lines :: "mqtt_externs \<Rightarrow> bool" where
  "json_lines x \<longleftrightarrow>
     (\<forall>e b. to_vec x (entry_json x e) = Some b \<longrightarrow>
        from_slice x b = Some (entry_json x e) \<and> parse_uuid x (hyphenated x (he_id e)) = Some (he_id e) \<and>
        0x0A \<notin> set b \<and> 0x0D \<notin> set b \<and> utf8 b)"

definition valid_entries :: "history_entry list \<Rightarrow> bool" where
  "valid_entries es \<longleftrightarrow> list_all (\<lambda>e. validate_entry e = Ok ()) es"

lemma parse_encoded_line:
  assumes "json_lines x" and "to_vec x (entry_json x e) = Some b" and "validate_entry e = Ok ()"
    and "length b \<le> MAX_HISTORY_ENTRY_BYTES"
  shows "next_line (b @ 0x0A # rest) = b @ [0x0A]" and "parse_line x path (b @ [0x0A]) = Ok e"
proof -
  from assms have b: "from_slice x b = Some (entry_json x e)" "0x0A \<notin> set b" "0x0D \<notin> set b" "utf8 b"
    "read_entry x (entry_json x e) = Some e"
    by (auto simp: json_lines_def read_entry_json)
  then have "takeWhile (\<lambda>b. b \<noteq> 0x0A) (b @ 0x0A # rest) = b"
    by (subst takeWhile_append2) auto
  with assms(4) show "next_line (b @ 0x0A # rest) = b @ [0x0A]" by (simp add: next_line_def)
  have "utf8 (b @ [0x0A])" using b(4) by (intro utf8_append) simp_all
  moreover have "b \<noteq> [] \<Longrightarrow> List.last b \<noteq> 0x0D" using b(3) last_in_set by metis
  then have "strip_last 0x0D (strip_last 0x0A (b @ [0x0A])) = b"
    by (cases "b = []") (simp_all add: strip_last_def)
  ultimately show "parse_line x path (b @ [0x0A]) = Ok e"
    using b assms(3,4) by (simp add: parse_line_def Let_def)
qed


lemma load_encoded:
  assumes "json_lines x"
  shows "encoded x es = Some bs \<Longrightarrow> valid_entries es \<Longrightarrow> length acc + length es \<le> MAX_HISTORY_MESSAGES \<Longrightarrow>
    load_lines x path bs acc (calm d) = (Ok (acc @ es), calm d)"
proof (induction es arbitrary: bs acc)
  case Nil
  then show ?case by (simp add: load_lines.simps calm_io)
next
  case (Cons e es)
  then obtain b r where b: "to_vec x (entry_json x e) = Some b" "length b \<le> MAX_HISTORY_ENTRY_BYTES"
      "encoded x es = Some r" "bs = b @ 0x0A # r" "validate_entry e = Ok ()" "valid_entries es"
    by (auto simp: valid_entries_def bind_eq_Some_conv split: if_splits)
  note line = parse_encoded_line [OF assms b(1,5,2)]
  from Cons b show ?case by (subst load_lines.simps) (simp add: calm_io line)
qed

lemma encoded_length: "encoded x es = Some bs \<Longrightarrow> length bs \<le> length es * (MAX_HISTORY_ENTRY_BYTES + 1)"
proof (induction es arbitrary: bs)
  case (Cons e es)
  then show ?case by (fastforce simp: bind_eq_Some_conv split: if_splits)
qed simp

lemma load_persisted:
  assumes "json_lines x" and "encoded x es = Some bs" and "valid_entries es" and "length es \<le> MAX_HISTORY_MESSAGES"
    and "dk_files d p = Some bs" and "p \<notin> set (dk_hidden d)"
  shows "load_path x p (calm d) = (Ok es, calm d)"
proof -
  have "length es * (MAX_HISTORY_ENTRY_BYTES + 1) \<le> MAX_HISTORY_MESSAGES * (MAX_HISTORY_ENTRY_BYTES + 2)"
    using assms(4) by (intro mult_le_mono) simp_all
  with encoded_length [OF assms(2)] have "length bs \<le> MAX_HISTORY_MESSAGES * (MAX_HISTORY_ENTRY_BYTES + 2)" by linarith
  with assms load_encoded [OF assms(1-3), of "[]" p d] show ?thesis
    by (simp add: load_path_def path_exists_def then_do_def yield_def calm_io)
qed

lemma loaded_valid:
  assumes "load_lines x path rest acc d = (Ok es, d')" and "valid_entries acc"
  shows "valid_entries es"
  using assms
proof (induction "length rest" arbitrary: rest acc d rule: less_induct)
  case less
  show ?case
  proof (cases "rest = []")
    case True
    with less.prems show ?thesis by (subst (asm) load_lines.simps) (auto split: prod.splits result.splits)
  next
    case False
    with less.prems(1) obtain entry d1 where step: "parse_line x path (next_line rest) = Ok entry"
      "load_lines x path (drop (length (next_line rest)) rest) (acc @ [entry]) d1 = (Ok es, d')"
      by (subst (asm) load_lines.simps) (auto split: prod.splits result.splits if_splits)
    then have "validate_entry entry = Ok ()"
      by (auto simp: parse_line_def Let_def rbind_eq_Ok split: if_splits)
    with less.prems(2) have "valid_entries (acc @ [entry])" by (simp add: valid_entries_def)
    with less.hyps [OF next_line_shrinks [OF False] step(2)] show ?thesis by blast
  qed
qed

lemma file_entries_valid: "file_entries x d p = Ok es \<Longrightarrow> valid_entries es"
  using loaded_valid [of x p "the (dk_files d p)" "[]" "calm d" es]
  by (cases "load_lines x p (the (dk_files d p)) [] (calm d)")
    (auto simp: file_entries_def load_path_def then_do_def yield_def calm_io Let_def valid_entries_def
      split: if_splits)

section \<open>What is stored\<close>

text \<open>The history a disk holds for a store, and the conditions under which it is safe: the disk tells the
  truth about its two files, both can be read, and they agree on when their entries were recorded.\<close>

definition legacy_entries :: "mqtt_externs \<Rightarrow> history_store \<Rightarrow> disk \<Rightarrow> (store_error, history_entry list) result" where
  "legacy_entries x s d = (case hs_legacy_path s of None \<Rightarrow> Ok [] | Some p \<Rightarrow> file_entries x d p)"

definition stored :: "mqtt_externs \<Rightarrow> history_store \<Rightarrow> disk \<Rightarrow> (store_error, history_entry list) result" where
  "stored x s d =
     rbind (file_entries x d (hs_path s)) (\<lambda>c. rbind (legacy_entries x s d) (\<lambda>l.
       Ok (merge_entries (hs_max_messages s) l c)))"

definition store_ok :: "history_store \<Rightarrow> bool" where
  "store_ok s \<longleftrightarrow> hs_legacy_path s \<noteq> Some (hs_path s) \<and> hs_max_messages s \<le> MAX_HISTORY_MESSAGES"

definition visible :: "history_store \<Rightarrow> disk \<Rightarrow> bool" where
  "visible s d \<longleftrightarrow> set (lock_targets s) \<inter> set (dk_hidden d) = {}"

definition agreeing :: "mqtt_externs \<Rightarrow> history_store \<Rightarrow> disk \<Rightarrow> bool" where
  "agreeing x s d \<longleftrightarrow>
     (\<forall>c l. file_entries x d (hs_path s) = Ok c \<and> legacy_entries x s d = Ok l \<and> l \<noteq> [] \<longrightarrow> times_agree (l @ c))"

definition sound :: "mqtt_externs \<Rightarrow> history_store \<Rightarrow> disk \<Rightarrow> history_entry list \<Rightarrow> bool" where
  "sound x s d es \<longleftrightarrow> stored x s d = Ok es \<and> visible s d \<and> agreeing x s d"

lemma sound_calm: "sound x s (calm d) es = sound x s d es"
  by (simp add: sound_def stored_def visible_def agreeing_def legacy_entries_def file_entries_def cong: option.case_cong)

lemma sound_same: "calm d' = calm d \<Longrightarrow> sound x s d es \<Longrightarrow> sound x s d' es"
  by (metis sound_calm)

lemma stored_parts:
  assumes "stored x s d = Ok es"
  obtains c l where "file_entries x d (hs_path s) = Ok c" "legacy_entries x s d = Ok l"
    "es = merge_entries (hs_max_messages s) l c"
  using assms by (auto simp: stored_def rbind_eq_Ok)

lemma stored_history:
  assumes "stored x s d = Ok es"
  shows "history es" and "length es \<le> hs_max_messages s" and "valid_entries es"
proof -
  from assms obtain c l where parts: "file_entries x d (hs_path s) = Ok c" "legacy_entries x s d = Ok l"
    "es = merge_entries (hs_max_messages s) l c" by (rule stored_parts)
  then show "history es" "length es \<le> hs_max_messages s" by (simp_all add: merge_history merge_length)
  from parts(1,2) have "valid_entries c" "valid_entries l"
    by (auto simp: legacy_entries_def file_entries_valid valid_entries_def split: option.splits
        dest: file_entries_valid)
  with parts(3) show "valid_entries es" by (auto simp: valid_entries_def list_all_iff dest: merge_listed)
qed

lemma load_lines_pure: "fst (load_lines x path rest acc (calm d)) = fst (load_lines x path rest acc (calm d'))"
proof (induction "length rest" arbitrary: rest acc rule: less_induct)
  case less
  have "fst (load_lines x path (drop (length (next_line rest)) rest) es (calm d)) =
      fst (load_lines x path (drop (length (next_line rest)) rest) es (calm d'))" if "rest \<noteq> []" for es
    using less next_line_shrinks [OF that] by blast
  then show ?case
    by (subst (1 2) load_lines.simps) (simp add: calm_io split: result.split)
qed

lemma file_entries_cong:
  "dk_files d p = dk_files d' p \<Longrightarrow> dk_hidden d = dk_hidden d' \<Longrightarrow> file_entries x d p = file_entries x d' p"
  using load_lines_pure [of x p "the (dk_files d p)" "[]" d d']
  by (simp add: file_entries_def load_path_def path_exists_def then_do_def yield_def calm_io Let_def)

lemma file_entries_other: "p \<noteq> q \<Longrightarrow> file_entries x (with_file q c d) p = file_entries x d p"
  by (rule file_entries_cong) simp_all

lemma file_entries_removed: "file_entries x (with_file p None d) p = Ok []"
  by (simp add: file_entries_def load_path_def path_exists_def)

lemma file_entries_written:
  assumes "json_lines x" and "encoded x es = Some bs" and "valid_entries es" and "length es \<le> MAX_HISTORY_MESSAGES"
    and "p \<notin> set (dk_hidden d)"
  shows "file_entries x (with_file p (Some bs) d) p = Ok es"
  using load_persisted [OF assms(1-4), of "with_file p (Some bs) d" p] assms(5) by (simp add: file_entries_def)


lemma stored_alone:
  assumes "file_entries x d (hs_path s) = Ok es" and "legacy_entries x s d = Ok []" and "visible s d"
    and "history es" and "length es \<le> hs_max_messages s"
  shows "sound x s d es"
  using assms by (simp add: sound_def stored_def agreeing_def merge_nothing retain_all)

lemma sound_persisted:
  assumes "sound x s d es" and "store_ok s" and "json_lines x" and "encoded x es = Some bs"
  shows "file_entries x (with_file (hs_path s) (Some bs) d) (hs_path s) = Ok es"
    and "sound x s (with_file (hs_path s) (Some bs) d) es"
proof -
  let ?d = "with_file (hs_path s) (Some bs) d"
  from assms(1) have st: "stored x s d = Ok es" and vis: "visible s d" "visible s ?d"
    by (auto simp: sound_def visible_def)
  note es = stored_history [OF st]
  show canon: "file_entries x ?d (hs_path s) = Ok es"
    using assms es vis by (intro file_entries_written) (auto simp: store_ok_def visible_def lock_targets_def)
  from st obtain c l where parts: "file_entries x d (hs_path s) = Ok c" "legacy_entries x s d = Ok l"
    "es = merge_entries (hs_max_messages s) l c" by (rule stored_parts)
  have legacy: "legacy_entries x s ?d = Ok l"
    using parts(2) assms(2) by (auto simp: legacy_entries_def store_ok_def file_entries_other split: option.splits)
  show "sound x s ?d es"
  proof (cases "l = []")
    case True
    with canon legacy vis es show ?thesis by (simp add: stored_alone)
  next
    case False
    with assms(1) parts have times: "times_agree (l @ c)" by (auto simp: sound_def agreeing_def)
    then have "times_agree (l @ es)"
      unfolding times_agree_def parts(3) using merge_listed by (metis Un_iff set_append)
    moreover have "merge_entries (hs_max_messages s) l es = es" using merge_again [OF times] parts(3) by simp
    ultimately show ?thesis using canon legacy vis by (simp add: sound_def stored_def agreeing_def)
  qed
qed

lemma sound_without_legacy:
  assumes "sound x s d es" and "store_ok s" and "file_entries x d (hs_path s) = Ok es" and "hs_legacy_path s = Some p"
  shows "sound x s (with_file p None d) es"
proof (rule stored_alone)
  show "file_entries x (with_file p None d) (hs_path s) = Ok es"
    using assms file_entries_other [of "hs_path s" p] by (auto simp: store_ok_def)
  show "legacy_entries x s (with_file p None d) = Ok []"
    using assms(4) by (simp add: legacy_entries_def file_entries_removed)
qed (use assms(1) stored_history in \<open>auto simp: sound_def visible_def\<close>)


text \<open>What an operation on a store leaves alone.\<close>

definition outside :: "history_store \<Rightarrow> disk \<Rightarrow> disk \<Rightarrow> bool" where
  "outside s d d' \<longleftrightarrow> dk_hidden d' = dk_hidden d \<and> dk_owner d' = dk_owner d \<and>
     (\<forall>p. p \<notin> set (lock_targets s) \<longrightarrow> dk_files d' p = dk_files d p)"

lemma outside_calm: "calm d' = calm d \<Longrightarrow> outside s d d'"
  by (simp add: outside_def calm_eq)

lemma outside_file: "calm d' = with_file p c (calm d) \<Longrightarrow> p \<in> set (lock_targets s) \<Longrightarrow> outside s d d'"
  using calm_eq [of d' "with_file p c d"] by (auto simp: outside_def)

lemma outside_trans: "outside s d d1 \<Longrightarrow> outside s d1 d2 \<Longrightarrow> outside s d d2"
  by (simp add: outside_def)

lemma targets [simp]: "hs_path s \<in> set (lock_targets s)" "hs_legacy_path s = Some p \<Longrightarrow> p \<in> set (lock_targets s)"
  by (simp_all add: lock_targets_def)

lemma persist_sound:
  assumes "sound x s d es" and "store_ok s" and "json_lines x" and "persist x s es d = (r, d')"
  shows "sound x s d' es" and "outside s d d'" and "r = Ok v \<Longrightarrow> file_entries x d' (hs_path s) = Ok es"
proof -
  have "sound x s d' es \<and> outside s d d' \<and> (r = Ok v \<longrightarrow> file_entries x d' (hs_path s) = Ok es)"
    using persist_writes assms(4)
  proof (cases rule: writesD)
    case kept
    with assms(1) show ?thesis by (metis outside_calm sound_calm)
  next
    case written
    then obtain bs where bs: "encoded x es = Some bs" "calm d' = with_file (hs_path s) (Some bs) (calm d)" by blast
    note 1 = sound_persisted [OF assms(1-3) bs(1)]
    from bs(2) have same: "calm d' = calm (with_file (hs_path s) (Some bs) d)" by simp
    from 1 show ?thesis
      using file_entries_calm [OF same] sound_calm [of x s d'] sound_calm [of x s "with_file (hs_path s) (Some bs) d"] same
        outside_file [OF bs(2)] by simp
  qed
  then show "sound x s d' es" "outside s d d'" "r = Ok v \<Longrightarrow> file_entries x d' (hs_path s) = Ok es" by simp_all
qed

lemma remove_legacy_sound:
  assumes "sound x s d es" and "store_ok s" and "file_entries x d (hs_path s) = Ok es" and "hs_legacy_path s = Some p"
    and "remove_file_if_exists p d = (r, d')"
  shows "sound x s d' es" and "outside s d d'" and "r = Ok v \<Longrightarrow> legacy_entries x s d' = Ok []"
proof -
  have "sound x s d' es \<and> outside s d d' \<and> (r = Ok v \<longrightarrow> legacy_entries x s d' = Ok [])"
    using remove_writes assms(5)
  proof (cases rule: writesD)
    case kept
    with assms(1) show ?thesis by (metis outside_calm sound_calm)
  next
    case written
    then have same: "calm d' = calm (with_file p None d)" by simp
    from sound_without_legacy [OF assms(1-4)] show ?thesis
      using sound_calm [of x s d'] sound_calm [of x s "with_file p None d"] same outside_file [OF written] assms(4)
        file_entries_calm [OF same] file_entries_removed [of x p d]
      by (simp add: legacy_entries_def)
  qed
  then show "sound x s d' es" "outside s d d'" "r = Ok v \<Longrightarrow> legacy_entries x s d' = Ok []" by simp_all
qed

lemma then_cases:
  assumes "then_do m k d = (r, d')"
  obtains (stopped) q where "m d = (q, d')" "\<And>v. q \<noteq> Ok v" "\<And>v. r \<noteq> Ok v" | (went_on) v d1 where "m d = (Ok v, d1)" "k v d1 = (r, d')"
  using assms by (cases "m d"; cases "fst (m d)") (auto simp: then_do_def)


section \<open>Operations\<close>

lemma legacy_entries_other:
  "store_ok s \<Longrightarrow> legacy_entries x s (with_file (hs_path s) c d) = legacy_entries x s d"
  by (auto simp: legacy_entries_def store_ok_def file_entries_other split: option.split)

lemma legacy_entries_calm: "calm d = calm d' \<Longrightarrow> legacy_entries x s d = legacy_entries x s d'"
  unfolding legacy_entries_def by (cases "hs_legacy_path s") (simp_all add: file_entries_calm [of d d'])

lemma persist_legacy:
  assumes "store_ok s" and "persist x s es d = (r, d')"
  shows "legacy_entries x s d' = legacy_entries x s d"
  using persist_writes assms(2)
proof (cases rule: writesD)
  case written
  then obtain bs where "calm d' = calm (with_file (hs_path s) (Some bs) d)" by auto
  from legacy_entries_calm [OF this] assms(1) show ?thesis by (simp add: legacy_entries_other)
qed (rule legacy_entries_calm)

lemma load_alone_safe:
  assumes "sound x s d es" and "store_ok s" and "json_lines x" and "legacy_entries x s d = Ok []"
    and "then_do (if b then persist x s es else return_ok ()) (\<lambda>_. return_ok es) d = (r, d')"
  shows "sound x s d' es \<and> outside s d d' \<and> (\<forall>v. r = Ok v \<longrightarrow> v = es \<and> legacy_entries x s d' = Ok [])"
proof -
  obtain q where q: "(if b then persist x s es else return_ok ()) d = (q, d')" and r: "\<And>v. r = Ok v \<Longrightarrow> v = es"
    using assms(5) by (cases rule: then_cases) (auto simp: return_ok_def split: if_splits)
  have "sound x s d' es \<and> outside s d d'"
  proof (cases b)
    case True
    with q persist_sound(1,2) [OF assms(1-3)] show ?thesis by simp
  next
    case False
    with q assms(1) show ?thesis by (auto simp: return_ok_def outside_calm)
  qed
  moreover have "legacy_entries x s d' = legacy_entries x s d"
    using q persist_legacy [OF assms(2)] by (auto simp: return_ok_def split: if_splits)
  ultimately show ?thesis using r assms(4) by auto
qed

lemma load_merged_safe:
  assumes "sound x s d es" and "store_ok s" and "json_lines x" and "hs_legacy_path s = Some p"
    and "then_do (persist x s es) (\<lambda>_. then_do (remove_file_if_exists p) (\<lambda>_. return_ok es)) d = (r, d')"
  shows "sound x s d' es \<and> outside s d d' \<and> (\<forall>v. r = Ok v \<longrightarrow> v = es \<and> legacy_entries x s d' = Ok [])"
  using assms(5)
proof (cases rule: then_cases)
  case (stopped q)
  with persist_sound(1,2) [OF assms(1-3)] show ?thesis by simp
next
  case (went_on v d1)
  note 1 = persist_sound [OF assms(1-3) went_on(1)]
  from went_on(2) show ?thesis
  proof (cases rule: then_cases)
    case (stopped q)
    with remove_legacy_sound(1,2) [OF 1(1) assms(2) 1(3) assms(4) stopped(1)] 1(2) outside_trans show ?thesis by blast
  next
    case (went_on w d2)
    with remove_legacy_sound [OF 1(1) assms(2) 1(3) assms(4) went_on(1)] 1(2) outside_trans show ?thesis
      by (auto simp: return_ok_def)
  qed
qed

lemma load_unlocked_safe:
  assumes "sound x s d es" and "store_ok s" and "json_lines x" and "load_unlocked x s d = (r, d')"
  shows "sound x s d' es \<and> outside s d d' \<and> (\<forall>v. r = Ok v \<longrightarrow> v = es \<and> legacy_entries x s d' = Ok [])"
  using assms(4) [unfolded load_unlocked_def] steady_load_path
proof (cases rule: then_steady)
  case stopped
  with assms(1) show ?thesis by (metis outside_calm sound_calm)
next
  case (went_on canonical d1)
  have d1: "sound x s d1 es" "outside s d d1"
    using went_on(3) assms(1) by (metis sound_calm, intro outside_calm)
  have canon: "file_entries x d1 (hs_path s) = Ok canonical"
    using went_on(2,3) by (simp add: file_entries_def)
  from d1(1) obtain c l where parts: "file_entries x d1 (hs_path s) = Ok c" "legacy_entries x s d1 = Ok l"
    "es = merge_entries (hs_max_messages s) l c" by (auto simp: sound_def elim: stored_parts)
  show ?thesis
  proof (cases "case hs_legacy_path s of Some p \<Rightarrow> if path_exists d1 p then Some p else None | None \<Rightarrow> None")
    case None
    then have l: "l = []"
      using parts(2) by (auto simp: legacy_entries_def file_entries_def load_path_def split: option.splits if_splits)
    with canon parts have es: "es = merge_entries (hs_max_messages s) [] canonical" by simp
    have "then_do (if length es \<noteq> length canonical then persist x s es else return_ok ()) (\<lambda>_. return_ok es) d1 = (r, d')"
      using went_on(4) unfolding None es by (simp only: option.case Let_def)
    from load_alone_safe [OF d1(1) assms(2,3) _ this] parts(2) l d1(2) outside_trans show ?thesis by blast
  next
    case (Some p)
    then have p: "hs_legacy_path s = Some p" by (auto split: option.splits if_splits)
    from went_on(4) Some have "then_do (load_path x p) (\<lambda>legacy.
             let entries = merge_entries (hs_max_messages s) legacy canonical
             in then_do (persist x s entries) (\<lambda>_.
                then_do (remove_file_if_exists p) (\<lambda>_. return_ok entries))) d1 = (r, d')" by simp
    from this steady_load_path show ?thesis
    proof (cases rule: then_steady)
      case stopped
      with d1 show ?thesis by (metis outside_calm outside_trans sound_calm)
    next
      case (went_on legacy d2)
      then have "l = legacy" using parts(2) p by (simp add: legacy_entries_def file_entries_def)
      with went_on(4) canon parts
      have "then_do (persist x s es) (\<lambda>_. then_do (remove_file_if_exists p) (\<lambda>_. return_ok es)) d2 = (r, d')"
        by (simp add: Let_def)
      moreover have "sound x s d2 es" "outside s d d2"
        using went_on(3) d1 by (metis sound_calm, metis outside_calm outside_trans)
      ultimately show ?thesis using load_merged_safe [OF _ assms(2,3) p] outside_trans by blast
    qed
  qed
qed


lemma persist_new:
  assumes "visible s d" and "legacy_entries x s d = Ok []" and "store_ok s" and "json_lines x"
    and "valid_entries es" and "length es \<le> MAX_HISTORY_MESSAGES" and "persist x s es d = (r, d')"
  obtains (kept) "calm d' = calm d" "\<And>v. r \<noteq> Ok v"
  | (written) "file_entries x d' (hs_path s) = Ok es" "legacy_entries x s d' = Ok []" "visible s d'" "outside s d d'"
  using persist_writes assms(7)
proof (cases rule: writesD)
  case written
  then obtain bs where bs: "encoded x es = Some bs" "calm d' = with_file (hs_path s) (Some bs) (calm d)" by blast
  then have same: "calm d' = calm (with_file (hs_path s) (Some bs) d)" by simp
  show ?thesis
  proof (rule that(2))
    have "hs_path s \<notin> set (dk_hidden d)" using assms(1) by (auto simp: visible_def lock_targets_def)
    from file_entries_written [OF assms(4) bs(1) assms(5,6) this] show "file_entries x d' (hs_path s) = Ok es"
      using file_entries_calm [OF same] by simp
    show "legacy_entries x s d' = Ok []" using persist_legacy [OF assms(3,7)] assms(2) by simp
    show out: "outside s d d'" using bs(2) by (rule outside_file) simp
    from out assms(1) show "visible s d'" by (simp add: visible_def outside_def)
  qed
qed (rule that(1))

lemma validated_unit: "validate_entry e = Ok v \<longleftrightarrow> validate_entry e = Ok ()"
  by simp

lemma update_valid:
  "valid_entries es \<Longrightarrow> validate_entry e = Ok () \<Longrightarrow> valid_entries (update_history n e es)"
proof -
  have "set (replace_or_push e es) \<subseteq> insert e (set es)" by (induction es) auto
  then have "set (update_history n e es) \<subseteq> insert e (set es)"
    using set_drop_subset by (fastforce simp: update_history_def retain_def)
  then show "valid_entries es \<Longrightarrow> validate_entry e = Ok () \<Longrightarrow> valid_entries (update_history n e es)"
    by (auto simp: valid_entries_def list_all_iff)
qed

lemma update_length: "length (update_history n e es) \<le> n"
  by (simp add: update_history_def retain_length)

lemma upsert_safe:
  assumes "sound x s d es" and "store_ok s" and "json_lines x" and "upsert x s e d = (r, d')"
  shows "sound x s d' es \<and> r \<noteq> Ok () \<or> sound x s d' (update_history (hs_max_messages s) e es)"
  using assms(4) [unfolded upsert_def] steady_return(2)
proof (cases rule: then_steady)
  case stopped
  with sound_same [OF stopped(1) assms(1)] show ?thesis by simp
next
  case (went_on v d1)
  have valid: "validate_entry e = Ok ()" using went_on(2) by (simp add: yield_def)
  have d1: "sound x s d1 es" using went_on(3) assms(1) by (rule sound_same)
  from went_on(4) steady_locks show ?thesis
  proof (cases rule: then_steady)
    case stopped
    with sound_same [OF stopped(1) d1] show ?thesis by simp
  next
    case (went_on w d2)
    have d2: "sound x s d2 es" using went_on(3) d1 by (rule sound_same)
    from went_on(4) show ?thesis
    proof (cases rule: then_cases)
      case (stopped q)
      with load_unlocked_safe [OF d2 assms(2,3) stopped(1)] show ?thesis by simp
    next
      case (went_on entries d3)
      with load_unlocked_safe [OF d2 assms(2,3) went_on(1)]
      have d3: "sound x s d3 es" "entries = es" "legacy_entries x s d3 = Ok []" by simp_all
      from went_on(2) d3(2) have run: "persist x s (update_history (hs_max_messages s) e es) d3 = (r, d')"
        by (simp add: update_history_def)
      have vis: "visible s d3" and st: "stored x s d3 = Ok es" using d3(1) by (simp_all add: sound_def)
      have "length (update_history (hs_max_messages s) e es) \<le> MAX_HISTORY_MESSAGES"
        using update_length [of "hs_max_messages s" e es] assms(2) by (simp add: store_ok_def)
      from vis d3(3) assms(2,3) update_valid [OF stored_history(3) [OF st] valid] this run show ?thesis
      proof (cases rule: persist_new)
        case kept
        with sound_same [OF kept(1) d3(1)] show ?thesis by simp
      next
        case written
        with stored_history(1) [OF st] show ?thesis
          by (simp add: stored_alone update_history_history update_length)
      qed
    qed
  qed
qed


lemma load_safe:
  assumes "sound x s d es" and "store_ok s" and "json_lines x" and "load x s d = (r, d')"
  shows "sound x s d' es" and "r = Ok v \<Longrightarrow> v = es"
proof -
  have "sound x s d' es \<and> (r = Ok v \<longrightarrow> v = es)"
    using assms(4) [unfolded load_def] steady_locks
  proof (cases rule: then_steady)
    case stopped
    with sound_same [OF stopped(1) assms(1)] show ?thesis by simp
  next
    case (went_on w d1)
    with load_unlocked_safe [OF sound_same [OF went_on(3) assms(1)] assms(2,3) went_on(4)] show ?thesis by simp
  qed
  then show "sound x s d' es" "r = Ok v \<Longrightarrow> v = es" by simp_all
qed

text \<open>A series of upserts, by one process or several that take turns, and their results.\<close>

fun upserts :: "mqtt_externs \<Rightarrow> history_store \<Rightarrow> history_entry list \<Rightarrow> disk \<Rightarrow> (store_error, unit) result list \<times> disk" where
  "upserts x s [] d = ([], d)"
| "upserts x s (e # es) d =
     (case upsert x s e d of (r, d) \<Rightarrow> (case upserts x s es d of (rs, d) \<Rightarrow> (r # rs, d)))"

text \<open>The entries that took effect, given for each whether it did.\<close>

definition effective :: "bool list \<Rightarrow> history_entry list \<Rightarrow> history_entry list" where
  "effective took es = map snd (filter fst (zip took es))"

lemma effective_Cons [simp]:
  "effective (b # took) (e # es) = (if b then e # effective took es else effective took es)"
  by (simp add: effective_def)

lemma upserts_safe:
  assumes "store_ok s" and "json_lines x"
  shows "sound x s d es \<Longrightarrow> upserts x s new d = (rs, d') \<Longrightarrow>
    \<exists>took. length took = length new \<and> (\<forall>i < length new. rs ! i = Ok () \<longrightarrow> took ! i) \<and>
      sound x s d' (fold (update_history (hs_max_messages s)) (effective took new) es)"
proof (induction new arbitrary: d es rs)
  case (Cons e new)
  obtain r d1 rs' where run: "upsert x s e d = (r, d1)" "upserts x s new d1 = (rs', d')" "rs = r # rs'"
    using Cons.prems(2) by (auto split: prod.splits)
  have "\<exists>b. (r = Ok () \<longrightarrow> b) \<and> sound x s d1 (if b then update_history (hs_max_messages s) e es else es)"
    using upsert_safe [OF Cons.prems(1) assms run(1)] by (metis (full_types))
  then obtain b where b: "r = Ok () \<longrightarrow> b" "sound x s d1 (if b then update_history (hs_max_messages s) e es else es)"
    by blast
  from Cons.IH [OF b(2) run(2)] obtain took where took: "length took = length new"
    "\<forall>i < length new. rs' ! i = Ok () \<longrightarrow> took ! i"
    "sound x s d' (fold (update_history (hs_max_messages s)) (effective took new)
      (if b then update_history (hs_max_messages s) e es else es))" by blast
  have "length (b # took) = length (e # new)"
    "\<forall>i < length (e # new). rs ! i = Ok () \<longrightarrow> (b # took) ! i"
    "sound x s d' (fold (update_history (hs_max_messages s)) (effective (b # took) (e # new)) es)"
    using took b(1) by (auto simp: run(3) nth_Cons split: nat.split if_splits)
  then show ?case by blast
qed (simp add: effective_def)

lemma with_legacy_ok: "with_legacy p q n = Ok s \<Longrightarrow> store_ok s"
proof -
  assume "with_legacy p q n = Ok s"
  then have "n \<le> 100000" "hs_max_messages s = unat n" "hs_legacy_path s \<noteq> Some (hs_path s)"
    by (auto simp: with_legacy_def with_optional_legacy_def split: if_splits)
  moreover from this(1) have "unat n \<le> 100000" by (simp add: word_le_nat_alt)
  ultimately show "store_ok s" by (simp add: store_ok_def MAX_HISTORY_MESSAGES_def)
qed

section \<open>Undisturbed operations\<close>

lemma calm_id: "dk_turns d = [] \<Longrightarrow> calm d = d"
  by (simp add: calm_def)

lemma calm_change: "change_files e (\<lambda>fs. fs(p := c)) (calm d) = (Ok (), calm (with_file p c d))"
  by (cases d) (simp add: change_files_def with_file_def calm_def)

lemma calm_locks: "acquire_target_locks ps (calm d) = (Ok (), calm d)"
proof -
  have "acquire_all ps (calm d) = (Ok (), calm d)" for ps
    by (induction ps) (simp_all add: return_ok_def acquire_lock_path_def then_do_def calm_io)
  then show ?thesis by (simp add: acquire_target_locks_def)
qed

lemma calm_write_entries: "encoded x es = Some bs \<Longrightarrow> write_entries x es temp (calm d) = (Ok (temp @ bs), calm d)"
  by (induction es arbitrary: temp bs)
    (auto simp: return_ok_def then_do_def yield_def calm_io bind_eq_Some_conv split: if_splits)

lemma calm_persist:
  "encoded x es = Some bs \<Longrightarrow> persist x s es (calm d) = (Ok (), calm (with_file (hs_path s) (Some bs) d))"
  using calm_io [of ST_Io "with_file (hs_path s) (Some bs) d"]
    calm_change [of "ST_AtomicRename (hs_path s)" "hs_path s" "Some bs" d]
  by (simp add: persist_def then_do_def calm_io calm_write_entries)

lemma calm_load_path: "file_entries x d p = Ok es \<Longrightarrow> load_path x p (calm d) = (Ok es, calm d)"
  using steadyD [OF steady_load_path, of x p "calm d"] by (cases "load_path x p (calm d)") (auto simp: file_entries_def)

lemma calm_load_unlocked:
  assumes "stored x s d = Ok es" and "encoded x es \<noteq> None"
  shows "\<exists>d'. load_unlocked x s (calm d) = (Ok es, calm d')"
proof -
  from assms(1) obtain c l where parts: "file_entries x d (hs_path s) = Ok c" "legacy_entries x s d = Ok l"
    "es = merge_entries (hs_max_messages s) l c" by (rule stored_parts)
  from assms(2) obtain bs where bs: "encoded x es = Some bs" by blast
  show ?thesis
  proof (cases "case hs_legacy_path s of Some p \<Rightarrow> if path_exists d p then Some p else None | None \<Rightarrow> None")
    case None
    then have "l = []"
      using parts(2) by (auto simp: legacy_entries_def file_entries_def load_path_def split: option.splits if_splits)
    with parts None bs show ?thesis
      by (auto simp: load_unlocked_def calm_load_path calm_persist Let_def
          return_ok_def then_do_def simp del: with_file_simps(4) cong: option.case_cong
          split: option.splits if_splits)
  next
    case (Some p)
    then have "hs_legacy_path s = Some p" "path_exists d p" by (auto split: option.splits if_splits)
    with parts bs show ?thesis
      by (auto simp: load_unlocked_def calm_load_path calm_persist Let_def
          legacy_entries_def remove_file_if_exists_def calm_change return_ok_def then_do_def
          simp del: with_file_simps(4))
  qed
qed

lemma calm_upsert:
  assumes "stored x s d = Ok es" and "validate_entry e = Ok ()" and "encoded x es \<noteq> None"
    and "encoded x (update_history (hs_max_messages s) e es) \<noteq> None"
  shows "\<exists>d'. upsert x s e (calm d) = (Ok (), d')"
proof -
  obtain d' where "load_unlocked x s (calm d) = (Ok es, calm d')" using calm_load_unlocked [OF assms(1,3)] by blast
  with assms(2,4) show ?thesis
    by (auto simp: upsert_def calm_locks yield_def then_do_def update_history_def
        calm_persist)
qed

text \<open>C3: The message history survives failures. Take a store whose files can be read and agree on when their
  entries were recorded, and let any I/O call of the operations fail or kill the process, between renames as
  well as between writing the merged file and removing the legacy one. A load returns exactly the stored
  history, or fails, and leaves it as it was. After a series of upserts the stored history is the one that
  results from carrying out, in order, some of them, among them every upsert that reported success; the
  others had no effect at all. When nothing fails and the entries fit their lines, an upsert of a valid entry
  does report success. The JSON library is relied on to print an entry as a line and read it back.\<close>

theorem history_survives:
  assumes "with_legacy canonical legacy n = Ok s" and "json_lines x"
    and "stored x s d = Ok es" and "agreeing x s d" and "dk_hidden d = []"
  shows "(load x s d = (r, d1) \<longrightarrow> stored x s d1 = Ok es \<and> (\<forall>v. r = Ok v \<longrightarrow> v = es)) \<and>
    (upserts x s new d = (rs, d2) \<longrightarrow>
      (\<exists>took. length took = length new \<and> (\<forall>i < length new. rs ! i = Ok () \<longrightarrow> took ! i) \<and>
        stored x s d2 = Ok (fold (update_history (hs_max_messages s)) (effective took new) es))) \<and>
    (dk_turns d = [] \<and> validate_entry e = Ok () \<and> encoded x es \<noteq> None \<and>
      encoded x (update_history (hs_max_messages s) e es) \<noteq> None \<longrightarrow> fst (upsert x s e d) = Ok ())"
proof -
  have ok: "store_ok s" using assms(1) by (rule with_legacy_ok)
  have "sound x s d es" using assms(3-5) by (simp add: sound_def visible_def)
  note safe = load_safe [OF this ok assms(2)] upserts_safe [OF ok assms(2) this]
  have "fst (upsert x s e d) = Ok ()" if "dk_turns d = []" "validate_entry e = Ok ()" "encoded x es \<noteq> None"
    "encoded x (update_history (hs_max_messages s) e es) \<noteq> None"
    using calm_upsert [OF assms(3) that(2-4)] calm_id [OF that(1)] by auto
  with safe show ?thesis unfolding sound_def by blast
qed

text \<open>C27: What a history retains. Merging the legacy file into the canonical one gives a list in the order of
  the record times with one entry for each identifier, the canonical one where both files have it, and of
  all these the newest, as many as the store retains; an upsert gives the same for the history with the
  entry in place of the one of its identifier.\<close>

theorem history_retains_newest:
  "history (merge_entries n lo hi) \<and> top_entries n (set (merge_entries n lo hi)) (ran (latest lo ++ latest hi)) \<and>
   (history es \<longrightarrow> history (update_history n e es) \<and>
     top_entries n (set (update_history n e es)) (insert e {e' \<in> set es. he_id e' \<noteq> he_id e}))"
proof -
  have "top_entries n (set (update_history n e es)) (insert e {e' \<in> set es. he_id e' \<noteq> he_id e})" if "history es"
    using that retain_top [OF replace_or_push_distinct, of es n e] replace_or_push_set [of es e]
    by (simp add: update_history_def history_def)
  then show ?thesis
    using merge_history merge_top [of n lo hi] update_history_history by (simp add: latest_append)
qed


section \<open>Moving a history\<close>

definition apart :: "history_store \<Rightarrow> history_store \<Rightarrow> bool" where
  "apart s t \<longleftrightarrow> set (lock_targets s) \<inter> set (lock_targets t) = {}"

lemma outside_entries:
  assumes "outside t d d'" and "apart s t"
  shows "file_entries x d' (hs_path s) = file_entries x d (hs_path s)" "legacy_entries x s d' = legacy_entries x s d"
proof -
  have same: "dk_files d' p = dk_files d p" if "p \<in> set (lock_targets s)" for p
    using that assms by (auto simp: outside_def apart_def)
  show "file_entries x d' (hs_path s) = file_entries x d (hs_path s)"
    using assms(1) same by (intro file_entries_cong) (simp_all add: outside_def)
  show "legacy_entries x s d' = legacy_entries x s d"
    using assms(1) same file_entries_cong [of d' _ d x]
    by (auto simp: legacy_entries_def outside_def split: option.split)
qed

lemma sound_outside: "outside t d d' \<Longrightarrow> apart s t \<Longrightarrow> sound x s d es \<Longrightarrow> sound x s d' es"
  using outside_entries [of t d d' s x] by (simp add: sound_def stored_def agreeing_def visible_def outside_def)

lemma stored_outside: "outside t d d' \<Longrightarrow> apart s t \<Longrightarrow> stored x s d' = stored x s d"
  using outside_entries [of t d d' s x] by (simp add: stored_def)

lemma apart_sym: "apart s t \<Longrightarrow> apart t s"
  by (auto simp: apart_def)

definition erased :: "history_store \<Rightarrow> disk \<Rightarrow> bool" where
  "erased s d \<longleftrightarrow> (\<forall>p \<in> set (lock_targets s). dk_files d p = None)"

lemma remove_result: "remove_file_if_exists p d = (r, d') \<Longrightarrow>
    (dk_files d' = dk_files d \<and> r \<noteq> Ok () \<or> dk_files d' = (dk_files d)(p := None)) \<and>
    dk_hidden d' = dk_hidden d \<and> dk_owner d' = dk_owner d"
  by (auto simp: remove_file_if_exists_def change_files_def split: list.splits io_turn.splits)

lemma clear_unlocked_result:
  assumes "clear_unlocked s d = (r, d')"
  shows "outside s d d'" and "r = Ok () \<Longrightarrow> erased s d'"
proof -
  obtain q d1 where q: "remove_file_if_exists (hs_path s) d = (q, d1)" by fastforce
  note 1 = remove_result [OF q]
  have "outside s d d' \<and> (r = Ok () \<longrightarrow> erased s d')"
  proof (cases "hs_legacy_path s")
    case None
    with assms q 1 show ?thesis
      by (cases q) (auto simp: clear_unlocked_def outside_def erased_def lock_targets_def)
  next
    case (Some p)
    obtain q2 d2 where q2: "remove_file_if_exists p d1 = (q2, d2)" by fastforce
    note 2 = remove_result [OF q2]
    from assms q q2 Some 1 2 show ?thesis
      by (cases q; cases q2) (auto simp: clear_unlocked_def outside_def erased_def lock_targets_def)
  qed
  then show "outside s d d'" "r = Ok () \<Longrightarrow> erased s d'" by simp_all
qed

lemma absent_entries:
  assumes "\<not> any_path_exists d t"
  shows "file_entries x d (hs_path t) = Ok []" "legacy_entries x t d = Ok []"
  using assms by (auto simp: any_path_exists_def legacy_entries_def file_entries_def load_path_def split: option.splits)

lemma any_path_exists_calm [simp]: "any_path_exists (calm d) t = any_path_exists d t"
  by (simp add: any_path_exists_def cong: option.case_cong)

lemma steady_refuse [simp]: "steady (refuse_destination t)"
  by (simp add: steady_def refuse_destination_def)

definition moved :: "mqtt_externs \<Rightarrow> history_store \<Rightarrow> history_store \<Rightarrow> history_entry list \<Rightarrow> bool \<Rightarrow>
    (store_error, bool) result \<Rightarrow> disk \<Rightarrow> bool" where
  "moved x s t es present r d' \<longleftrightarrow>
     (if dk_owner d' then stored x t d' = Ok (retain (hs_max_messages t) es) else stored x s d' = Ok es) \<and>
     (\<forall>b. r = Ok b \<longrightarrow> dk_owner d' \<and> erased s d' \<and> b = present)"

lemma finish_move_failed:
  assumes "finish_move s t (Err e) present d = (r, d')"
  shows "outside t (d\<lparr>dk_owner := False\<rparr>) d' \<and> (\<forall>b. r \<noteq> Ok b)"
proof (cases present)
  case True
  obtain q d1 where q: "clear_unlocked t (d\<lparr>dk_owner := False\<rparr>) = (q, d1)" by fastforce
  with assms True have "d' = d1 \<and> (\<forall>b. r \<noteq> Ok b)"
    by (cases q) (auto simp: finish_move_def run_update_owner_def)
  with clear_unlocked_result(1) [OF q] show ?thesis by simp
qed (use assms in \<open>auto simp: finish_move_def run_update_owner_def outside_def\<close>)

lemma finish_move_safe:
  assumes "finish_move s t update_owner present d = (r, d')" and "apart s t" and "sound x s d es"
    and "stored x t d = Ok (retain (hs_max_messages t) es)"
  shows "moved x s t es present r d'"
proof -
  let ?d = "d\<lparr>dk_owner := (update_owner = Ok ())\<rparr>"
  have entries: "file_entries x ?d p = file_entries x d p" for p by (rule file_entries_cong) simp_all
  then have "stored x s ?d = stored x s d" "stored x t ?d = stored x t d" for s
    by (simp_all add: stored_def legacy_entries_def cong: option.case_cong)
  with assms(3,4) have st: "stored x s ?d = Ok es" "stored x t ?d = Ok (retain (hs_max_messages t) es)"
    by (simp_all add: sound_def)
  show ?thesis
  proof (cases update_owner)
    case (Ok u)
    obtain q d1 where q: "clear_unlocked s ?d = (q, d1)" by fastforce
    note 1 = clear_unlocked_result [OF q]
    have "d' = d1" "r = Ok b \<Longrightarrow> q = Ok () \<and> b = present" for b
      using assms(1) Ok q by (auto simp: finish_move_def run_update_owner_def then_do_def return_ok_def split: result.splits)
    moreover have "dk_owner d1" using 1(1) Ok by (simp add: outside_def)
    moreover have "stored x t d1 = Ok (retain (hs_max_messages t) es)"
      using stored_outside [OF 1(1) apart_sym [OF assms(2)]] st(2) by simp
    ultimately show ?thesis using 1(2) by (auto simp: moved_def)
  next
    case (Err e)
    from finish_move_failed [OF assms(1) [unfolded Err]] Err
    have "outside t ?d d'" "\<And>b. r \<noteq> Ok b" "\<not> dk_owner d'" by (auto simp: outside_def)
    then show ?thesis using stored_outside [OF _ assms(2)] st(1) by (simp add: moved_def)
  next
    case Panic
    with assms(1) st(1) show ?thesis by (auto simp: finish_move_def run_update_owner_def moved_def)
  qed
qed


lemma persist_destination:
  assumes "visible t d" and "\<not> any_path_exists d t" and "store_ok t" and "json_lines x" and "stored x s d = Ok es"
    and "store_ok s" and "apart s t" and "sound x s d es" and "\<not> present \<longrightarrow> es = []"
    and "(if present then persist x t es else return_ok ()) d = (r, d')"
  shows "sound x s d' es" and "dk_owner d' = dk_owner d"
    and "r = Ok () \<Longrightarrow> stored x t d' = Ok (retain (hs_max_messages t) es)"
proof -
  have "sound x s d' es \<and> dk_owner d' = dk_owner d \<and> (r = Ok () \<longrightarrow> stored x t d' = Ok (retain (hs_max_messages t) es))"
  proof (cases present)
    case False
    with assms(9,10) have es: "es = []" "d' = d" by (simp_all add: return_ok_def)
    have "stored x t d = Ok (merge_entries (hs_max_messages t) [] [])"
      using absent_entries [OF assms(2)] by (simp add: stored_def)
    with es assms(8) show ?thesis by (simp add: merge_nothing history_def)
  next
    case True
    with assms(10) have run: "persist x t es d = (r, d')" by simp
    note es = stored_history [OF assms(5)]
    have "length es \<le> MAX_HISTORY_MESSAGES" using es(2) assms(6) by (simp add: store_ok_def)
    from assms(1) absent_entries(2) [OF assms(2)] assms(3,4) es(3) this run show ?thesis
    proof (cases rule: persist_new)
      case kept
      with sound_same [OF kept(1) assms(8)] show ?thesis by (simp add: calm_eq)
    next
      case written
      with sound_outside [OF written(4) assms(7,8)] es(1) show ?thesis
        by (simp add: stored_def merge_nothing outside_def)
    qed
  qed
  then show "sound x s d' es" "dk_owner d' = dk_owner d"
    "r = Ok () \<Longrightarrow> stored x t d' = Ok (retain (hs_max_messages t) es)" by simp_all
qed

lemma move_safe:
  assumes "move_to_with x s t update_owner d = (r, d')" and "store_ok s" and "store_ok t" and "json_lines x"
    and "apart s t" and "sound x s d es" and "visible t d" and "\<not> dk_owner d"
  shows "moved x s t es (any_path_exists d s) r d'"
proof -
  have unmoved: "moved x s t es p q d1" if "sound x s d1 es" "\<not> dk_owner d1" "\<And>b. q \<noteq> Ok b" for p q d1
    using that by (simp add: moved_def sound_def)
  from assms(1) [unfolded move_to_with_def] steady_locks show ?thesis
  proof (cases rule: then_steady)
    case stopped
    with sound_same [OF stopped(1) assms(6)] assms(8) show ?thesis by (intro unmoved) (auto simp: calm_eq)
  next
    case (went_on u d1)
    have "any_path_exists d1 s = any_path_exists d s" by (metis any_path_exists_calm went_on(3))
    then have d1: "sound x s d1 es" "\<not> dk_owner d1" "visible t d1" "any_path_exists d1 s = any_path_exists d s"
      using sound_same [OF went_on(3) assms(6)] went_on(3) assms(7,8) by (auto simp: calm_eq visible_def)
    from went_on(4) steady_refuse show ?thesis
    proof (cases rule: then_steady)
      case stopped
      with sound_same [OF stopped(1) d1(1)] d1(2) show ?thesis by (intro unmoved) (auto simp: calm_eq)
    next
      case (went_on w d2)
      then have absent: "\<not> any_path_exists d2 t" and d2: "d2 = d1"
        by (auto simp: refuse_destination_def split: if_splits)
      let ?p = "any_path_exists d1 s"
      from went_on(4) d2 have "then_do (load_unlocked x s) (\<lambda>entries.
          then_do (if ?p then persist x t entries else return_ok ()) (\<lambda>_. finish_move s t update_owner ?p)) d1 = (r, d')"
        by (simp add: Let_def)
      then show ?thesis
      proof (cases rule: then_cases)
        case (stopped q)
        with load_unlocked_safe [OF d1(1) assms(2,4) stopped(1)] d1(2) show ?thesis
          by (intro unmoved) (auto simp: outside_def)
      next
        case (went_on entries d3)
        with load_unlocked_safe [OF d1(1) assms(2,4) went_on(1)]
        have d3: "sound x s d3 es" "outside s d1 d3" "entries = es" by simp_all
        have "visible t d3" "\<not> any_path_exists d3 t" "stored x s d3 = Ok es" "\<not> dk_owner d3"
          using d3 d1 absent d2 assms(5) by (auto simp: visible_def outside_def sound_def any_path_exists_def path_exists_def apart_def lock_targets_def split: option.splits)
        note dest = persist_destination [OF this(1,2) assms(3,4) this(3) assms(2,5) d3(1), of ?p]
        have none: "\<not> ?p \<longrightarrow> es = []"
          using d1(1) absent_entries [of d1 s x] by (auto simp: sound_def stored_def merge_nothing history_def retain_def)
        from went_on(2) show ?thesis unfolding d3(3)
        proof (cases rule: then_cases)
          case (stopped q)
          have "(if ?p then persist x t es else return_ok ()) d3 = (q, d')" using stopped(1) by simp
          with dest(1,2) [OF none this] \<open>\<not> dk_owner d3\<close> stopped(3) show ?thesis by (intro unmoved) simp_all
        next
          case (went_on u d4)
          from went_on(1) have "(if ?p then persist x t es else return_ok ()) d3 = (Ok (), d4)" by simp
          note 4 = dest(1) [OF none this] dest(3) [OF none this refl]
          from finish_move_safe [OF went_on(2) assms(5) 4] d1(4) show ?thesis by simp
        qed
      qed
    qed
  qed
qed


lemma copy_safe:
  assumes "copy_to x s t d = (r, d')" and "store_ok s" and "store_ok t" and "json_lines x"
    and "apart s t" and "sound x s d es" and "visible t d"
  shows "sound x s d' es \<and> (r = Ok () \<longrightarrow> stored x t d' = Ok (retain (hs_max_messages t) es))"
  using assms(1) [unfolded copy_to_def] steady_locks
proof (cases rule: then_steady)
  case stopped
  with sound_same [OF stopped(1) assms(6)] show ?thesis by simp
next
  case (went_on u d1)
  have d1: "sound x s d1 es" "visible t d1"
    using sound_same [OF went_on(3) assms(6)] went_on(3) assms(7) by (auto simp: calm_eq visible_def)
  from went_on(4) steady_refuse show ?thesis
  proof (cases rule: then_steady)
    case stopped
    with sound_same [OF stopped(1) d1(1)] show ?thesis by simp
  next
    case (went_on w d2)
    then have absent: "\<not> any_path_exists d1 t" and d2: "d2 = d1"
      by (auto simp: refuse_destination_def split: if_splits)
    from went_on(4) [unfolded d2] show ?thesis
    proof (cases rule: then_cases)
      case (stopped q)
      with load_unlocked_safe [OF d1(1) assms(2,4) stopped(1)] show ?thesis by simp
    next
      case (went_on entries d3)
      with load_unlocked_safe [OF d1(1) assms(2,4) went_on(1)]
      have d3: "sound x s d3 es" "outside s d1 d3" "entries = es" by simp_all
      have "visible t d3" "\<not> any_path_exists d3 t" "stored x s d3 = Ok es"
        using d3 d1 absent assms(5)
        by (auto simp: visible_def outside_def sound_def any_path_exists_def path_exists_def apart_def lock_targets_def
            split: option.splits)
      note dest = persist_destination [OF this(1,2) assms(3,4) this(3) assms(2,5) d3(1)]
      show ?thesis
      proof (cases "es = [] \<and> \<not> path_exists d3 (hs_path s)")
        case True
        with went_on(2) d3(3) dest(1,3) [of False "Ok ()" d3] show ?thesis by (auto simp: return_ok_def)
      next
        case False
        with went_on(2) d3(3) have "persist x t es d3 = (r, d')" by (simp split: if_splits)
        with dest(1,3) [of True r d'] show ?thesis by simp
      qed
    qed
  qed
qed

lemma calm_clear: "dk_turns d = [] \<Longrightarrow> fst (clear_unlocked s d) = Ok ()"
  by (simp add: clear_unlocked_def remove_file_if_exists_def change_files_def split: option.split)

lemma calm_move:
  assumes "stored x s d = Ok es" and "encoded x es \<noteq> None" and "\<not> any_path_exists d t"
  shows "fst (move_to_with x s t (Ok ()) (calm d)) = Ok (any_path_exists d s)"
proof -
  obtain d1 where d1: "load_unlocked x s (calm d) = (Ok es, calm d1)" using calm_load_unlocked [OF assms(1,2)] by blast
  let ?p = "any_path_exists d s"
  have finish: "fst (finish_move s t (Ok ()) ?p (calm d2)) = Ok ?p" for d2
    using calm_clear [of "(calm d2)\<lparr>dk_owner := True\<rparr>" s]
    by (cases "clear_unlocked s ((calm d2)\<lparr>dk_owner := True\<rparr>)")
      (simp add: finish_move_def run_update_owner_def then_do_def return_ok_def)
  obtain d2 where "(if ?p then persist x t es else return_ok ()) (calm d1) = (Ok (), calm d2)"
    using assms(2) by (cases ?p) (auto simp: calm_persist return_ok_def simp del: with_file_simps(4))
  with d1 assms(3) finish show ?thesis
    by (simp add: move_to_with_def then_do_def calm_locks refuse_destination_def Let_def)
qed

text \<open>C10: Moving a history to another profile never loses it. Let any I/O call fail or kill the process, and let
  the update of the owner succeed, fail or not return. As long as the owner has not been updated, the source
  still holds the history; once it has, the destination holds it, reduced to the newest entries where it
  retains fewer. A move that reports success has updated the owner and erased the source. A copy leaves the
  source as it was, and when it reports success the destination holds the history. When nothing fails and the
  destination is unused, a move does report success.\<close>

theorem history_move_safe:
  assumes "with_legacy p q n = Ok s" and "with_legacy p' q' n' = Ok t" and "{p, q} \<inter> {p', q'} = {}" and "json_lines x"
    and "stored x s d = Ok es" and "agreeing x s d" and "dk_hidden d = []" and "\<not> dk_owner d"
  shows "(move_to_with x s t update_owner d = (r, d1) \<longrightarrow>
      (if dk_owner d1 then stored x t d1 = Ok (retain (hs_max_messages t) es) else stored x s d1 = Ok es) \<and>
      (\<forall>b. r = Ok b \<longrightarrow> dk_owner d1 \<and> b = any_path_exists d s \<and>
        (\<forall>path \<in> set (lock_targets s). dk_files d1 path = None))) \<and>
    (copy_to x s t d = (r', d2) \<longrightarrow>
      stored x s d2 = Ok es \<and> (r' = Ok () \<longrightarrow> stored x t d2 = Ok (retain (hs_max_messages t) es))) \<and>
    (dk_turns d = [] \<and> encoded x es \<noteq> None \<and> \<not> any_path_exists d t \<longrightarrow>
      fst (move_to_with x s t (Ok ()) d) = Ok (any_path_exists d s))"
proof -
  have ok: "store_ok s" "store_ok t" using assms(1,2) by (auto intro: with_legacy_ok)
  have "set (lock_targets s) \<subseteq> {p, q}" "set (lock_targets t) \<subseteq> {p', q'}"
    using assms(1,2) by (auto simp: with_legacy_def with_optional_legacy_def lock_targets_def split: if_splits)
  with assms(3) have apart: "apart s t" by (auto simp: apart_def)
  have sound: "sound x s d es" and vis: "visible t d" using assms(5-7) by (simp_all add: sound_def visible_def)
  have "moved x s t es (any_path_exists d s) r d1" if "move_to_with x s t update_owner d = (r, d1)"
    using that ok assms(4) apart sound vis assms(8) by (rule move_safe)
  moreover have "sound x s d2 es \<and> (r' = Ok () \<longrightarrow> stored x t d2 = Ok (retain (hs_max_messages t) es))"
    if "copy_to x s t d = (r', d2)"
    using that ok assms(4) apart sound vis by (rule copy_safe)
  moreover have "dk_turns d = [] \<and> encoded x es \<noteq> None \<and> \<not> any_path_exists d t \<longrightarrow>
      fst (move_to_with x s t (Ok ()) d) = Ok (any_path_exists d s)"
    using calm_move [OF assms(5), of t] by (metis calm_id)
  ultimately show ?thesis by (auto simp: moved_def erased_def sound_def)
qed


section \<open>A history that cannot be seen\<close>

text \<open>\<^verbatim>\<open>Path::exists\<close> answers false when the metadata of a path cannot be read. A history file that is there but
  cannot be examined is thus taken for an empty history, and an upsert that succeeds replaces it.\<close>

lemma unseen_history_overwritten:
  assumes "hs_legacy_path s = None" and "hs_path s \<in> set (dk_hidden d)" and "1 \<le> hs_max_messages s"
    and "validate_entry e = Ok ()" and "encoded x [e] = Some bs"
  shows "upsert x s e (calm d) = (Ok (), calm (with_file (hs_path s) (Some bs) d))"
proof -
  have "merge_entries (hs_max_messages s) [] [] = []" by (simp add: merge_nothing history_def retain_def)
  moreover have "load_path x (hs_path s) (calm d) = (Ok [], calm d)"
    using assms(2) by (simp add: load_path_def path_exists_def)
  ultimately have "load_unlocked x s (calm d) = (Ok [], calm d)"
    using assms(1) by (simp add: load_unlocked_def then_do_def return_ok_def)
  moreover have "retain (hs_max_messages s) (replace_or_push e []) = [e]" using assms(3) by (simp add: retain_def)
  ultimately show ?thesis
    using assms(4) calm_persist [OF assms(5)] by (simp add: upsert_def then_do_def yield_def calm_locks)
qed

section \<open>Examples\<close>

definition sample_entry :: history_entry where
  "sample_entry = \<lparr>he_version = 1, he_id = 5, he_recorded_at_unix_ms = 7, he_direction = HD_Incoming,
     he_peer = [0x61], he_channel = None, he_text = [0x68], he_status = HS_Received, he_acknowledgement = None\<rparr>"

text \<open>Libraries that know one document.\<close>

definition uuid_names :: mqtt_externs where
  "uuid_names = \<lparr>from_slice = (\<lambda>_. None), to_vec = (\<lambda>_. None), parse_uuid = (\<lambda>_. Some 5),
     hyphenated = (\<lambda>u. if u = 5 then [0x35] else [])\<rparr>"

definition one_document :: mqtt_externs where
  "one_document = uuid_names\<lparr>from_slice := (\<lambda>_. Some (entry_json uuid_names sample_entry)),
     to_vec := (\<lambda>j. if j = entry_json uuid_names sample_entry then Some [0x7B] else None)\<rparr>"

lemma one_document_entry: "entry_json one_document e = entry_json uuid_names e"
  by (simp add: entry_json_def one_document_def)

lemma one_document_lines: "json_lines one_document"
proof -
  have "he_id e = 5" if "entry_json uuid_names e = entry_json uuid_names sample_entry" for e
    using that by (simp add: entry_json_def struct_json_def uuid_names_def sample_entry_def split: if_splits)
  then show ?thesis
    by (auto simp: json_lines_def one_document_entry, auto simp: one_document_def uuid_names_def split: if_splits)
qed

lemma sample_encoded: "encoded one_document [sample_entry] = Some [0x7B, 0x0A]"
  by (simp add: one_document_entry) (simp add: one_document_def MAX_HISTORY_ENTRY_BYTES_def)

lemma sample_entry_valid: "validate_entry sample_entry = Ok ()"
  by (simp add: validate_entry_def sample_entry_def validate_history_text_def)

definition sample_source :: history_store where
  "sample_source = \<lparr>hs_path = [1], hs_legacy_path = Some [2], hs_max_messages = 10\<rparr>"

definition sample_target :: history_store where
  "sample_target = \<lparr>hs_path = [3], hs_legacy_path = Some [4], hs_max_messages = 10\<rparr>"

lemma sample_stores: "with_legacy [1] [2] 10 = Ok sample_source" "with_legacy [3] [4] 10 = Ok sample_target"
  by (simp_all add: with_legacy_def with_optional_legacy_def sample_source_def sample_target_def)

definition empty_disk :: disk where
  "empty_disk = \<lparr>dk_files = Map.empty, dk_hidden = [], dk_turns = [], dk_owner = False\<rparr>"

lemma empty_stored: "stored x s empty_disk = Ok []" "agreeing x s empty_disk"
proof -
  have "file_entries x empty_disk p = Ok []" for p
    by (simp add: file_entries_def load_path_def path_exists_def empty_disk_def)
  then have "file_entries x empty_disk (hs_path s) = Ok []" "legacy_entries x s empty_disk = Ok []"
    by (simp_all add: legacy_entries_def split: option.split)
  then show "stored x s empty_disk = Ok []" "agreeing x s empty_disk"
    by (simp_all add: stored_def agreeing_def merge_nothing history_def retain_def)
qed

theorem history_survives_witness:
  "stored one_document sample_source (snd (upserts one_document sample_source [sample_entry] empty_disk)) =
     Ok [sample_entry]"
proof -
  obtain rs d2 where run: "upserts one_document sample_source [sample_entry] empty_disk = (rs, d2)" by fastforce
  obtain r d1 where "load one_document sample_source empty_disk = (r, d1)" by fastforce
  note safe = history_survives [OF sample_stores(1) one_document_lines empty_stored, of r d1 "[sample_entry]" rs d2 sample_entry]
  have update: "update_history 10 sample_entry [] = [sample_entry]"
    by (simp add: update_history_def retain_def)
  have "fst (upsert one_document sample_source sample_entry empty_disk) = Ok ()"
    using safe sample_encoded sample_entry_valid update by (simp add: empty_disk_def sample_source_def)
  with run have "rs = [Ok ()]" by (auto split: prod.splits)
  with safe run obtain took where "length took = 1" "took ! 0"
    "stored one_document sample_source d2 = Ok (fold (update_history 10) (effective took [sample_entry]) [])"
    by (auto simp: empty_disk_def sample_source_def)
  then show ?thesis using run update by (cases took) (auto simp: effective_def)
qed


theorem history_retains_newest_witness:
  "history (update_history 10 sample_entry []) \<and>
   top_entries 10 (set (update_history 10 sample_entry [])) {sample_entry}"
proof -
  have "history []" by (simp add: history_def)
  with history_retains_newest [of 10 "[]" "[]" "[]" sample_entry] show ?thesis by simp
qed

definition sample_disk :: disk where
  "sample_disk = with_file [1] (Some [0x7B, 0x0A]) empty_disk"

lemma sample_stored:
  "stored one_document sample_source sample_disk = Ok [sample_entry]" "agreeing one_document sample_source sample_disk"
proof -
  have "file_entries one_document sample_disk [1] = Ok [sample_entry]"
    unfolding sample_disk_def using one_document_lines sample_encoded
    by (rule file_entries_written)
      (simp_all add: valid_entries_def sample_entry_valid MAX_HISTORY_MESSAGES_def empty_disk_def)
  moreover have "legacy_entries one_document sample_source sample_disk = Ok []"
    by (simp add: legacy_entries_def sample_source_def file_entries_def load_path_def path_exists_def sample_disk_def
        empty_disk_def)
  ultimately show "stored one_document sample_source sample_disk = Ok [sample_entry]"
    "agreeing one_document sample_source sample_disk"
    by (simp_all add: stored_def agreeing_def merge_nothing history_def retain_def sample_source_def)
qed

theorem history_move_safe_witness:
  "stored one_document sample_target
     (snd (move_to_with one_document sample_source sample_target (Ok ()) sample_disk)) = Ok [sample_entry]"
proof -
  obtain r d1 where run: "move_to_with one_document sample_source sample_target (Ok ()) sample_disk = (r, d1)" by fastforce
  obtain r' d2 where "copy_to one_document sample_source sample_target sample_disk = (r', d2)" by fastforce
  have disk: "dk_hidden sample_disk = []" "\<not> dk_owner sample_disk" "dk_turns sample_disk = []"
    "any_path_exists sample_disk sample_source" "\<not> any_path_exists sample_disk sample_target"
    by (simp_all add: sample_disk_def empty_disk_def with_file_def any_path_exists_def path_exists_def
        sample_source_def sample_target_def)
  have apart: "{[1], [2]} \<inter> {[3], [4 :: byte]} = {}" by simp
  note safe = history_move_safe [OF sample_stores apart one_document_lines sample_stored disk(1,2), of "Ok ()" r d1 r' d2]
  then have "r = Ok True" using run disk(3-5) sample_encoded by simp
  with safe run have "dk_owner d1" by blast
  with safe run have "stored one_document sample_target d1 = Ok (retain (hs_max_messages sample_target) [sample_entry])"
    by simp
  moreover have "retain (hs_max_messages sample_target) [sample_entry] = [sample_entry]"
    by (simp add: retain_def sample_target_def)
  ultimately show ?thesis using run by simp
qed

end
