(* ===== verification/Spec2Isabelle.thy ===== *)
theory Spec2Isabelle
  imports Wire Remote Mqtt_Events Mqtt_Gateway Store_Safety
begin

text \<open>
  A verification of meshquill, the Rust client of the MeshCore companion protocol. This theory only
  collects the others; each of them opens with a note on what it holds.

  \<^bold>\<open>The program.\<close> A companion radio is reached over a transport that carries framed packets. The client
  (\<^verbatim>\<open>meshquill-core\<close>) builds commands, parses the packets that come back, keeps track of messages and
  acknowledgements and publishes events. The managed client is an actor that owns a client and runs
  queued commands one at a time. The MQTT gateway (\<^verbatim>\<open>meshquill-mqtt\<close>) publishes the events under a
  versioned JSON schema and lets commands in through a gate. The store (\<^verbatim>\<open>meshquill-store\<close>) keeps a local
  message history. Code outside the repository, such as SHA-256, hexadecimal coding, the text of JSON and
  UUIDs, TLS files and the operating system, is a parameter of the definitions (the records \<open>externs\<close>,
  \<open>mqtt_externs\<close>, \<open>tls_files\<close>, \<open>'t transport_ops\<close>) or a list of outcomes (reads of a stream, turns of a
  loop, I/O calls of a disk); what is relied on is a named hypothesis.

  \<^bold>\<open>Foundations.\<close>
  \<^item> \<open>Prelude\<close>, \<open>Text\<close>, \<open>Floats\<close>, \<open>Chars\<close>, \<open>Json\<close>: machine integers at their width, the three outcomes of a
    Rust function (a value, an error, a panic), UTF-8 strings as byte lists, rounding of floats, the
    character classes of the standard library, JSON values and the conversions derived for data types.

  \<^bold>\<open>Protocol\<close> (\<^verbatim>\<open>domain.rs\<close>, \<^verbatim>\<open>error.rs\<close>, \<^verbatim>\<open>protocol.rs\<close>, \<^verbatim>\<open>remote.rs\<close>).
  \<^item> \<open>Domain\<close>, \<open>Codes\<close>, \<open>Command\<close>: the types, the one-byte selectors, one definition for each command
    constructor with its validation.
  \<^item> \<open>Packet\<close>: one definition for each packet parser and their dispatch.
  \<^item> \<open>Wire\<close>: parsing never panics and gives well-formed values, settings and contacts survive being
    written and read back (a coordinate up to one millionth of a degree), and every command fits its frame.
  \<^item> \<open>Remote\<close>: the payloads of remote requests; the parsers never panic, account for every byte of
    telemetry and read back encoded neighbours, regions and access lists.

  \<^bold>\<open>Transport\<close> (\<^verbatim>\<open>framing.rs\<close>, \<^verbatim>\<open>framed.rs\<close>, \<^verbatim>\<open>transport.rs\<close>).
  \<^item> \<open>Framing\<close>: the outer frames and the reader over a stream in arbitrary chunks, which refines the frames
    of the concatenated stream; the decoder over whole buffers, sound but losing a frame after noise;
    bounded writes that invalidate the stream when they fail.
  \<^item> \<open>Transport\<close>: the transport trait as a record of operations with laws in locales, and the in-memory
    transport, on which the laws are established.

  \<^bold>\<open>Client\<close> (\<^verbatim>\<open>client.rs\<close>).
  \<^item> \<open>Client\<close>, \<open>Operations\<close>: the state, the helpers and every public operation, as actions on the state.
    Loops that read until an answer arrives are partial functions whose value is none when they do not
    end; that they end is proved for transports with a finite backlog.
  \<^item> \<open>Tracking\<close>: the bounded tables of acknowledgements, refining a list of the most recent codes.
  \<^item> \<open>Session\<close>, \<open>Numbering\<close>, \<open>Traffic\<close>: calculi, as locales, for what operations keep of an invariant, the
    numbers of published messages, and the packets they write.

  \<^bold>\<open>Managed client\<close> (\<^verbatim>\<open>managed.rs\<close>).
  \<^item> \<open>Managed\<close>: the actor as a labelled step relation. Commands run in the order of submission, none is sent
    twice, cancelled ones never start, replies match commands, an interruption leaves no ambiguous
    session, and a queued command is always handled.
  \<^item> \<open>Requests\<close>: messages are published once and in order, no request is sent while a response is
    outstanding, waits for acknowledgements settle, and data to be signed are transmitted whole.

  \<^bold>\<open>MQTT gateway\<close> (\<^verbatim>\<open>config.rs\<close>, \<^verbatim>\<open>topics.rs\<close>, \<^verbatim>\<open>backoff.rs\<close>, \<^verbatim>\<open>command.rs\<close>, \<^verbatim>\<open>schema.rs\<close>, \<^verbatim>\<open>runner.rs\<close>).
  \<^item> \<open>Mqtt_Config\<close>: the settings and their validation, the topics, the reconnect delays.
  \<^item> \<open>Mqtt_Command\<close>: the replay cache, refining a memory of recent identifiers, and the command processor,
    which accepts a command at most once within the lifetime and capacity of the cache.
  \<^item> \<open>Mqtt_Schema\<close>: the publications and their envelopes, which survive encoding and decoding.
  \<^item> \<open>Mqtt_Events\<close>: client and schema together: every event an actor publishes that the schema covers is a
    valid publication.
  \<^item> \<open>Mqtt_Gateway\<close>: the network worker and the gateway task. Commands reach the application only through
    the processor, publications stay on event topics within their limits, and connection reports and
    reconnect delays are consistent.

  \<^bold>\<open>Store\<close> (\<^verbatim>\<open>meshquill-store/src/lib.rs\<close>).
  \<^item> \<open>Store_History\<close>: the entries, the bounded JSONL files and the operations of \<^verbatim>\<open>HistoryStore\<close> over a disk
    whose I/O calls may each fail or be the one at which the process is killed.
  \<^item> \<open>Store_Safety\<close>: the history retains the newest entries, one for each identifier; an operation that fails
    or is killed anywhere leaves it as it was or as the operation makes it; a move never loses it.

  \<^bold>\<open>Bounds.\<close> No definition runs on fuel. Loops are structural or have a measure, except the two kinds
  above: reading loops, whose termination is a theorem, and the tasks that run until they are stopped, which
  consume the list of what happens to them, so that a statement about all lists covers every run.
  Lengths are natural numbers where the source uses \<^verbatim>\<open>usize\<close> and the values are bounded by the size of a
  buffer; all other integers are words.

  \<^bold>\<open>Not modelled.\<close> The TCP, serial and Bluetooth transports and discovery are glue to the operating system
  around the framed stream. The TLS set-up of \<^verbatim>\<open>runner.rs\<close> hands certificates to a library. The
  configuration, secret and path parts of the store are reading and writing of TOML and of credential
  backends. The hooks control Python processes, the command line parses arguments and prints, the Python
  bindings convert objects, and the test support simulates devices. \<^verbatim>\<open>Debug\<close> output and the zeroing of
  secrets have no effect on the values modelled.
\<close>

end
